(* ===== verification/Prelude.thy ===== *)
theory Prelude
  imports Main "HOL-Library.Sublist" "HOL-Library.Word"
begin

text \<open>
  Shared vocabulary of the development: the fact collections, the result type,
  and the generic lemmas on lists, options, sums and maps that the component
  theories use through \<^theory_text>\<open>simp\<close> and \<^theory_text>\<open>auto\<close>.
\<close>

named_theorems str_iff "characterisations of the string splitters"
named_theorems str_len "length bounds used by termination proofs"
named_theorems reg_simps "what the operations of the stores leave behind"

text \<open>
  A byte is a \<^typ>\<open>char\<close>; a Rust string or byte vector is the list of its UTF-8
  bytes. \<open>byte\<close> reads the numeric value, as a Rust \<^verbatim>\<open>u8\<close>.
\<close>

abbreviation byte :: "char \<Rightarrow> nat" where
  "byte c \<equiv> of_char c"

text \<open>To evaluate comparisons of bytes, the binary integers are taken, not unary numbers.\<close>

lemma byte_compare_code [code_unfold]:
  "numeral k \<le> byte c \<longleftrightarrow> numeral k \<le> (of_char c :: int)"
  "byte c \<le> numeral k \<longleftrightarrow> of_char c \<le> (numeral k :: int)"
  "byte c < numeral k \<longleftrightarrow> of_char c < (numeral k :: int)"
  "numeral k < byte c \<longleftrightarrow> numeral k < (of_char c :: int)"
  "byte c = numeral k \<longleftrightarrow> of_char c = (numeral k :: int)"
proof -
  have "(of_char c :: int) = int (byte c)" by (cases c) (simp add: horner_sum_simps)
  then show "numeral k \<le> byte c \<longleftrightarrow> numeral k \<le> (of_char c :: int)"
    "byte c \<le> numeral k \<longleftrightarrow> of_char c \<le> (numeral k :: int)"
    "byte c < numeral k \<longleftrightarrow> of_char c < (numeral k :: int)"
    "numeral k < byte c \<longleftrightarrow> numeral k < (of_char c :: int)"
    "byte c = numeral k \<longleftrightarrow> of_char c = (numeral k :: int)"
    by simp_all
qed

type_synonym bytes = string

text \<open>Rust's \<^verbatim>\<open>Result\<close>: \<open>Inl\<close> carries the error.\<close>

type_synonym ('e, 'a) res = "'e + 'a"

definition bind_res :: "('e, 'a) res \<Rightarrow> ('a \<Rightarrow> ('e, 'b) res) \<Rightarrow> ('e, 'b) res" where
  "bind_res r f = (case r of Inl e \<Rightarrow> Inl e | Inr a \<Rightarrow> f a)"

text \<open>Evaluated as the case distinction it is, so that what follows an error is not looked at.\<close>

declare bind_res_def [code_unfold]

definition ok_or :: "'e \<Rightarrow> 'a option \<Rightarrow> ('e, 'a) res" where
  "ok_or e x = (case x of None \<Rightarrow> Inl e | Some a \<Rightarrow> Inr a)"

text \<open>\<^verbatim>\<open>iter().map(f).collect::<Result<Vec<_>, _>>()\<close>: the first error wins.\<close>

fun map_res :: "('a \<Rightarrow> ('e, 'b) res) \<Rightarrow> 'a list \<Rightarrow> ('e, 'b list) res" where
  "map_res f [] = Inr []"
| "map_res f (x # xs) =
     (case f x of Inl e \<Rightarrow> Inl e
      | Inr y \<Rightarrow> (case map_res f xs of Inl e \<Rightarrow> Inl e | Inr ys \<Rightarrow> Inr (y # ys)))"

lemma bind_res_simps [simp]:
  "bind_res (Inl e) f = Inl e" "bind_res (Inr a) f = f a"
  by (simp_all add: bind_res_def)

lemma bind_res_Inr_iff:
  "bind_res r f = Inr b \<longleftrightarrow> (\<exists>a. r = Inr a \<and> f a = Inr b)"
  by (cases r) auto

lemma ok_or_simps [simp]:
  "ok_or e None = Inl e" "ok_or e (Some a) = Inr a"
  by (simp_all add: ok_or_def)

lemma map_res_Inr_length: "map_res f xs = Inr ys \<Longrightarrow> length ys = length xs"
  by (induction xs arbitrary: ys) (auto split: sum.splits)

lemma map_res_Inr_nth:
  "map_res f xs = Inr ys \<Longrightarrow> i < length xs \<Longrightarrow> f (xs ! i) = Inr (ys ! i)"
proof (induction xs arbitrary: ys i)
  case Nil
  then show ?case by simp
next
  case (Cons x xs)
  then show ?case by (cases i) (auto split: sum.splits)
qed

lemma map_res_Inr_set:
  "map_res f xs = Inr ys \<Longrightarrow> y \<in> set ys \<Longrightarrow> \<exists>x\<in>set xs. f x = Inr y"
  by (metis in_set_conv_nth map_res_Inr_length map_res_Inr_nth nth_mem)

lemma takeWhile_dropWhile_split:
  "c \<in> set s \<Longrightarrow> s = takeWhile (\<lambda>x. x \<noteq> c) s @ c # tl (dropWhile (\<lambda>x. x \<noteq> c) s)"
  by (induction s) auto

lemma prefix_drop_eq: "prefix p s \<Longrightarrow> p @ drop (length p) s = s"
  by (auto simp: prefix_def)

lemma find_Some_set: "find P xs = Some x \<Longrightarrow> x \<in> set xs \<and> P x"
  by (induction xs) (auto split: if_splits)

lemma find_None_iff': "find P xs = None \<longleftrightarrow> (\<forall>x\<in>set xs. \<not> P x)"
  by (induction xs) auto

section \<open>Runs\<close>

text \<open>
  What the step relations of the development share: a run with its labels is empty or a run and
  one more step. Whatever a step keeps, a run keeps; what a step adds to a quantity, a run adds up.
\<close>

locale labelled_runs =
  fixes step :: "'s \<Rightarrow> 'l \<Rightarrow> 's \<Rightarrow> bool" and run :: "'s \<Rightarrow> 'l list \<Rightarrow> 's \<Rightarrow> bool"
  assumes run_Nil: "run a [] b \<longleftrightarrow> b = a"
    and run_snoc: "run a (ls @ [l]) c \<longleftrightarrow> (\<exists>b. run a ls b \<and> step b l c)"
begin

lemma run_append: "run a (ls @ ls') c \<longleftrightarrow> (\<exists>b. run a ls b \<and> run b ls' c)"
proof (induction ls' arbitrary: c rule: rev_induct)
  case (snoc l ls')
  have "run a (ls @ ls' @ [l]) c \<longleftrightarrow> (\<exists>b. run a (ls @ ls') b \<and> step b l c)"
    using run_snoc [of a "ls @ ls'" l c] by simp
  then show ?case using snoc run_snoc by blast
qed (simp add: run_Nil)

lemma run_single: "run a [l] b \<longleftrightarrow> step a l b"
  using run_snoc [of a "[]" l b] by (simp add: run_Nil)

lemma run_Cons: "run a (l # ls) c \<longleftrightarrow> (\<exists>b. step a l b \<and> run b ls c)"
  using run_append [of a "[l]" ls c] by (simp add: run_single)

lemma run_keeps:
  assumes "run a ls b" "kept a" "\<And>x l y. step x l y \<Longrightarrow> kept x \<Longrightarrow> kept y"
  shows "kept b"
  using assms(1)
proof (induction ls arbitrary: b rule: rev_induct)
  case Nil
  then show ?case using assms(2) by (simp add: run_Nil)
next
  case (snoc l ls)
  then obtain m where "run a ls m" "step m l b" by (auto simp: run_snoc)
  with snoc.IH assms(3) show ?case by blast
qed

lemma run_adds:
  fixes f :: "'s \<Rightarrow> 'n :: comm_monoid_add"
  assumes "run a ls b" "\<And>x l y. step x l y \<Longrightarrow> f y = f x + g l"
  shows "f b = f a + sum_list (map g ls)"
  using assms(1)
proof (induction ls arbitrary: b rule: rev_induct)
  case (snoc l ls)
  then obtain m where "run a ls m" "step m l b" by (auto simp: run_snoc)
  with snoc.IH [of m] assms(2) [of m l b] show ?case by (simp add: add.assoc)
qed (simp add: run_Nil)

end

end
