(* ===== verification/Rust_Str.thy ===== *)
theory Rust_Str
  imports Prelude
begin

text \<open>
  The string operations of Rust's standard library that the program calls, on the
  UTF-8 bytes of the string. Splitting and searching for an ASCII character is the
  same on bytes as on characters; the operations that depend on Unicode properties
  (\<^verbatim>\<open>trim\<close>, \<^verbatim>\<open>is_whitespace\<close>, \<^verbatim>\<open>is_control\<close>,
  \<^verbatim>\<open>from_utf8_lossy\<close>) recognise the encodings byte by byte.
\<close>

section \<open>Characters\<close>

definition is_ascii_digit :: "char \<Rightarrow> bool" where
  "is_ascii_digit c \<longleftrightarrow> 48 \<le> byte c \<and> byte c \<le> 57"

definition is_ascii_alnum :: "char \<Rightarrow> bool" where
  "is_ascii_alnum c \<longleftrightarrow> is_ascii_digit c \<or> (65 \<le> byte c \<and> byte c \<le> 90)
     \<or> (97 \<le> byte c \<and> byte c \<le> 122)"

text \<open>\<^verbatim>\<open>u8::is_ascii_whitespace\<close>: space, tab, line feed, form feed, return.\<close>

definition is_ascii_whitespace :: "char \<Rightarrow> bool" where
  "is_ascii_whitespace c \<longleftrightarrow> byte c \<in> {32, 9, 10, 12, 13}"

definition ascii_lower :: "char \<Rightarrow> char" where
  "ascii_lower c = (if 65 \<le> byte c \<and> byte c \<le> 90 then char_of (byte c + 32) else c)"

definition to_ascii_lowercase :: "string \<Rightarrow> string" where
  "to_ascii_lowercase s = map ascii_lower s"

definition eq_ignore_ascii_case :: "string \<Rightarrow> string \<Rightarrow> bool" where
  "eq_ignore_ascii_case a b \<longleftrightarrow> to_ascii_lowercase a = to_ascii_lowercase b"

section \<open>Splitting\<close>

text \<open>\<^verbatim>\<open>str::split_once(char)\<close>.\<close>

fun split_once :: "char \<Rightarrow> string \<Rightarrow> (string \<times> string) option" where
  "split_once c [] = None"
| "split_once c (x # xs) =
     (if x = c then Some ([], xs)
      else case split_once c xs of None \<Rightarrow> None | Some (a, b) \<Rightarrow> Some (x # a, b))"

text \<open>\<^verbatim>\<open>s.split_once(c).unwrap_or((s, ""))\<close>.\<close>

definition split_once_or :: "char \<Rightarrow> string \<Rightarrow> string \<times> string" where
  "split_once_or c s = (case split_once c s of Some ab \<Rightarrow> ab | None \<Rightarrow> (s, []))"

text \<open>\<^verbatim>\<open>str::split_once(&str)\<close>.\<close>

fun split_once_str :: "string \<Rightarrow> string \<Rightarrow> (string \<times> string) option" where
  "split_once_str p [] = (if p = [] then Some ([], []) else None)"
| "split_once_str p (x # xs) =
     (if prefix p (x # xs) then Some ([], drop (length p) (x # xs))
      else case split_once_str p xs of None \<Rightarrow> None | Some (a, b) \<Rightarrow> Some (x # a, b))"

text \<open>\<^verbatim>\<open>str::split(char)\<close>: always at least one piece.\<close>

fun split_on :: "char \<Rightarrow> string \<Rightarrow> string list" where
  "split_on c [] = [[]]"
| "split_on c (x # xs) =
     (if x = c then [] # split_on c xs
      else case split_on c xs of [] \<Rightarrow> [[x]] | y # ys \<Rightarrow> (x # y) # ys)"

text \<open>\<^verbatim>\<open>[_]::join(sep)\<close>.\<close>

fun join :: "string \<Rightarrow> string list \<Rightarrow> string" where
  "join sep [] = []"
| "join sep [x] = x"
| "join sep (x # y # zs) = x @ sep @ join sep (y # zs)"

definition strip_prefix :: "string \<Rightarrow> string \<Rightarrow> string option" where
  "strip_prefix p s = (if prefix p s then Some (drop (length p) s) else None)"

definition contains_str :: "string \<Rightarrow> string \<Rightarrow> bool" where
  "contains_str p s \<longleftrightarrow> split_once_str p s \<noteq> None"

text \<open>\<^verbatim>\<open>s.split(c).next()\<close> and \<^verbatim>\<open>s.rsplit(c).next()\<close>.\<close>

definition before_first :: "char \<Rightarrow> string \<Rightarrow> string" where
  "before_first c s = takeWhile (\<lambda>x. x \<noteq> c) s"

definition after_last :: "char \<Rightarrow> string \<Rightarrow> string" where
  "after_last c s = rev (takeWhile (\<lambda>x. x \<noteq> c) (rev s))"

text \<open>\<^verbatim>\<open>find(c)\<close> followed by slicing at the hit: the part before and the part from it.\<close>

definition cut_at :: "char \<Rightarrow> string \<Rightarrow> string \<times> string" where
  "cut_at c s = (takeWhile (\<lambda>x. x \<noteq> c) s, dropWhile (\<lambda>x. x \<noteq> c) s)"

definition trim_start_char :: "char \<Rightarrow> string \<Rightarrow> string" where
  "trim_start_char c s = dropWhile (\<lambda>x. x = c) s"

definition trim_char :: "char \<Rightarrow> string \<Rightarrow> string" where
  "trim_char c s = rev (dropWhile (\<lambda>x. x = c) (rev (dropWhile (\<lambda>x. x = c) s)))"

section \<open>Unicode white space and control characters\<close>

text \<open>The UTF-8 encodings of the characters with the property \<^verbatim>\<open>White_Space\<close>.\<close>

definition white_space :: "string list" where
  "white_space =
     [[CHR 0x20], [CHR 0x09], [CHR 0x0A], [CHR 0x0B], [CHR 0x0C], [CHR 0x0D],
      [CHR 0xC2, CHR 0x85], [CHR 0xC2, CHR 0xA0], [CHR 0xE1, CHR 0x9A, CHR 0x80],
      [CHR 0xE2, CHR 0x80, CHR 0x80], [CHR 0xE2, CHR 0x80, CHR 0x81],
      [CHR 0xE2, CHR 0x80, CHR 0x82], [CHR 0xE2, CHR 0x80, CHR 0x83],
      [CHR 0xE2, CHR 0x80, CHR 0x84], [CHR 0xE2, CHR 0x80, CHR 0x85],
      [CHR 0xE2, CHR 0x80, CHR 0x86], [CHR 0xE2, CHR 0x80, CHR 0x87],
      [CHR 0xE2, CHR 0x80, CHR 0x88], [CHR 0xE2, CHR 0x80, CHR 0x89],
      [CHR 0xE2, CHR 0x80, CHR 0x8A], [CHR 0xE2, CHR 0x80, CHR 0xA8],
      [CHR 0xE2, CHR 0x80, CHR 0xA9], [CHR 0xE2, CHR 0x80, CHR 0xAF],
      [CHR 0xE2, CHR 0x81, CHR 0x9F], [CHR 0xE3, CHR 0x80, CHR 0x80]]"

text \<open>Strips any of the given non-empty strings from the front, as long as one matches.\<close>

function strip_any :: "string list \<Rightarrow> string \<Rightarrow> string" where
  "strip_any ws s =
     (case find (\<lambda>w. w \<noteq> [] \<and> prefix w s) ws of
        None \<Rightarrow> s
      | Some w \<Rightarrow> strip_any ws (drop (length w) s))"
  by pat_completeness auto
termination
proof (relation "measure (\<lambda>(ws, s). length s)", goal_cases)
  case 1
  show ?case by simp
next
  case (2 ws s w)
  then have "w \<noteq> []" "prefix w s"
    by (auto dest: find_Some_set)
  then have "0 < length w" "length w \<le> length s"
    by (auto dest: prefix_length_le)
  then show ?case by (simp del: length_greater_0_conv)
qed

declare strip_any.simps [simp del]

definition trim_start :: "string \<Rightarrow> string" where
  "trim_start s = strip_any white_space s"

definition trim_end :: "string \<Rightarrow> string" where
  "trim_end s = rev (strip_any (map rev white_space) (rev s))"

definition trim :: "string \<Rightarrow> string" where
  "trim s = trim_end (trim_start s)"

text \<open>\<^verbatim>\<open>s.chars().any(char::is_whitespace)\<close>.\<close>

fun has_white_space :: "string \<Rightarrow> bool" where
  "has_white_space [] \<longleftrightarrow> False"
| "has_white_space (x # xs) \<longleftrightarrow>
     (\<exists>w\<in>set white_space. prefix w (x # xs)) \<or> has_white_space xs"

text \<open>
  \<^verbatim>\<open>s.chars().any(char::is_control)\<close>: general category Cc, which is U+0000 to
  U+001F, U+007F, and U+0080 to U+009F (encoded with the lead byte \<open>0xC2\<close>).
\<close>

fun has_control :: "string \<Rightarrow> bool" where
  "has_control [] \<longleftrightarrow> False"
| "has_control (x # xs) \<longleftrightarrow>
     byte x < 32 \<or> byte x = 127
     \<or> (byte x = 0xC2 \<and> xs \<noteq> [] \<and> 0x80 \<le> byte (hd xs) \<and> byte (hd xs) \<le> 0x9F)
     \<or> has_control xs"

section \<open>Integers\<close>

fun digits_val :: "nat \<Rightarrow> string \<Rightarrow> nat option" where
  "digits_val acc [] = Some acc"
| "digits_val acc (c # cs) =
     (if is_ascii_digit c then digits_val (10 * acc + (byte c - 48)) cs else None)"

text \<open>\<^verbatim>\<open>str::parse\<close> at an unsigned type with the given largest value.\<close>

definition parse_unsigned :: "nat \<Rightarrow> string \<Rightarrow> nat option" where
  "parse_unsigned m s =
     (let ds = (case s of [] \<Rightarrow> [] | c # cs \<Rightarrow> if c = CHR ''+'' then cs else s) in
      if ds = [] then None
      else case digits_val 0 ds of None \<Rightarrow> None
           | Some n \<Rightarrow> if n \<le> m then Some n else None)"

text \<open>\<^verbatim>\<open>str::parse::<i64>\<close>.\<close>

definition parse_i64 :: "string \<Rightarrow> int option" where
  "parse_i64 s =
     (let neg = (s \<noteq> [] \<and> hd s = CHR ''-'');
          ds = (if s \<noteq> [] \<and> (hd s = CHR ''-'' \<or> hd s = CHR ''+'') then tl s else s) in
      if ds = [] then None
      else case digits_val 0 ds of None \<Rightarrow> None
           | Some n \<Rightarrow>
               (let v = (if neg then - int n else int n) in
                if - (2 ^ 63) \<le> v \<and> v < 2 ^ 63 then Some v else None))"

text \<open>\<^verbatim>\<open>format!("{n}")\<close> for an unsigned integer.\<close>

fun show_nat :: "nat \<Rightarrow> string" where
  "show_nat n =
     (if n < 10 then [char_of (48 + n)] else show_nat (n div 10) @ [char_of (48 + n mod 10)])"

declare show_nat.simps [simp del]

section \<open>UTF-8\<close>

definition is_cont :: "nat \<Rightarrow> bool" where
  "is_cont b \<longleftrightarrow> 0x80 \<le> b \<and> b \<le> 0xBF"

text \<open>
  One step of the decoder of \<^verbatim>\<open>String::from_utf8_lossy\<close>: \<open>Inr n\<close> when the string
  starts with a well-formed character of \<open>n\<close> bytes, \<open>Inl n\<close> when its first \<open>n\<close>
  bytes are a maximal ill-formed part. A read past the end gives 0.
\<close>

definition utf8_at :: "string \<Rightarrow> nat \<Rightarrow> nat" where
  "utf8_at s i = (if i < length s then byte (s ! i) else 0)"

definition utf8_second_ok :: "nat \<Rightarrow> nat \<Rightarrow> bool" where
  "utf8_second_ok x y \<longleftrightarrow>
     (x = 0xE0 \<and> 0xA0 \<le> y \<and> y \<le> 0xBF) \<or> (0xE1 \<le> x \<and> x \<le> 0xEC \<and> is_cont y)
     \<or> (x = 0xED \<and> 0x80 \<le> y \<and> y \<le> 0x9F) \<or> (0xEE \<le> x \<and> x \<le> 0xEF \<and> is_cont y)
     \<or> (x = 0xF0 \<and> 0x90 \<le> y \<and> y \<le> 0xBF) \<or> (0xF1 \<le> x \<and> x \<le> 0xF3 \<and> is_cont y)
     \<or> (x = 0xF4 \<and> 0x80 \<le> y \<and> y \<le> 0x8F)"

definition utf8_step :: "string \<Rightarrow> nat + nat" where
  "utf8_step s =
     (let x = utf8_at s 0; y = utf8_at s 1; z = utf8_at s 2; w = utf8_at s 3 in
      if x < 0x80 then Inr 1
      else if 0xC2 \<le> x \<and> x \<le> 0xDF then (if is_cont y then Inr 2 else Inl 1)
      else if 0xE0 \<le> x \<and> x \<le> 0xEF then
        (if \<not> utf8_second_ok x y then Inl 1
         else if is_cont z then Inr 3 else Inl 2)
      else if 0xF0 \<le> x \<and> x \<le> 0xF4 then
        (if \<not> utf8_second_ok x y then Inl 1
         else if \<not> is_cont z then Inl 2
         else if is_cont w then Inr 4 else Inl 3)
      else Inl 1)"

definition replacement_char :: string where
  "replacement_char = [CHR 0xEF, CHR 0xBF, CHR 0xBD]"

lemma utf8_step_pos: "utf8_step s = Inr n \<or> utf8_step s = Inl n \<Longrightarrow> 0 < n"
  by (auto simp: utf8_step_def Let_def split: if_splits)

function valid_utf8 :: "string \<Rightarrow> bool" where
  "valid_utf8 s =
     (if s = [] then True
      else case utf8_step s of Inl n \<Rightarrow> False | Inr n \<Rightarrow> valid_utf8 (drop n s))"
  by pat_completeness auto
termination
proof (relation "measure length", goal_cases)
  case (2 s n)
  then have "0 < n" "0 < length s" using utf8_step_pos by auto
  then show ?case by (simp del: length_greater_0_conv)
qed simp

function from_utf8_lossy :: "string \<Rightarrow> string" where
  "from_utf8_lossy s =
     (if s = [] then []
      else case utf8_step s of
        Inl n \<Rightarrow> replacement_char @ from_utf8_lossy (drop n s)
      | Inr n \<Rightarrow> take n s @ from_utf8_lossy (drop n s))"
  by pat_completeness auto
termination
proof (relation "measure length", goal_cases)
  case (2 s n)
  then have "0 < n" "0 < length s" using utf8_step_pos by auto
  then show ?case by (simp del: length_greater_0_conv)
next
  case (3 s n)
  then have "0 < n" "0 < length s" using utf8_step_pos by auto
  then show ?case by (simp del: length_greater_0_conv)
qed simp

declare valid_utf8.simps [simp del] from_utf8_lossy.simps [simp del]

section \<open>Facts about the splitters\<close>

lemma split_once_Some [str_iff]:
  "split_once c s = Some (a, b) \<longleftrightarrow> s = a @ c # b \<and> c \<notin> set a"
proof (induction s arbitrary: a)
  case Nil
  show ?case by simp
next
  case (Cons x xs)
  show ?case
  proof (cases a)
    case Nil
    then show ?thesis by (auto split: option.split)
  next
    case (Cons y ys)
    have "split_once c (x # xs) = Some (a, b) \<longleftrightarrow>
        x \<noteq> c \<and> x = y \<and> split_once c xs = Some (ys, b)"
      unfolding Cons by (auto split: option.split)
    then show ?thesis unfolding Cons by (auto simp: Cons.IH)
  qed
qed

lemma split_once_None [str_iff]: "split_once c s = None \<longleftrightarrow> c \<notin> set s"
  by (induction s) (auto split: option.splits)

lemma split_once_or_iff:
  "split_once_or c s = (a, b) \<longleftrightarrow> c \<notin> set a \<and> (s = a @ c # b \<or> s = a \<and> b = [])"
proof (cases "split_once c s")
  case None
  then have "c \<notin> set s" by (simp add: split_once_None)
  with None show ?thesis by (auto simp: split_once_or_def)
next
  case (Some ab)
  obtain a' b' where ab: "ab = (a', b')" by (cases ab)
  with Some have s: "s = a' @ c # b'" "c \<notin> set a'" by (auto simp: split_once_Some)
  have "split_once_or c s = (a, b) \<longleftrightarrow> split_once c s = Some (a, b)"
    by (simp add: split_once_or_def Some)
  with s show ?thesis by (auto simp: split_once_Some)
qed

lemma split_once_append [simp]:
  "c \<notin> set a \<Longrightarrow> split_once c (a @ c # b) = Some (a, b)"
  by (simp add: split_once_Some)

lemma split_once_Some_cases:
  "c \<in> set s \<Longrightarrow> \<exists>a b. split_once c s = Some (a, b)"
  by (metis not_None_eq split_once_None surj_pair)

lemma split_on_nonempty [simp]: "split_on c s \<noteq> []"
  by (induction s) (auto split: list.splits)

lemma split_on_hd: "hd (split_on c s) = before_first c s"
  by (induction s) (auto simp: before_first_def split: list.splits)

lemma split_on_no_sep: "p \<in> set (split_on c s) \<Longrightarrow> c \<notin> set p"
  by (induction s arbitrary: p) (auto split: list.splits if_splits)

lemma join_Cons: "xs \<noteq> [] \<Longrightarrow> join sep (x # xs) = x @ sep @ join sep xs"
  by (cases xs) auto

lemma join_split_on: "join [c] (split_on c s) = s"
proof (induction s)
  case Nil
  then show ?case by simp
next
  case (Cons x xs)
  obtain y ys where "split_on c xs = y # ys"
    using split_on_nonempty by (metis neq_Nil_conv)
  with Cons show ?case by (cases ys) auto
qed

lemma split_on_single: "c \<notin> set s \<Longrightarrow> split_on c s = [s]"
  by (induction s) auto

lemma split_on_append:
  "c \<notin> set a \<Longrightarrow> split_on c (a @ c # s) = a # split_on c s"
  by (induction a) auto

lemma split_on_join:
  "\<lbrakk> xs \<noteq> []; \<forall>x\<in>set xs. c \<notin> set x \<rbrakk> \<Longrightarrow> split_on c (join [c] xs) = xs"
proof (induction xs)
  case Nil
  then show ?case by simp
next
  case (Cons x xs)
  then show ?case
    by (cases "xs = []") (auto simp: join_Cons split_on_append split_on_single)
qed

lemma strip_prefix_Some [str_iff]: "strip_prefix p s = Some r \<longleftrightarrow> s = p @ r"
  by (auto simp: strip_prefix_def prefix_def)

lemma strip_prefix_None [str_iff]: "strip_prefix p s = None \<longleftrightarrow> \<not> prefix p s"
  by (auto simp: strip_prefix_def)

lemma split_once_str_Some:
  "split_once_str p s = Some (a, b) \<Longrightarrow> s = a @ p @ b"
proof (induction s arbitrary: a)
  case Nil
  then show ?case by (simp split: if_splits)
next
  case (Cons x xs)
  then show ?case
    by (auto simp: prefix_drop_eq split: if_splits option.splits)
qed

lemma contains_str_append: "contains_str p (a @ p @ b)"
proof -
  have "split_once_str p (a @ p @ b) \<noteq> None"
  proof (induction a)
    case Nil
    have "prefix p (p @ b)" by simp
    then show ?case by (cases "p @ b") auto
  next
    case (Cons x a)
    then show ?case by (auto split: option.splits)
  qed
  then show ?thesis by (simp add: contains_str_def)
qed

lemma contains_str_iff: "contains_str p s \<longleftrightarrow> (\<exists>a b. s = a @ p @ b)"
proof
  assume "contains_str p s"
  then obtain a b where "split_once_str p s = Some (a, b)"
    by (auto simp: contains_str_def)
  then have "s = a @ p @ b" by (rule split_once_str_Some)
  then show "\<exists>a b. s = a @ p @ b" by blast
next
  assume "\<exists>a b. s = a @ p @ b"
  then show "contains_str p s" using contains_str_append by blast
qed

lemma cut_at_append: "cut_at c s = (a, b) \<Longrightarrow> s = a @ b \<and> c \<notin> set a \<and> (b = [] \<or> hd b = c)"
proof -
  assume "cut_at c s = (a, b)"
  then have a: "a = takeWhile (\<lambda>x. x \<noteq> c) s" and b: "b = dropWhile (\<lambda>x. x \<noteq> c) s"
    by (auto simp: cut_at_def)
  have "c \<notin> set a" unfolding a by (auto dest: set_takeWhileD)
  moreover have "b = [] \<or> hd b = c" unfolding b
    using hd_dropWhile [of "\<lambda>x. x \<noteq> c" s] by auto
  ultimately show ?thesis using a b by simp
qed

lemma before_first_no_sep: "c \<notin> set (before_first c s)"
  by (auto simp: before_first_def dest: set_takeWhileD)

lemma after_last_no_sep: "c \<notin> set (after_last c s)"
  by (auto simp: after_last_def dest: set_takeWhileD)

lemma set_before_first: "set (before_first c s) \<subseteq> set s"
  by (auto simp: before_first_def dest: set_takeWhileD)

lemma set_after_last: "set (after_last c s) \<subseteq> set s"
  by (auto simp: after_last_def dest: set_takeWhileD)

lemma after_last_id: "c \<notin> set s \<Longrightarrow> after_last c s = s"
  by (auto simp: after_last_def rev_swap takeWhile_eq_all_conv)

section \<open>Facts about case\<close>

lemma byte_eq_iff: "byte c = byte d \<longleftrightarrow> c = d"
  by (metis char_of_char)

lemma char_of_numeral_eq [simp]:
  "char_of (numeral k :: nat) = c \<longleftrightarrow> numeral k mod 256 = byte c"
  by (simp add: char_of_eq_iff take_bit_eq_mod)

lemma byte_char_of: "n < 256 \<Longrightarrow> byte (char_of n) = n"
  by simp

lemma byte_less_256 [simp]: "byte c < 256"
  by (cases c) (simp add: of_char_def)

lemma ascii_lower_idem [simp]: "ascii_lower (ascii_lower c) = ascii_lower c"
  by (auto simp: ascii_lower_def)

text \<open>\<open>ascii_lower\<close> on the bits of a character, for evaluation.\<close>

lemma ascii_lower_code [code]:
  "ascii_lower (Char b0 b1 b2 b3 b4 b5 b6 b7) =
     (if \<not> b7 \<and> b6 \<and> \<not> b5 \<and> (b0 \<or> b1 \<or> b2 \<or> b3 \<or> b4) \<and> \<not> (b4 \<and> b3 \<and> (b2 \<or> b1 \<and> b0))
      then Char b0 b1 b2 b3 b4 True b6 b7 else Char b0 b1 b2 b3 b4 b5 b6 b7)"
  by (cases b0; cases b1; cases b2; cases b3; cases b4; cases b5; cases b6; cases b7; simp add: ascii_lower_def)

lemma to_ascii_lowercase_idem [simp]:
  "to_ascii_lowercase (to_ascii_lowercase s) = to_ascii_lowercase s"
  by (simp add: to_ascii_lowercase_def)

lemma to_ascii_lowercase_append [simp]:
  "to_ascii_lowercase (a @ b) = to_ascii_lowercase a @ to_ascii_lowercase b"
  by (simp add: to_ascii_lowercase_def)

lemma to_ascii_lowercase_Nil [simp]: "to_ascii_lowercase s = [] \<longleftrightarrow> s = []"
  by (simp add: to_ascii_lowercase_def)

section \<open>Facts about trimming\<close>

lemma strip_any_suffix: "suffix (strip_any ws s) s"
proof (induction ws s rule: strip_any.induct)
  case (1 ws s)
  show ?case
  proof (cases "find (\<lambda>w. w \<noteq> [] \<and> prefix w s) ws")
    case None
    then show ?thesis by (simp add: strip_any.simps [of ws s])
  next
    case (Some w)
    with 1 have "suffix (strip_any ws (drop (length w) s)) (drop (length w) s)"
      by simp
    with Some show ?thesis
      by (simp add: strip_any.simps [of ws s])
        (meson suffix_drop suffix_order.trans)
  qed
qed

lemma strip_any_stop:
  "w \<in> set ws \<Longrightarrow> w \<noteq> [] \<Longrightarrow> \<not> prefix w (strip_any ws s)"
proof (induction ws s rule: strip_any.induct)
  case (1 ws s)
  show ?case
  proof (cases "find (\<lambda>w. w \<noteq> [] \<and> prefix w s) ws")
    case None
    then have "strip_any ws s = s" by (simp add: strip_any.simps [of ws s])
    with None 1 show ?thesis by (auto simp: find_None_iff)
  next
    case (Some v)
    with 1 show ?thesis by (simp add: strip_any.simps [of ws s])
  qed
qed

lemma strip_any_id:
  "\<forall>w\<in>set ws. w \<noteq> [] \<longrightarrow> \<not> prefix w s \<Longrightarrow> strip_any ws s = s"
  by (subst strip_any.simps) (auto split: option.split dest: find_Some_set)

lemma set_trim: "set (trim s) \<subseteq> set s"
proof -
  have sub: "set (strip_any ws t) \<subseteq> set t" for ws t
    by (rule set_mono_suffix [OF strip_any_suffix])
  show ?thesis
    using sub [of "map rev white_space" "rev (strip_any white_space s)"]
      sub [of white_space s]
    by (auto simp: trim_def trim_end_def trim_start_def)
qed

lemma trim_Nil [simp]: "trim [] = []"
  using set_trim [of "[]"] by auto

lemma white_space_ne: "[] \<notin> set white_space"
  by (simp add: white_space_def)

text \<open>A trimmed string neither starts nor ends with a white-space character.\<close>

lemma trim_end_no_ws: "w \<in> set white_space \<Longrightarrow> \<not> suffix w (trim_end s)"
proof
  assume w: "w \<in> set white_space" and "suffix w (trim_end s)"
  then have "prefix (rev w) (strip_any (map rev white_space) (rev s))"
    by (simp add: trim_end_def suffix_to_prefix)
  moreover have "\<not> prefix (rev w) (strip_any (map rev white_space) (rev s))"
    using w white_space_ne by (intro strip_any_stop) auto
  ultimately show False by simp
qed

lemma trim_end_prefix: "prefix (trim_end s) s"
  using strip_any_suffix [of "map rev white_space" "rev s"]
  by (simp add: trim_end_def suffix_to_prefix)

lemma trim_start_no_ws: "w \<in> set white_space \<Longrightarrow> \<not> prefix w (trim_start s)"
  using white_space_ne unfolding trim_start_def by (intro strip_any_stop) auto

lemma trim_no_ws:
  assumes "w \<in> set white_space"
  shows "\<not> prefix w (trim s)" "\<not> suffix w (trim s)"
proof -
  have "prefix (trim s) (trim_start s)"
    by (simp add: trim_def trim_end_prefix)
  with trim_start_no_ws [OF assms, of s] show "\<not> prefix w (trim s)"
    by (metis prefix_order.trans)
  show "\<not> suffix w (trim s)"
    by (simp add: trim_def trim_end_no_ws assms)
qed

lemma trim_id:
  assumes "\<forall>w\<in>set white_space. \<not> prefix w s" "\<forall>w\<in>set white_space. \<not> suffix w s"
  shows "trim s = s"
proof -
  have "trim_start s = s" using assms(1) by (simp add: trim_start_def strip_any_id)
  moreover have "trim_end s = s"
  proof -
    have "strip_any (map rev white_space) (rev s) = rev s"
      using assms(2) by (intro strip_any_id) (auto simp: suffix_to_prefix)
    then show ?thesis by (simp add: trim_end_def)
  qed
  ultimately show ?thesis by (simp add: trim_def)
qed

lemma trim_idem [simp]: "trim (trim s) = trim s"
  by (intro trim_id) (auto dest: trim_no_ws)

section \<open>Facts about UTF-8\<close>

lemma utf8_step_Inr_iff:
  "utf8_step s = Inr n \<longleftrightarrow>
     (n = 1 \<and> utf8_at s 0 < 0x80
      \<or> n = 2 \<and> 0xC2 \<le> utf8_at s 0 \<and> utf8_at s 0 \<le> 0xDF \<and> is_cont (utf8_at s 1)
      \<or> n = 3 \<and> 0xE0 \<le> utf8_at s 0 \<and> utf8_at s 0 \<le> 0xEF
          \<and> utf8_second_ok (utf8_at s 0) (utf8_at s 1) \<and> is_cont (utf8_at s 2)
      \<or> n = 4 \<and> 0xF0 \<le> utf8_at s 0 \<and> utf8_at s 0 \<le> 0xF4
          \<and> utf8_second_ok (utf8_at s 0) (utf8_at s 1) \<and> is_cont (utf8_at s 2)
          \<and> is_cont (utf8_at s 3))"
  by (auto simp: utf8_step_def Let_def)

lemma utf8_step_append:
  assumes "utf8_step s = Inr n" "s \<noteq> []"
  shows "n \<le> length s \<and> utf8_step (s @ t) = Inr n"
proof -
  have at: "utf8_at (s @ t) i = utf8_at s i" if "i < length s" for i
    using that by (simp add: utf8_at_def nth_append)
  have cont: "i < length s" if "is_cont (utf8_at s i)" for i
    using that by (auto simp: utf8_at_def is_cont_def split: if_splits)
  have second: "1 < length s" if "utf8_second_ok x (utf8_at s 1)" for x
    using that by (auto simp: utf8_at_def is_cont_def utf8_second_ok_def split: if_splits)
  from \<open>s \<noteq> []\<close> have "1 \<le> length s" by (cases s) auto
  with assms(1) show ?thesis
    using cont [of 1] cont [of 2] cont [of 3] second [of "utf8_at s 0"] at [of 0] at [of 1]
      at [of 2] at [of 3]
      \<open>s \<noteq> []\<close>
    unfolding utf8_step_Inr_iff by (elim disjE) auto
qed

lemma valid_utf8_Nil [simp]: "valid_utf8 []"
  by (simp add: valid_utf8.simps)

lemma valid_utf8_append:
  "valid_utf8 s \<Longrightarrow> valid_utf8 t \<Longrightarrow> valid_utf8 (s @ t)"
proof (induction s rule: valid_utf8.induct)
  case (1 s)
  show ?case
  proof (cases "s = []")
    case True
    with 1 show ?thesis by simp
  next
    case False
    with 1 obtain n where n: "utf8_step s = Inr n" and v: "valid_utf8 (drop n s)"
      by (subst (asm) (2) valid_utf8.simps) (auto split: sum.splits)
    from utf8_step_append [OF n False]
    have "n \<le> length s" and "utf8_step (s @ t) = Inr n" by auto
    with False 1 n v show ?thesis
      by (subst valid_utf8.simps) simp
  qed
qed

lemma from_utf8_lossy_valid: "valid_utf8 s \<Longrightarrow> from_utf8_lossy s = s"
proof (induction s rule: valid_utf8.induct)
  case (1 s)
  show ?case
  proof (cases "s = []")
    case True
    then show ?thesis by (simp add: from_utf8_lossy.simps)
  next
    case False
    with 1 obtain n where n: "utf8_step s = Inr n" and v: "valid_utf8 (drop n s)"
      by (subst (asm) (2) valid_utf8.simps) (auto split: sum.splits)
    with False 1 show ?thesis by (subst from_utf8_lossy.simps) simp
  qed
qed

lemma valid_utf8_ascii: "byte c < 128 \<Longrightarrow> valid_utf8 (c # s) \<longleftrightarrow> valid_utf8 s"
proof -
  assume "byte c < 128"
  then have "utf8_step (c # s) = Inr 1" by (simp add: utf8_step_def utf8_at_def)
  then show ?thesis by (subst valid_utf8.simps) simp
qed

lemma valid_utf8_all_ascii: "\<forall>c\<in>set s. byte c < 128 \<Longrightarrow> valid_utf8 s"
  by (induction s) (auto simp: valid_utf8_ascii)

lemma utf8_step_take:
  assumes "utf8_step s = Inr n" "s \<noteq> []"
  shows "utf8_step (take n s) = Inr n"
proof -
  have "n \<le> length s" using utf8_step_append [OF assms, of "[]"] by simp
  then have at: "utf8_at (take n s) i = (if i < n then utf8_at s i else 0)" for i
    by (simp add: utf8_at_def)
  with assms(1) show ?thesis
    unfolding utf8_step_Inr_iff by (elim disjE) (simp_all add: at)
qed

lemma valid_utf8_lossy: "valid_utf8 (from_utf8_lossy s)"
proof (induction s rule: from_utf8_lossy.induct)
  case (1 s)
  have rep: "valid_utf8 replacement_char"
    by (simp add: replacement_char_def valid_utf8.simps utf8_step_def utf8_at_def
        utf8_second_ok_def is_cont_def)
  have take: "valid_utf8 (take n s)" if "utf8_step s = Inr n" "s \<noteq> []" for n
    using utf8_step_take [OF that] utf8_step_append [OF that, of "[]"]
    by (subst valid_utf8.simps) simp
  show ?case
  proof (cases "s = []")
    case True
    then show ?thesis by (simp add: from_utf8_lossy.simps)
  next
    case False
    show ?thesis
    proof (cases "utf8_step s")
      case (Inl n)
      with False 1 rep show ?thesis
        by (subst from_utf8_lossy.simps) (simp add: valid_utf8_append)
    next
      case (Inr n)
      with False 1 take show ?thesis
        by (subst from_utf8_lossy.simps) (simp add: valid_utf8_append)
    qed
  qed
qed

lemma utf8_step_cont:
  assumes "utf8_step s = Inr n" "0 < i" "i < n"
  shows "128 \<le> utf8_at s i"
proof -
  have "i = 1 \<or> i = 2 \<or> i = 3"
    using assms unfolding utf8_step_Inr_iff by (elim disjE) auto
  with assms show ?thesis
    unfolding utf8_step_Inr_iff by (auto simp: is_cont_def utf8_second_ok_def)
qed

text \<open>Cutting a well-formed string at an ASCII character leaves well-formed parts.\<close>

lemma valid_utf8_cut:
  assumes c: "byte c < 128"
  shows "valid_utf8 (a @ c # b) \<longleftrightarrow> valid_utf8 a \<and> valid_utf8 b"
proof
  assume "valid_utf8 (a @ c # b)"
  then show "valid_utf8 a \<and> valid_utf8 b"
  proof (induction a rule: valid_utf8.induct)
    case (1 a)
    show ?case
    proof (cases "a = []")
      case True
      with 1 c show ?thesis by (simp add: valid_utf8_ascii)
    next
      case False
      let ?s = "a @ c # b"
      from 1 obtain n where n: "utf8_step ?s = Inr n" and v: "valid_utf8 (drop n ?s)"
        by (subst (asm) (2) valid_utf8.simps) (auto split: sum.splits)
      have le: "n \<le> length a"
      proof (rule ccontr)
        assume "\<not> n \<le> length a"
        then have "128 \<le> utf8_at ?s (length a)"
          using False by (intro utf8_step_cont [OF n]) auto
        with c show False by (simp add: utf8_at_def)
      qed
      then have "take n ?s = take n a" by simp
      with n have t: "utf8_step (take n a) = Inr n"
        using utf8_step_take [OF n] by simp
      have "take n a \<noteq> []" using False utf8_step_pos [of ?s n] n by simp
      from utf8_step_append [OF t this, of "drop n a"] have "utf8_step a = Inr n" by simp
      moreover have "valid_utf8 (drop n a) \<and> valid_utf8 b"
        using 1 False v le \<open>utf8_step a = Inr n\<close> by simp
      ultimately show ?thesis using False by (subst valid_utf8.simps) simp
    qed
  qed
next
  assume "valid_utf8 a \<and> valid_utf8 b"
  then show "valid_utf8 (a @ c # b)"
    using c by (simp add: valid_utf8_append valid_utf8_ascii)
qed

lemma valid_utf8_split_once:
  assumes "byte c < 128" "valid_utf8 s" "split_once c s = Some (a, b)"
  shows "valid_utf8 a" "valid_utf8 b"
  using assms valid_utf8_cut [of c a b] by (auto simp: split_once_Some)

lemma valid_utf8_split_once_or:
  assumes "byte c < 128" "valid_utf8 s" "split_once_or c s = (a, b)"
  shows "valid_utf8 a" "valid_utf8 b"
  using assms valid_utf8_cut [of c a b] by (auto simp: split_once_or_iff)

lemma valid_utf8_split_on:
  assumes "byte c < 128" "valid_utf8 s" "p \<in> set (split_on c s)"
  shows "valid_utf8 p"
  using assms(2,3)
proof (induction s rule: length_induct)
  case (1 s)
  show ?case
  proof (cases "split_once c s")
    case None
    with 1 show ?thesis by (simp add: split_once_None split_on_single)
  next
    case (Some ab)
    then obtain a b where ab: "s = a @ c # b" "c \<notin> set a"
      by (cases ab) (auto simp: split_once_Some)
    with 1 assms(1) have "valid_utf8 a" "valid_utf8 b" "length b < length s"
      by (auto simp: valid_utf8_cut)
    moreover have "p = a \<or> p \<in> set (split_on c b)"
      using 1 ab by (simp add: split_on_append)
    ultimately show ?thesis using 1(1) by blast
  qed
qed

lemma join_concat: "join sep (x # xs) = x @ concat (map ((@) sep) xs)"
  by (induction xs arbitrary: x) auto

section \<open>Decimal numbers\<close>

lemma show_nat_step:
  "10 \<le> n \<Longrightarrow> show_nat n = show_nat (n div 10) @ [char_of (48 + n mod 10)]"
  by (subst show_nat.simps) simp

lemma show_nat_digit: "n < 10 \<Longrightarrow> show_nat n = [char_of (48 + n)]"
  by (subst show_nat.simps) simp

lemma show_nat_ne: "show_nat n \<noteq> []"
  by (subst show_nat.simps) simp

lemma show_nat_len: "n < 1000 \<Longrightarrow> length (show_nat n) \<le> 3"
proof -
  assume n: "n < 1000"
  consider "n < 10" | "10 \<le> n" "n div 10 < 10" | "10 \<le> n" "10 \<le> n div 10" by linarith
  then show ?thesis
  proof cases
    case 3
    then have "n div 10 div 10 < 10" using n by simp
    with 3 show ?thesis by (simp add: show_nat_step show_nat_digit)
  qed (simp_all add: show_nat_step show_nat_digit)
qed

lemma show_nat_zero: "hd (show_nat n) = CHR ''0'' \<Longrightarrow> n = 0"
proof (induction n rule: show_nat.induct)
  case (1 n)
  show ?case
  proof (cases "n < 10")
    case True
    then have "char_of (48 + n) = CHR ''0''" using 1(2) by (simp add: show_nat_digit)
    then have "byte (char_of (48 + n)) = 48" by simp
    with True show ?thesis by simp
  next
    case False
    then have "hd (show_nat n) = hd (show_nat (n div 10))"
      by (subst show_nat_step) (simp_all add: hd_append show_nat_ne)
    with 1(2) have "hd (show_nat (n div 10)) = CHR ''0''" by simp
    from 1(1) [OF False this] False show ?thesis by linarith
  qed
qed

lemma show_nat_all_digits: "c \<in> set (show_nat n) \<Longrightarrow> is_ascii_digit c"
proof (induction n rule: show_nat.induct)
  case (1 n)
  then show ?case
    by (subst (asm) (2) show_nat.simps)
      (auto simp: is_ascii_digit_def byte_char_of split: if_splits)
qed

end
