(* ===== verification/Util_Query.thy ===== *)
theory Util_Query
  imports Rust_Str "HOL-Library.List_Lexorder" "HOL-Library.Char_ord" "HOL-Library.Multiset"
begin

text \<open>
  The escaping and query helpers of \<^verbatim>\<open>src/src/util.rs\<close>: percent decoding, query
  parsing, the two escapers, and the redaction of sensitive query values for logs.
  The escapers are instances of one interface, a byte-wise code that the decoder
  inverts, stated as the locale \<open>byte_code\<close>.
\<close>

section \<open>Definitions\<close>

definition HEX :: string where
  "HEX = ''0123456789ABCDEF''"

definition unhex :: "char \<Rightarrow> nat option" where
  "unhex c =
     (if 48 \<le> byte c \<and> byte c \<le> 57 then Some (byte c - 48)
      else if 97 \<le> byte c \<and> byte c \<le> 102 then Some (byte c - 97 + 10)
      else if 65 \<le> byte c \<and> byte c \<le> 70 then Some (byte c - 65 + 10)
      else None)"

text \<open>The decoding loop: \<open>None\<close> for a malformed or truncated escape.\<close>

fun percent_loop :: "bool \<Rightarrow> string \<Rightarrow> bytes option" where
  "percent_loop spaced [] = Some []"
| "percent_loop spaced (c # cs) =
     (if c = CHR ''%'' then
        (case cs of
           h # l # rest \<Rightarrow>
             (case unhex h of None \<Rightarrow> None
              | Some hi \<Rightarrow>
                (case unhex l of None \<Rightarrow> None
                 | Some lo \<Rightarrow> map_option (Cons (char_of (16 * hi + lo))) (percent_loop spaced rest)))
         | _ \<Rightarrow> None)
      else if c = CHR ''+'' \<and> spaced then map_option (Cons (CHR '' '')) (percent_loop spaced cs)
      else map_option (Cons c) (percent_loop spaced cs))"

definition percent_decode :: "string \<Rightarrow> bool \<Rightarrow> string option" where
  "percent_decode s plus_as_space =
     (if \<not> (CHR ''%'' \<in> set s \<or> plus_as_space \<and> CHR ''+'' \<in> set s) then Some s
      else map_option from_utf8_lossy (percent_loop plus_as_space s))"

fun parse_parts :: "string list \<Rightarrow> (string \<times> string) list \<times> bool" where
  "parse_parts [] = ([], False)"
| "parse_parts (part # parts) =
     (let (pairs, malformed) = parse_parts parts in
      if part = [] then (pairs, malformed)
      else if CHR '';'' \<in> set part then (pairs, True)
      else
        (let (key, value) = split_once_or (CHR ''='') part in
         case (percent_decode key True, percent_decode value True) of
           (Some key, Some value) \<Rightarrow> ((key, value) # pairs, malformed)
         | _ \<Rightarrow> (pairs, True)))"

definition parse_query :: "string \<Rightarrow> (string \<times> string) list \<times> bool" where
  "parse_query raw = parse_parts (split_on (CHR ''&'') raw)"

definition percent_byte :: "char \<Rightarrow> string" where
  "percent_byte b = [CHR ''%'', HEX ! (byte b div 16), HEX ! (byte b mod 16)]"

definition query_escape_byte :: "char \<Rightarrow> string" where
  "query_escape_byte b =
     (if is_ascii_alnum b \<or> b \<in> set ''-_.~'' then [b]
      else if b = CHR '' '' then ''+''
      else percent_byte b)"

definition query_escape :: "string \<Rightarrow> string" where
  "query_escape s = concat (map query_escape_byte s)"

definition escape_path_byte :: "char \<Rightarrow> string" where
  "escape_path_byte b =
     (if is_ascii_alnum b \<or> b \<in> set ''-_.~$&+,/:;=@'' then [b] else percent_byte b)"

definition escape_path :: "string \<Rightarrow> string" where
  "escape_path s = concat (map escape_path_byte s)"

definition SENSITIVE_QUERY_KEYS :: "string list" where
  "SENSITIVE_QUERY_KEYS =
     [''api_key'', ''apikey'', ''access_token'', ''token'', ''auth'', ''password'']"

definition sensitive_key :: "string \<Rightarrow> bool" where
  "sensitive_key key \<longleftrightarrow> to_ascii_lowercase key \<in> set SENSITIVE_QUERY_KEYS"

text \<open>The \<^verbatim>\<open>retain_mut\<close> pass, with the sensitive keys seen so far.\<close>

fun redact :: "string list \<Rightarrow> (string \<times> string) list \<Rightarrow> (string \<times> string) list" where
  "redact seen [] = []"
| "redact seen ((key, value) # pairs) =
     (if sensitive_key key then
        (if key \<in> set seen then redact seen pairs
         else (key, ''redacted'') # redact (seen @ [key]) pairs)
      else (key, value) # redact seen pairs)"

text \<open>The output loop: pairs are separated by \<open>&\<close> once the buffer is not empty.\<close>

fun write_pairs :: "string \<Rightarrow> (string \<times> string) list \<Rightarrow> string" where
  "write_pairs out [] = out"
| "write_pairs out ((key, value) # pairs) =
     write_pairs ((if out = [] then out else out @ ''&'')
                  @ query_escape key @ ''='' @ query_escape value) pairs"

definition sanitize_raw_query :: "string \<Rightarrow> string" where
  "sanitize_raw_query raw =
     (if raw = [] then []
      else let (pairs, malformed) = parse_query raw in
        if malformed then raw
        else write_pairs [] (sort_key fst (redact [] pairs)))"

definition sanitize_request_uri :: "string \<Rightarrow> string option \<Rightarrow> string" where
  "sanitize_request_uri path query =
     (let path = (if path = [] then ''/'' else path) in
      case map_option sanitize_raw_query query of
        Some q \<Rightarrow> if q \<noteq> [] then path @ ''?'' @ q else path
      | None \<Rightarrow> path)"

definition sanitize_url_string :: "string \<Rightarrow> string" where
  "sanitize_url_string raw =
     (let (without_fragment, fragment) =
            (case split_once (CHR ''#'') raw of
               Some (a, f) \<Rightarrow> (a, Some f) | None \<Rightarrow> (raw, None));
          out = (case split_once (CHR ''?'') without_fragment of
                   Some (base, query) \<Rightarrow>
                     (let query = sanitize_raw_query query in
                      if query = [] then base else base @ ''?'' @ query)
                 | None \<Rightarrow> without_fragment) in
      case fragment of Some f \<Rightarrow> out @ ''#'' @ f | None \<Rightarrow> out)"

section \<open>Byte-wise codes and their decoder\<close>

text \<open>
  The contract between an escaper and \<open>percent_loop\<close>: each byte is written as a block
  that the loop reads back as that byte, whatever follows.
\<close>

locale byte_code =
  fixes enc :: "char \<Rightarrow> string"
    and dec :: "string \<Rightarrow> bytes option"
  assumes dec_Nil: "dec [] = Some []"
    and dec_block: "dec (enc b @ rest) = map_option (Cons b) (dec rest)"
begin

lemma decode_encode: "dec (concat (map enc s)) = Some s"
  by (induction s) (simp_all add: dec_Nil dec_block)

lemma encode_inj: "concat (map enc s) = concat (map enc t) \<Longrightarrow> s = t"
  using decode_encode by (metis option.inject)

lemma decode_encode_append:
  "dec (concat (map enc s) @ rest) = map_option ((@) s) (dec rest)"
  by (induction s) (auto simp: dec_block option.map_comp comp_def option.map_ident)

end

lemma HEX_unhex:
  "\<forall>n<16. unhex (HEX ! n) = Some n \<and> byte (HEX ! n) < 128 \<and> is_ascii_alnum (HEX ! n)"
  by (simp add: HEX_def unhex_def is_ascii_alnum_def is_ascii_digit_def All_less_Suc eval_nat_numeral)

lemma byte_nibbles: "byte b div 16 < 16" "byte b mod 16 < 16"
  "16 * (byte b div 16) + byte b mod 16 = byte b"
proof -
  have "byte b < 16 * 16" using byte_less_256 [of b] by simp
  then show "byte b div 16 < 16" by (rule less_mult_imp_div_less)
qed auto

lemma percent_loop_block:
  "percent_loop spaced (percent_byte b @ rest) = map_option (Cons b) (percent_loop spaced rest)"
  using HEX_unhex byte_nibbles [of b] by (simp add: percent_byte_def)

lemma percent_loop_plain:
  "c \<noteq> CHR ''%'' \<Longrightarrow> c \<noteq> CHR ''+'' \<or> \<not> spaced \<Longrightarrow>
   percent_loop spaced (c # rest) = map_option (Cons c) (percent_loop spaced rest)"
  by auto

lemma alnum_not_special:
  "is_ascii_alnum b \<Longrightarrow> b \<notin> set ''%+&=;?# /''"
  by (auto simp: is_ascii_alnum_def is_ascii_digit_def)

interpretation query_code: byte_code query_escape_byte "percent_loop True"
proof
  fix b rest
  show "percent_loop True (query_escape_byte b @ rest) =
        map_option (Cons b) (percent_loop True rest)"
    using alnum_not_special [of b]
    by (auto simp: query_escape_byte_def percent_loop_block)
qed simp

interpretation path_code: byte_code escape_path_byte "percent_loop False"
proof
  fix b rest
  show "percent_loop False (escape_path_byte b @ rest) =
        map_option (Cons b) (percent_loop False rest)"
    using alnum_not_special [of b]
    by (auto simp: escape_path_byte_def percent_loop_block)
qed simp

section \<open>Percent decoding\<close>

lemma percent_loop_id:
  "CHR ''%'' \<notin> set s \<Longrightarrow> \<not> (spaced \<and> CHR ''+'' \<in> set s) \<Longrightarrow> percent_loop spaced s = Some s"
  by (induction s) auto

text \<open>The early exit only saves the copy: on a string, decoding is always the loop.\<close>

lemma percent_decode_loop:
  assumes "valid_utf8 s"
  shows "percent_decode s spaced = map_option from_utf8_lossy (percent_loop spaced s)"
  using assms percent_loop_id [of s spaced]
  by (auto simp: percent_decode_def from_utf8_lossy_valid)

lemma percent_byte_ascii: "c \<in> set (percent_byte b) \<Longrightarrow> byte c < 128"
  using HEX_unhex byte_nibbles [of b] by (auto simp: percent_byte_def)

lemma alnum_ascii: "is_ascii_alnum b \<Longrightarrow> byte b < 128"
  by (auto simp: is_ascii_alnum_def is_ascii_digit_def)

lemma query_escape_ascii: "\<forall>c\<in>set (query_escape s). byte c < 128"
  using percent_byte_ascii alnum_ascii
  by (auto simp: query_escape_def query_escape_byte_def split: if_splits)

lemma escape_path_ascii: "\<forall>c\<in>set (escape_path s). byte c < 128"
  using percent_byte_ascii alnum_ascii
  by (auto simp: escape_path_def escape_path_byte_def split: if_splits)

lemma decode_query_escape:
  "valid_utf8 s \<Longrightarrow> percent_decode (query_escape s) True = Some s"
  by (simp add: percent_decode_loop valid_utf8_all_ascii query_escape_ascii
      from_utf8_lossy_valid) (simp add: query_escape_def query_code.decode_encode from_utf8_lossy_valid)

lemma decode_escape_path:
  "valid_utf8 s \<Longrightarrow> percent_decode (escape_path s) False = Some s"
  by (simp add: percent_decode_loop valid_utf8_all_ascii escape_path_ascii)
    (simp add: escape_path_def path_code.decode_encode from_utf8_lossy_valid)

lemma percent_decode_valid:
  "valid_utf8 s \<Longrightarrow> percent_decode s spaced = Some t \<Longrightarrow> valid_utf8 t"
  by (auto simp: percent_decode_loop valid_utf8_lossy)

section \<open>Query strings written and read back\<close>

definition write_pair :: "string \<times> string \<Rightarrow> string" where
  "write_pair p = query_escape (fst p) @ ''='' @ query_escape (snd p)"

lemma write_pairs_append:
  "out \<noteq> [] \<Longrightarrow> write_pairs out ps = out @ concat (map (\<lambda>p. ''&'' @ write_pair p) ps)"
  by (induction out ps rule: write_pairs.induct) (auto simp: write_pair_def)

lemma write_pairs_join: "write_pairs [] ps = join ''&'' (map write_pair ps)"
proof (cases ps)
  case Nil
  then show ?thesis by simp
next
  case (Cons p qs)
  have "write_pairs [] ps = write_pairs (write_pair p) qs"
    by (cases p) (simp add: Cons write_pair_def)
  also have "\<dots> = write_pair p @ concat (map (\<lambda>p. ''&'' @ write_pair p) qs)"
    by (rule write_pairs_append) (simp add: write_pair_def)
  finally show ?thesis by (simp add: Cons join_concat comp_def)
qed

lemma percent_byte_special: "c \<in> set (percent_byte b) \<Longrightarrow> c = CHR ''%'' \<or> is_ascii_alnum c"
  using HEX_unhex byte_nibbles [of b] by (auto simp: percent_byte_def)

lemma query_escape_chars:
  "c \<in> set (query_escape s) \<Longrightarrow> is_ascii_alnum c \<or> c \<in> set ''-_.~+%''"
  by (auto simp: query_escape_def query_escape_byte_def split: if_splits
      dest!: percent_byte_special)

lemma query_escape_no_sep:
  "CHR ''&'' \<notin> set (query_escape s)" "CHR ''='' \<notin> set (query_escape s)"
  "CHR '';'' \<notin> set (query_escape s)" "CHR ''#'' \<notin> set (query_escape s)"
  using query_escape_chars alnum_not_special by fastforce+

definition valid_pairs :: "(string \<times> string) list \<Rightarrow> bool" where
  "valid_pairs ps \<longleftrightarrow> (\<forall>(k, v)\<in>set ps. valid_utf8 k \<and> valid_utf8 v)"

lemma parse_parts_write:
  "valid_pairs ps \<Longrightarrow> parse_parts (map write_pair ps) = (ps, False)"
proof (induction ps)
  case Nil
  then show ?case by simp
next
  case (Cons p ps)
  obtain k v where p: "p = (k, v)" by (cases p)
  have "split_once_or (CHR ''='') (write_pair p) = (query_escape k, query_escape v)"
    using query_escape_no_sep by (simp add: p write_pair_def split_once_or_iff)
  moreover have "CHR '';'' \<notin> set (write_pair p)" "write_pair p \<noteq> []"
    using query_escape_no_sep by (auto simp: write_pair_def)
  ultimately show ?case
    using Cons by (simp add: p valid_pairs_def decode_query_escape)
qed

lemma parse_query_write:
  assumes "valid_pairs ps"
  shows "parse_query (write_pairs [] ps) = (ps, False)"
proof (cases "ps = []")
  case True
  then show ?thesis by (simp add: parse_query_def)
next
  case False
  have "split_on (CHR ''&'') (join ''&'' (map write_pair ps)) = map write_pair ps"
    using False query_escape_no_sep by (intro split_on_join) (auto simp: write_pair_def)
  then show ?thesis
    using assms by (simp add: parse_query_def write_pairs_join parse_parts_write)
qed

lemma parse_parts_valid:
  "\<forall>p\<in>set parts. valid_utf8 p \<Longrightarrow> valid_pairs (fst (parse_parts parts))"
proof (induction parts)
  case Nil
  then show ?case by (simp add: valid_pairs_def)
next
  case (Cons p parts)
  obtain key val where kv: "split_once_or (CHR ''='') p = (key, val)" by fastforce
  have "valid_utf8 key \<and> valid_utf8 val"
    using Cons.prems valid_utf8_split_once_or [OF _ _ kv] by simp
  then have "valid_utf8 k \<and> valid_utf8 v"
    if "percent_decode key True = Some k" "percent_decode val True = Some v" for k v
    using that percent_decode_valid by blast
  with Cons show ?case
    by (auto simp: kv valid_pairs_def split: prod.splits option.splits)
qed

lemma parse_query_valid: "valid_utf8 raw \<Longrightarrow> valid_pairs (fst (parse_query raw))"
  unfolding parse_query_def
  by (rule parse_parts_valid) (auto intro: valid_utf8_split_on [of "CHR ''&''"])

section \<open>Redaction\<close>

lemma redact_sensitive: "(k, v) \<in> set (redact seen ps) \<Longrightarrow> sensitive_key k \<Longrightarrow> v = ''redacted''"
  by (induction seen ps rule: redact.induct) (auto split: if_splits)

lemma redact_plain:
  "filter (\<lambda>p. \<not> sensitive_key (fst p)) (redact seen ps) = filter (\<lambda>p. \<not> sensitive_key (fst p)) ps"
  by (induction seen ps rule: redact.induct) auto

lemma redact_key_iff:
  "sensitive_key k \<Longrightarrow> k \<in> fst ` set (redact seen ps) \<longleftrightarrow> k \<in> fst ` set ps \<and> k \<notin> set seen"
proof (induction seen ps rule: redact.induct)
  case (2 seen key val pairs)
  show ?case
  proof (cases "sensitive_key key \<and> key \<notin> set seen")
    case True
    then have "k \<in> fst ` set (redact seen ((key, val) # pairs)) \<longleftrightarrow>
        k = key \<or> k \<in> fst ` set (redact (seen @ [key]) pairs)" by simp
    also have "\<dots> \<longleftrightarrow> k = key \<or> (k \<in> fst ` set pairs \<and> k \<notin> set seen)"
      using 2 True by (simp del: image_iff) blast
    finally show ?thesis using True by auto
  next
    case False
    with 2 show ?thesis by (auto simp del: image_iff)
  qed
qed simp

lemma redact_distinct: "distinct (filter sensitive_key (map fst (redact seen ps)))"
proof (induction seen ps rule: redact.induct)
  case (2 seen key val pairs)
  then show ?case
    using redact_key_iff [of key "seen @ [key]" pairs] by (auto simp del: image_iff)
qed simp

lemma redact_id:
  assumes "\<forall>(k, v)\<in>set ps. sensitive_key k \<longrightarrow> v = ''redacted''"
    and "distinct (filter sensitive_key (map fst ps))"
    and "set (filter sensitive_key (map fst ps)) \<inter> set seen = {}"
  shows "redact seen ps = ps"
  using assms by (induction seen ps rule: redact.induct) auto

lemma redact_valid: "valid_pairs ps \<Longrightarrow> valid_pairs (redact seen ps)"
proof (induction seen ps rule: redact.induct)
  case (2 seen key val pairs)
  have "valid_utf8 ''redacted''" by (rule valid_utf8_all_ascii) simp
  with 2 show ?case by (auto simp: valid_pairs_def)
qed simp

lemma sort_key_redact_id:
  "redact [] (sort_key fst (redact [] ps)) = sort_key fst (redact [] ps)"
proof (rule redact_id)
  show "\<forall>(k, v)\<in>set (sort_key fst (redact [] ps)). sensitive_key k \<longrightarrow> v = ''redacted''"
    using redact_sensitive [of _ _ "[]" ps] by auto
  have "mset (filter sensitive_key (map fst (sort_key fst (redact [] ps))))
      = mset (filter sensitive_key (map fst (redact [] ps)))"
    by simp
  then show "distinct (filter sensitive_key (map fst (sort_key fst (redact [] ps))))"
    using redact_distinct [of "[]" ps] mset_eq_imp_distinct_iff by blast
qed simp

lemma sanitize_parse:
  assumes "valid_utf8 raw" "parse_query raw = (ps, False)"
  shows "parse_query (sanitize_raw_query raw) = (sort_key fst (redact [] ps), False)"
proof (cases "raw = []")
  case True
  with assms have "ps = []" by (simp add: parse_query_def)
  with True show ?thesis by (simp add: sanitize_raw_query_def parse_query_def)
next
  case False
  have "valid_pairs (redact [] ps)"
    using parse_query_valid [OF assms(1)] assms(2) by (simp add: redact_valid)
  then have "valid_pairs (sort_key fst (redact [] ps))"
    by (simp add: valid_pairs_def)
  with False assms(2) show ?thesis
    by (simp add: sanitize_raw_query_def parse_query_write)
qed

lemma sanitize_ascii:
  assumes "parse_query raw = (ps, False)" "raw \<noteq> []"
  shows "valid_utf8 (sanitize_raw_query raw)"
proof -
  have "\<forall>c\<in>set (write_pairs [] qs). byte c < 128" for qs
    using query_escape_ascii
    by (cases qs) (auto simp: write_pairs_join join_concat write_pair_def)
  then show ?thesis
    using assms by (simp add: sanitize_raw_query_def valid_utf8_all_ascii)
qed

text \<open>
  C29: For a well-formed query, the query written to the log parses back without error, is
  sorted by key, shows the value \<open>redacted\<close> for every sensitive key (whatever its case),
  keeps exactly the sensitive keys of the request, and keeps every other pair unchanged.
\<close>

theorem sanitize_redacts:
  assumes "valid_utf8 raw" "parse_query raw = (ps, False)"
    and "parse_query (sanitize_raw_query raw) = (qs, malformed)"
  shows "\<not> malformed \<and> sorted (map fst qs)
     \<and> (\<forall>(k, v)\<in>set qs. sensitive_key k \<longrightarrow> v = ''redacted'')
     \<and> {k \<in> fst ` set qs. sensitive_key k} = {k \<in> fst ` set ps. sensitive_key k}
     \<and> mset (filter (\<lambda>p. \<not> sensitive_key (fst p)) qs)
         = mset (filter (\<lambda>p. \<not> sensitive_key (fst p)) ps)"
proof -
  have qs: "qs = sort_key fst (redact [] ps)" "\<not> malformed"
    using sanitize_parse [OF assms(1,2)] assms(3) by auto
  have "mset (filter (\<lambda>p. \<not> sensitive_key (fst p)) qs)
      = mset (filter (\<lambda>p. \<not> sensitive_key (fst p)) (redact [] ps))"
    by (simp add: qs)
  moreover have "{k \<in> fst ` set qs. sensitive_key k} = {k \<in> fst ` set ps. sensitive_key k}"
    using redact_key_iff [of _ "[]" ps] by (simp add: qs) blast
  ultimately show ?thesis
    using redact_sensitive [of _ _ "[]" ps] redact_plain [of "[]" ps] by (auto simp: qs)
qed

theorem sanitize_redacts_witness:
  "\<exists>qs. parse_query (sanitize_raw_query ''token=s3&Api_Key=k&id=7&token=t'') = (qs, False)
     \<and> sorted (map fst qs) \<and> {k \<in> fst ` set qs. sensitive_key k} = {''token'', ''Api_Key''}"
proof -
  let ?raw = "''token=s3&Api_Key=k&id=7&token=t''"
  have v: "valid_utf8 ?raw" by (rule valid_utf8_all_ascii) simp
  have p: "parse_query ?raw =
     ([(''token'', ''s3''), (''Api_Key'', ''k''), (''id'', ''7''), (''token'', ''t'')], False)"
    by (simp add: parse_query_def percent_decode_def split_once_or_def)
  obtain qs m where q: "parse_query (sanitize_raw_query ?raw) = (qs, m)" by fastforce
  have k: "sensitive_key ''token''" "sensitive_key ''Api_Key''" "\<not> sensitive_key ''id''"
    by code_simp+
  show ?thesis
    using sanitize_redacts [OF v p q] q k by (intro exI [of _ qs]) auto
qed

text \<open>
  Sanitising is idempotent: a query already sanitised for the log is left as it is.
\<close>

lemma sanitize_idempotent:
  assumes "valid_utf8 raw" "snd (parse_query raw) = False"
  shows "sanitize_raw_query (sanitize_raw_query raw) = sanitize_raw_query raw"
proof -
  obtain ps where ps: "parse_query raw = (ps, False)"
    using assms(2) by (cases "parse_query raw") auto
  let ?q = "sanitize_raw_query raw"
  have p: "parse_query ?q = (sort_key fst (redact [] ps), False)"
    by (rule sanitize_parse [OF assms(1) ps])
  have s: "sort_key fst (sort_key fst (redact [] ps)) = sort_key fst (redact [] ps)"
    by (rule sort_key_id_if_sorted) simp
  show ?thesis
  proof (cases "raw = [] \<or> ?q = []")
    case True
    then show ?thesis by (auto simp: sanitize_raw_query_def)
  next
    case False
    then show ?thesis
      by (subst sanitize_raw_query_def) (simp add: p sort_key_redact_id s,
        simp add: sanitize_raw_query_def ps)
  qed
qed

text \<open>
  C40: Redaction is all or nothing: one malformed escape anywhere in the query makes
  \<open>sanitize_raw_query\<close> return the raw query, so every sensitive value in it reaches the log.
  Appending a bare percent sign to any query whatsoever is enough.
\<close>

theorem malformed_query_leaks:
  "sanitize_raw_query (q @ ''&%'') = q @ ''&%''"
proof -
  have parts: "snd (parse_parts (ps @ [''%'']))" for ps
  proof (induction ps)
    case Nil
    show ?case by (simp add: percent_decode_def split_once_or_def)
  next
    case (Cons p ps)
    then show ?case by (auto simp: Let_def split: prod.splits option.splits)
  qed
  have "\<exists>ps. split_on (CHR ''&'') (q @ ''&%'') = ps @ [''%'']"
  proof (induction q)
    case Nil
    show ?case by simp
  next
    case (Cons x q)
    then obtain ps where ps: "split_on (CHR ''&'') (q @ ''&%'') = ps @ [''%'']" by blast
    show ?case
    proof (cases "x = CHR ''&''")
      case True
      then have "split_on (CHR ''&'') ((x # q) @ ''&%'') = ([] # ps) @ [''%'']"
        using ps by simp
      then show ?thesis by blast
    next
      case False
      show ?thesis
      proof (cases ps)
        case Nil
        with ps join_split_on [of "CHR ''&''" "q @ ''&%''"] have "q @ ''&%'' = ''%''" by simp
        then show ?thesis by (simp add: append_eq_Cons_conv)
      next
        case (Cons y ys)
        then have "split_on (CHR ''&'') ((x # q) @ ''&%'') = ((x # y) # ys) @ [''%'']"
          using ps False by simp
        then show ?thesis by blast
      qed
    qed
  qed
  then obtain ps where "split_on (CHR ''&'') (q @ ''&%'') = ps @ [''%'']" by blast
  then have "snd (parse_query (q @ ''&%''))" using parts by (simp add: parse_query_def)
  then show ?thesis by (auto simp: sanitize_raw_query_def split: prod.split)
qed

end
