(* ===== verification/Util_Ip.thy ===== *)
theory Util_Ip
  imports Rust_Str
begin

unbundle bit_operations_syntax

text \<open>
  Client addresses and networks of \<^verbatim>\<open>src/src/util.rs\<close>. An IPv4 address is a 32-bit
  word and an IPv6 address a 128-bit word, as \<^verbatim>\<open>u32::from\<close> and \<^verbatim>\<open>u128::from\<close> read
  them. The first section is the address parser and printer of Rust's standard library.
\<close>

section \<open>Addresses in the standard library\<close>

datatype ip_addr = V4 "32 word" | V6 "128 word"

definition is_ipv4 :: "ip_addr \<Rightarrow> bool" where
  "is_ipv4 a = (case a of V4 _ \<Rightarrow> True | V6 _ \<Rightarrow> False)"

definition digit_in :: "nat \<Rightarrow> char \<Rightarrow> nat option" where
  "digit_in radix c =
     (let d = (if is_ascii_digit c then Some (byte c - 48)
               else if 97 \<le> byte c \<and> byte c \<le> 102 then Some (byte c - 87)
               else if 65 \<le> byte c \<and> byte c \<le> 70 then Some (byte c - 55) else None) in
      case d of Some n \<Rightarrow> if n < radix then Some n else None | None \<Rightarrow> None)"

definition radix_val :: "nat \<Rightarrow> string \<Rightarrow> nat" where
  "radix_val radix ds = foldl (\<lambda>n c. radix * n + the (digit_in radix c)) 0 ds"

text \<open>\<^verbatim>\<open>Parser::read_number\<close>: digits with at most \<open>max_digits\<close> and a largest value.\<close>

definition read_number ::
  "nat \<Rightarrow> nat \<Rightarrow> nat \<Rightarrow> bool \<Rightarrow> string \<Rightarrow> (nat \<times> string) option" where
  "read_number radix max_digits limit allow_zero_prefix s =
     (let ds = takeWhile (\<lambda>c. digit_in radix c \<noteq> None) s in
      if ds = [] \<or> max_digits < length ds \<or> limit < radix_val radix ds
         \<or> (\<not> allow_zero_prefix \<and> hd ds = CHR ''0'' \<and> 1 < length ds)
      then None else Some (radix_val radix ds, drop (length ds) s))"

definition read_separator ::
  "char \<Rightarrow> nat \<Rightarrow> (string \<Rightarrow> ('a \<times> string) option) \<Rightarrow> string \<Rightarrow> ('a \<times> string) option" where
  "read_separator sep i inner s =
     (if i = 0 then inner s
      else case s of c # r \<Rightarrow> if c = sep then inner r else None | [] \<Rightarrow> None)"

fun read_v4_groups :: "nat \<Rightarrow> nat \<Rightarrow> string \<Rightarrow> (nat list \<times> string) option" where
  "read_v4_groups 0 i s = Some ([], s)"
| "read_v4_groups (Suc k) i s =
     (case read_separator (CHR ''.'') i (read_number 10 3 255 False) s of
        None \<Rightarrow> None
      | Some (g, r) \<Rightarrow> map_option (apfst (Cons g)) (read_v4_groups k (Suc i) r))"

definition groups_val :: "nat \<Rightarrow> nat list \<Rightarrow> nat" where
  "groups_val base gs = foldl (\<lambda>n g. base * n + g) 0 gs"

definition read_ipv4 :: "string \<Rightarrow> (32 word \<times> string) option" where
  "read_ipv4 s =
     map_option (apfst (\<lambda>gs. word_of_nat (groups_val 256 gs))) (read_v4_groups 4 0 s)"

text \<open>\<^verbatim>\<open>read_groups\<close>: up to \<open>k\<close> more groups, the last two possibly written as IPv4.\<close>

fun read_v6_groups :: "nat \<Rightarrow> nat \<Rightarrow> string \<Rightarrow> nat list \<times> bool \<times> string" where
  "read_v6_groups 0 i s = ([], False, s)"
| "read_v6_groups (Suc k) i s =
     (case (if 0 < k then read_separator (CHR '':'') i read_ipv4 s else None) of
        Some (a, r) \<Rightarrow> ([unat a div 65536, unat a mod 65536], True, r)
      | None \<Rightarrow>
          (case read_separator (CHR '':'') i (read_number 16 4 65535 True) s of
             None \<Rightarrow> ([], False, s)
           | Some (g, r) \<Rightarrow>
               (let (gs, v4, r') = read_v6_groups k (Suc i) r in (g # gs, v4, r'))))"

definition read_ipv6 :: "string \<Rightarrow> (128 word \<times> string) option" where
  "read_ipv6 s =
     (let (hd_gs, v4, r) = read_v6_groups 8 0 s in
      if length hd_gs = 8 then Some (word_of_nat (groups_val 65536 hd_gs), r)
      else if v4 then None
      else case strip_prefix ''::'' r of None \<Rightarrow> None
           | Some r \<Rightarrow>
               (let (tl_gs, _, r') = read_v6_groups (8 - (length hd_gs + 1)) 0 r;
                    zeros = replicate (8 - length hd_gs - length tl_gs) 0 in
                Some (word_of_nat (groups_val 65536 (hd_gs @ zeros @ tl_gs)), r')))"

text \<open>\<^verbatim>\<open>str::parse::<IpAddr>\<close>.\<close>

definition parse_ip :: "string \<Rightarrow> ip_addr option" where
  "parse_ip s =
     (case read_ipv4 s of
        Some (a, r) \<Rightarrow> if r = [] then Some (V4 a) else None
      | None \<Rightarrow>
          (case read_ipv6 s of
             Some (a, r) \<Rightarrow> if r = [] then Some (V6 a) else None
           | None \<Rightarrow> None))"

text \<open>\<^verbatim>\<open>Ipv4Addr\<close>'s and \<^verbatim>\<open>Ipv6Addr\<close>'s \<^verbatim>\<open>Display\<close>.\<close>

definition octets :: "32 word \<Rightarrow> nat list" where
  "octets w = [unat w div 2 ^ 24, unat w div 2 ^ 16 mod 256, unat w div 2 ^ 8 mod 256, unat w mod 256]"

definition show_v4 :: "32 word \<Rightarrow> string" where
  "show_v4 w = join ''.'' (map show_nat (octets w))"

fun show_hex :: "nat \<Rightarrow> string" where
  "show_hex n =
     (if n < 16 then [''0123456789abcdef'' ! n]
      else show_hex (n div 16) @ [''0123456789abcdef'' ! (n mod 16)])"

declare show_hex.simps [simp del]

definition segments :: "128 word \<Rightarrow> nat list" where
  "segments w = map (\<lambda>i. unat w div 65536 ^ (7 - i) mod 65536) [0..<8]"

text \<open>The longest run of zero segments as (start, length), the first one of that length.\<close>

fun zero_span :: "nat \<Rightarrow> nat \<times> nat \<Rightarrow> nat \<times> nat \<Rightarrow> nat list \<Rightarrow> nat \<times> nat" where
  "zero_span i cur longest [] = longest"
| "zero_span i cur longest (s # ss) =
     (if s = 0 then
        (let cur = (if snd cur = 0 then (i, 1) else (fst cur, snd cur + 1)) in
         zero_span (Suc i) cur (if snd longest < snd cur then cur else longest) ss)
      else zero_span (Suc i) (0, 0) longest ss)"

definition to_ipv4_mapped :: "128 word \<Rightarrow> 32 word option" where
  "to_ipv4_mapped w = (if drop_bit 32 w = 0xFFFF then Some (ucast w) else None)"

definition show_v6 :: "128 word \<Rightarrow> string" where
  "show_v6 w =
     (case to_ipv4_mapped w of
        Some a \<Rightarrow> ''::ffff:'' @ show_v4 a
      | None \<Rightarrow>
          (let ss = segments w; (start, len) = zero_span 0 (0, 0) (0, 0) ss in
           if 1 < len then
             join '':'' (map show_hex (take start ss)) @ ''::''
             @ join '':'' (map show_hex (drop (start + len) ss))
           else join '':'' (map show_hex ss)))"

definition show_ip :: "ip_addr \<Rightarrow> string" where
  "show_ip a = (case a of V4 w \<Rightarrow> show_v4 w | V6 w \<Rightarrow> show_v6 w)"

section \<open>Networks\<close>

record ip_prefix =
  p_addr :: ip_addr
  p_bits :: nat

datatype prefix_error = InvalidAddress string | BadBits string

definition unmap :: "ip_addr \<Rightarrow> ip_addr" where
  "unmap a =
     (case a of
        V6 v6 \<Rightarrow> (case to_ipv4_mapped v6 of Some v4 \<Rightarrow> V4 v4 | None \<Rightarrow> a)
      | V4 _ \<Rightarrow> a)"

text \<open>
  \<^verbatim>\<open>u32::MAX << (32 - bits)\<close> is all ones shifted left. The source subtracts without a
  check; every prefix built by \<open>prefix_parse\<close> has \<open>bits\<close> within the width.
\<close>

definition mask_addr :: "ip_addr \<Rightarrow> nat \<Rightarrow> ip_addr" where
  "mask_addr a bits =
     (case a of
        V4 raw \<Rightarrow> V4 (raw AND (if bits = 0 then 0 else push_bit (32 - bits) (- 1)))
      | V6 raw \<Rightarrow> V6 (raw AND (if bits = 0 then 0 else push_bit (128 - bits) (- 1))))"

definition max_bits :: "ip_addr \<Rightarrow> nat" where
  "max_bits a = (if is_ipv4 a then 32 else 128)"

definition prefix_parse :: "string \<Rightarrow> (prefix_error, ip_prefix) res" where
  "prefix_parse value =
     (case split_once (CHR ''/'') value of
        Some (addr, bits) \<Rightarrow>
          (case parse_ip addr of
             None \<Rightarrow> Inl (InvalidAddress addr)
           | Some addr \<Rightarrow>
               (case parse_unsigned 255 bits of
                  None \<Rightarrow> Inl (BadBits value)
                | Some bits \<Rightarrow>
                    if bits \<le> max_bits addr
                    then Inr \<lparr>p_addr = mask_addr addr bits, p_bits = bits\<rparr>
                    else Inl (BadBits value)))
      | None \<Rightarrow>
          (case parse_ip value of
             None \<Rightarrow> Inl (InvalidAddress value)
           | Some addr \<Rightarrow>
               (let addr = unmap addr in Inr \<lparr>p_addr = addr, p_bits = max_bits addr\<rparr>)))"

definition prefix_contains :: "ip_prefix \<Rightarrow> ip_addr \<Rightarrow> bool" where
  "prefix_contains p addr =
     (let addr = unmap addr in
      if is_ipv4 addr \<noteq> is_ipv4 (p_addr p) then False
      else mask_addr addr (p_bits p) = p_addr p)"

definition prefix_display :: "ip_prefix \<Rightarrow> string" where
  "prefix_display p = show_ip (p_addr p) @ ''/'' @ show_nat (p_bits p)"

definition parse_client_addr :: "string \<Rightarrow> ip_addr option" where
  "parse_client_addr raw =
     (let raw = trim raw in
      if raw = [] then None else map_option unmap (parse_ip raw))"

definition first_forwarded_for :: "string \<Rightarrow> string" where
  "first_forwarded_for raw = trim (before_first (CHR '','') raw)"

section \<open>Masks\<close>

definition prefix_wf :: "ip_prefix \<Rightarrow> bool" where
  "prefix_wf p \<longleftrightarrow> p_bits p \<le> max_bits (p_addr p) \<and> mask_addr (p_addr p) (p_bits p) = p_addr p"

lemma is_ipv4_simps [simp]: "is_ipv4 (V4 a)" "\<not> is_ipv4 (V6 b)"
  by (simp_all add: is_ipv4_def)

lemma mask_family [simp]: "is_ipv4 (mask_addr a n) = is_ipv4 a"
  by (cases a) (simp_all add: mask_addr_def)

lemma mask_idem [simp]: "mask_addr (mask_addr a n) n = mask_addr a n"
  by (cases a) (simp_all add: mask_addr_def and.assoc)

lemma mask_max [simp]: "max_bits (mask_addr a n) = max_bits a"
  by (simp add: max_bits_def)

lemma mask_full: "mask_addr a (max_bits a) = a"
  by (cases a) (simp_all add: mask_addr_def max_bits_def)

text \<open>Masking to \<open>n\<close> bits compares exactly the \<open>n\<close> leading bits.\<close>

lemma word_and_shift_ones: "(a :: 'a::len word) AND push_bit k (- 1) = push_bit k (drop_bit k a)"
  by (rule bit_word_eqI) (auto simp: bit_simps)

lemma word_drop_push_drop:
  "drop_bit k (push_bit k (drop_bit k (a :: 'a::len word))) = drop_bit k a"
  by (rule bit_word_eqI) (auto simp: bit_simps dest: bit_imp_le_length)

lemma word_drop_all: "drop_bit (LENGTH('a)) (a :: 'a::len word) = 0"
  by (rule bit_word_eqI) (auto simp: bit_simps dest: bit_imp_le_length)

lemma word_mask_eq_iff:
  fixes a b :: "'a::len word"
  assumes "l = LENGTH('a)"
  shows "a AND (if n = 0 then 0 else push_bit (l - n) (- 1))
       = b AND (if n = 0 then 0 else push_bit (l - n) (- 1))
     \<longleftrightarrow> drop_bit (l - n) a = drop_bit (l - n) b"
  by (simp add: assms word_drop_all word_and_shift_ones del: push_bit_minus_one_eq_not_mask)
    (metis word_drop_push_drop)

text \<open>The network of an address: the leading bits, with the family.\<close>

definition leading :: "nat \<Rightarrow> ip_addr \<Rightarrow> ip_addr" where
  "leading n a =
     (case a of V4 w \<Rightarrow> V4 (drop_bit (32 - n) w) | V6 w \<Rightarrow> V6 (drop_bit (128 - n) w))"

lemma mask_eq_iff:
  "is_ipv4 a = is_ipv4 b \<Longrightarrow> mask_addr a n = mask_addr b n \<longleftrightarrow> leading n a = leading n b"
  by (cases a; cases b) (simp_all add: mask_addr_def leading_def word_mask_eq_iff
      del: push_bit_minus_one_eq_not_mask)

lemma leading_family: "leading n a = leading n b \<Longrightarrow> is_ipv4 a = is_ipv4 b"
  by (cases a; cases b) (simp_all add: leading_def)

lemma prefix_parse_wf:
  assumes "prefix_parse v = Inr p"
  shows "prefix_wf p"
proof (cases "split_once (CHR ''/'') v")
  case None
  with assms obtain a where "p = \<lparr>p_addr = unmap a, p_bits = max_bits (unmap a)\<rparr>"
    by (auto simp: prefix_parse_def Let_def split: option.splits)
  then show ?thesis by (simp add: prefix_wf_def mask_full)
next
  case (Some ab)
  obtain x y where ab: "ab = (x, y)" by (cases ab)
  from assms Some ab obtain a where a: "parse_ip x = Some a"
    by (cases "parse_ip x") (simp_all add: prefix_parse_def)
  from assms Some ab a obtain n where n: "parse_unsigned 255 y = Some n"
    by (cases "parse_unsigned 255 y") (simp_all add: prefix_parse_def)
  from assms have "p = \<lparr>p_addr = mask_addr a n, p_bits = n\<rparr> \<and> n \<le> max_bits a"
    by (simp add: prefix_parse_def Some ab a n split: if_splits)
  then show ?thesis by (simp add: prefix_wf_def)
qed

lemma prefix_contains_leading:
  assumes "prefix_wf p"
  shows "prefix_contains p a \<longleftrightarrow> leading (p_bits p) (unmap a) = leading (p_bits p) (p_addr p)"
proof (cases "is_ipv4 (unmap a) = is_ipv4 (p_addr p)")
  case True
  with assms mask_eq_iff [of "unmap a" "p_addr p" "p_bits p"] show ?thesis
    by (simp add: prefix_contains_def prefix_wf_def)
next
  case False
  then show ?thesis
    using leading_family [of "p_bits p" "unmap a" "p_addr p"] by (auto simp: prefix_contains_def)
qed


text \<open>
  C35: An entry of the client allow list covers exactly the addresses it should: whenever the
  entry parses, its length fits the address family, and it contains an address exactly when
  that address (an IPv4-mapped IPv6 address counting as the IPv4 address) has the same
  family and the same leading bits as the entry.
\<close>

theorem allow_list_entry_exact:
  assumes "prefix_parse v = Inr p"
  shows "p_bits p \<le> max_bits (p_addr p)
     \<and> (prefix_contains p a \<longleftrightarrow> leading (p_bits p) (unmap a) = leading (p_bits p) (p_addr p))"
  using prefix_parse_wf [OF assms] prefix_contains_leading [of p a]
  by (simp add: prefix_wf_def)

lemma read_v4_groups_4:
  "read_v4_groups 4 i s = read_v4_groups (Suc (Suc (Suc (Suc 0)))) i s"
  by (simp add: numeral_eq_Suc)

lemma prefix_parse_example:
  "prefix_parse ''192.168.0.1/24'' = Inr \<lparr>p_addr = V4 0xC0A80000, p_bits = 24\<rparr>"
  by (simp add: prefix_parse_def parse_ip_def read_ipv4_def read_v4_groups_4 read_separator_def
      read_number_def radix_val_def digit_in_def is_ascii_digit_def groups_val_def
      parse_unsigned_def max_bits_def mask_addr_def mask_eq_exp_minus_1)

theorem allow_list_entry_exact_witness:
  "prefix_contains \<lparr>p_addr = V4 0xC0A80000, p_bits = 24\<rparr> (V6 0xFFFFC0A8004D)
   \<and> \<not> prefix_contains \<lparr>p_addr = V4 0xC0A80000, p_bits = 24\<rparr> (V4 0xC0A80101)"
  using allow_list_entry_exact [OF prefix_parse_example, of "V6 0xFFFFC0A8004D"]
    allow_list_entry_exact [OF prefix_parse_example, of "V4 0xC0A80101"]
  by (simp add: leading_def unmap_def to_ipv4_mapped_def)

section \<open>Reading back a printed IPv4 address\<close>

lemma digit_in_char_of: "d < 10 \<Longrightarrow> digit_in 10 (char_of (48 + d)) = Some d"
  by (simp add: digit_in_def is_ascii_digit_def)

lemma show_nat_digits: "c \<in> set (show_nat n) \<Longrightarrow> digit_in 10 c \<noteq> None"
proof (induction n rule: show_nat.induct)
  case (1 n)
  show ?case
  proof (cases "n < 10")
    case True
    with 1 show ?thesis by (simp add: show_nat_digit digit_in_char_of)
  next
    case False
    then have "c \<in> set (show_nat (n div 10)) \<or> c = char_of (48 + n mod 10)"
      using 1(2) by (auto simp: show_nat_step)
    with 1(1) False digit_in_char_of [of "n mod 10"] show ?thesis by auto
  qed
qed

lemma radix_val_snoc: "radix_val r (ds @ [c]) = r * radix_val r ds + the (digit_in r c)"
  by (simp add: radix_val_def)

lemma radix_val_show: "radix_val 10 (show_nat n) = n"
proof (induction n rule: show_nat.induct)
  case (1 n)
  show ?case
  proof (cases "n < 10")
    case True
    then show ?thesis
      using radix_val_snoc [of 10 "[]"]
      by (simp add: show_nat_digit digit_in_char_of radix_val_def)
  next
    case False
    with 1 show ?thesis by (simp add: show_nat_step radix_val_snoc digit_in_char_of)
  qed
qed

lemma read_number_show:
  assumes "n \<le> 255" "r = [] \<or> digit_in 10 (hd r) = None"
  shows "read_number 10 3 255 False (show_nat n @ r) = Some (n, r)"
proof -
  have "takeWhile (\<lambda>c. digit_in 10 c \<noteq> None) r = []" using assms(2) by (cases r) auto
  then have "takeWhile (\<lambda>c. digit_in 10 c \<noteq> None) (show_nat n @ r) = show_nat n"
    using show_nat_digits by (simp add: takeWhile_append2)
  moreover have "hd (show_nat n) = CHR ''0'' \<longrightarrow> length (show_nat n) = 1"
    using show_nat_zero [of n] by (auto simp: show_nat_digit)
  ultimately show ?thesis
    using assms(1) show_nat_len [of n] show_nat_ne by (auto simp: read_number_def radix_val_show)
qed

lemma octets_le: "g \<in> set (octets w) \<Longrightarrow> g \<le> 255"
proof -
  have "unat w < 2 ^ 32" using unsigned_less [where 'a = nat, of w] by simp
  then have "unat w div 2 ^ 24 < 256" by simp
  then show "g \<in> set (octets w) \<Longrightarrow> g \<le> 255" by (auto simp: octets_def)
qed

lemma groups_val_octets: "groups_val 256 (octets w) = unat w"
proof -
  define u where "u = unat w"
  have "u div 65536 = 256 * (u div 16777216) + u div 65536 mod 256"
    using div_mult2_eq [of u 65536 256] by simp
  moreover have "u div 256 = 256 * (u div 65536) + u div 256 mod 256"
    using div_mult2_eq [of u 256 256] by simp
  moreover have "u = 256 * (u div 256) + u mod 256" by simp
  ultimately show ?thesis by (simp add: groups_val_def octets_def u_def [symmetric])
qed

lemma read_ipv4_show: "read_ipv4 (show_v4 w) = Some (w, [])"
proof -
  obtain a b c d where o: "octets w = [a, b, c, d]" by (simp add: octets_def)
  have le: "a \<le> 255" "b \<le> 255" "c \<le> 255" "d \<le> 255" using octets_le [of _ w] o by auto
  have dot: "digit_in 10 (CHR ''.'') = None" by (simp add: digit_in_def is_ascii_digit_def)
  have "read_v4_groups 4 0 (show_v4 w) = Some ([a, b, c, d], [])"
    using le dot read_number_show [of d "[]"]
    by (simp add: show_v4_def o read_v4_groups_4 read_separator_def read_number_show)
  then show ?thesis using groups_val_octets [of w] by (simp add: read_ipv4_def o)
qed

lemma parse_show_v4: "parse_ip (show_ip (V4 w)) = Some (V4 w)"
  by (simp add: parse_ip_def show_ip_def read_ipv4_show)

end
