(* ===== verification/Http_Types.thy ===== *)
theory Http_Types
  imports Util_Query Util_Ip
begin

text \<open>
  The HTTP data the handlers work on, and the third-party functions they call. Headers
  are a function from the lower-case header name to the values stored under it, in order;
  the \<^verbatim>\<open>http\<close> crate's accessors are then plain reads and function updates. What the
  program calls of other crates is a field of \<open>http_crate\<close>, a parameter of the model.
\<close>

type_synonym header_map = "string \<Rightarrow> bytes list"

record http_crate =
  hv_to_str :: "bytes \<Rightarrow> string option"
  hn_from_bytes :: "bytes \<Rightarrow> string option"
  hv_from_str :: "string \<Rightarrow> bytes option"
  uri_path_of :: "string \<Rightarrow> string option"

text \<open>
  \<open>hv_to_str\<close> is \<^verbatim>\<open>HeaderValue::to_str\<close>, \<open>hn_from_bytes\<close> is \<^verbatim>\<open>HeaderName::from_bytes\<close>
  with the name in lower case, \<open>hv_from_str\<close> is \<^verbatim>\<open>HeaderValue::from_str\<close>, and
  \<open>uri_path_of\<close> is \<^verbatim>\<open>str::parse::<Uri>\<close> followed by \<^verbatim>\<open>Uri::path\<close>, \<open>None\<close> when the
  text is not a URI.
\<close>

definition header_get :: "header_map \<Rightarrow> string \<Rightarrow> bytes option" where
  "header_get h n = (case h n of [] \<Rightarrow> None | v # _ \<Rightarrow> Some v)"

definition header_insert :: "header_map \<Rightarrow> string \<Rightarrow> bytes \<Rightarrow> header_map" where
  "header_insert h n v = h(n := [v])"

definition header_remove :: "header_map \<Rightarrow> string \<Rightarrow> header_map" where
  "header_remove h n = h(n := [])"

definition header_remove_all :: "header_map \<Rightarrow> string list \<Rightarrow> header_map" where
  "header_remove_all h ns = foldl header_remove h ns"

lemma header_remove_all_apply [simp]:
  "header_remove_all h ns n = (if n \<in> set ns then [] else h n)"
proof -
  have "foldl header_remove h ns n = (if n \<in> set ns then [] else h n)" for h
    by (induction ns arbitrary: h) (auto simp: header_remove_def)
  then show ?thesis by (simp add: header_remove_all_def)
qed

lemma header_apply [simp]:
  "header_insert h n v m = (if m = n then [v] else h m)"
  "header_remove h n m = (if m = n then [] else h m)"
  by (simp_all add: header_insert_def header_remove_def)

text \<open>\<^verbatim>\<open>header_str\<close> of \<^verbatim>\<open>src/src/server/client_filter.rs\<close>.\<close>

definition header_str :: "'x http_crate_scheme \<Rightarrow> header_map \<Rightarrow> string \<Rightarrow> string option" where
  "header_str X headers name = Option.bind (header_get headers name) (hv_to_str X)"

end
