(* ===== verification/Auth_Store.thy ===== *)
theory Auth_Store
  imports Http_Types
    "HOL-Library.Word"
begin

text \<open>
  \<^verbatim>\<open>src/src/auth.rs\<close> and \<^verbatim>\<open>write_private_file\<close> of \<^verbatim>\<open>src/src/util.rs\<close>: the sessions
  accepted through the allowed-users check, the secret that signs resource URLs, the file
  both are kept in, and reading the access token out of a request. The file system is a
  map from path to mode and content; which system calls fail is an argument.
\<close>

section \<open>Replacing a file\<close>

type_synonym files = "string \<rightharpoonup> nat \<times> bytes"

text \<open>
  What one replacement sees of the system: the parent and the UTF-8 file name
  \<^verbatim>\<open>std::path\<close> finds in the target, the random suffix (zero when the generator fails), and
  the outcome of every system call. \<open>io_written\<close> is how much of the data reaches the file
  when \<^verbatim>\<open>write_all\<close> fails.
\<close>

record write_io =
  io_parent :: "string option"
  io_file_name :: "string option"
  io_suffix :: "64 word"
  io_open :: bool
  io_write :: bool
  io_written :: nat
  io_sync :: bool
  io_rename :: bool
  io_remove :: bool

definition OWNER_ONLY :: nat where
  "OWNER_ONLY = 384" \<comment> \<open>\<^verbatim>\<open>0o600\<close>\<close>

definition io_tmp :: "write_io \<Rightarrow> string" where
  "io_tmp io =
     (let dir = (case io_parent io of Some d \<Rightarrow> if d \<noteq> [] then d else ''.'' | None \<Rightarrow> ''.'');
          file_name = (case io_file_name io of Some n \<Rightarrow> n | None \<Rightarrow> ''state'') in
      (if last dir = CHR ''/'' then dir else dir @ ''/'')
        @ file_name @ ''.tmp'' @ show_nat (unat (io_suffix io)))"

text \<open>The closure: whether it succeeds, and the states of the disk it passes through.\<close>

definition write_steps :: "write_io \<Rightarrow> string \<Rightarrow> bytes \<Rightarrow> files \<Rightarrow> bool \<times> files list" where
  "write_steps io path data fs =
     (let tmp = io_tmp io;
          created = fs(tmp \<mapsto> (OWNER_ONLY, []));
          partial = fs(tmp \<mapsto> (OWNER_ONLY, take (io_written io) data));
          written = fs(tmp \<mapsto> (OWNER_ONLY, data)) in
      if \<not> io_open io \<or> tmp \<in> dom fs then (False, [])
      else if \<not> io_write io then (False, [created, partial])
      else if \<not> io_sync io \<or> \<not> io_rename io then (False, [created, written])
      else (True, [created, written, (written(path \<mapsto> (OWNER_ONLY, data)))(tmp := None)]))"

definition write_private_file :: "write_io \<Rightarrow> string \<Rightarrow> bytes \<Rightarrow> files \<Rightarrow> bool \<times> files list" where
  "write_private_file io path data fs =
     (let (ok, trace) = write_steps io path data fs in
      if ok then (True, trace)
      else let reached = last (fs # trace) in
        (False, trace @ [if io_remove io then reached(io_tmp io := None) else reached]))"

section \<open>Sessions\<close>

record session =
  s_route :: string
  s_user_id :: string
  s_user_name :: string
  s_created_at :: string

definition session_new :: "string \<Rightarrow> string \<Rightarrow> string \<Rightarrow> string \<Rightarrow> session" where
  "session_new now route user_id user_name =
     \<lparr>s_route = route, s_user_id = user_id, s_user_name = user_name, s_created_at = now\<rparr>"

record store_file =
  sf_secret :: string
  sf_sessions :: "(string \<rightharpoonup> session) option"

record store =
  st_path :: "string option"
  st_secret :: bytes
  st_sessions :: "string \<rightharpoonup> session"

datatype auth_error = ReadFailed | BadJson | BadSecret | NoRandom | SaveFailed | EmptyToken

text \<open>
  The crates the store calls: base64 (standard and URL-safe without padding), HMAC-SHA256
  of a key and a message, and the JSON form of the state file.
\<close>

record auth_crate = http_crate +
  b64_encode :: "bytes \<Rightarrow> string"
  b64_decode :: "string \<Rightarrow> bytes option"
  b64url_encode :: "bytes \<Rightarrow> string"
  b64url_decode :: "string \<Rightarrow> bytes option"
  hmac_sha256 :: "bytes \<Rightarrow> bytes \<Rightarrow> bytes"
  store_to_json :: "store_file \<Rightarrow> bytes"
  store_from_json :: "bytes \<Rightarrow> store_file option"

definition store_save ::
  "'x auth_crate_scheme \<Rightarrow> write_io \<Rightarrow> store \<Rightarrow> (string \<rightharpoonup> session) \<Rightarrow> files
   \<Rightarrow> (auth_error, unit) res \<times> files" where
  "store_save X io st sessions fs =
     (case st_path st of
        None \<Rightarrow> (Inr (), fs)
      | Some path \<Rightarrow>
          (let data = store_to_json X \<lparr>sf_secret = b64_encode X (st_secret st),
                                       sf_sessions = Some sessions\<rparr>;
               (ok, trace) = write_private_file io path data fs in
           (if ok then Inr () else Inl SaveFailed, last trace)))"

text \<open>
  \<open>read_ok\<close> is false when reading fails for another reason than a missing file; \<open>rnd\<close> is
  what the random generator fills in, \<open>None\<close> when it fails.
\<close>

definition store_open ::
  "'x auth_crate_scheme \<Rightarrow> write_io \<Rightarrow> bool \<Rightarrow> bytes option \<Rightarrow> string option \<Rightarrow> files
   \<Rightarrow> (auth_error, store) res \<times> files" where
  "store_open X io read_ok rnd path fs =
     (let loaded =
            (case path of
               None \<Rightarrow> Inr ([], Map.empty)
             | Some p \<Rightarrow>
                 if \<not> read_ok then Inl ReadFailed
                 else case fs p of
                   None \<Rightarrow> Inr ([], Map.empty)
                 | Some (_, data) \<Rightarrow>
                     bind_res (ok_or BadJson (store_from_json X data)) (\<lambda>file.
                     bind_res (ok_or BadSecret (b64_decode X (sf_secret file))) (\<lambda>secret.
                     Inr (secret, case sf_sessions file of Some m \<Rightarrow> m | None \<Rightarrow> Map.empty)))) in
      case loaded of
        Inl e \<Rightarrow> (Inl e, fs)
      | Inr (secret, sessions) \<Rightarrow>
          if secret \<noteq> [] then
            (Inr \<lparr>st_path = path, st_secret = secret, st_sessions = sessions\<rparr>, fs)
          else case rnd of
            None \<Rightarrow> (Inl NoRandom, fs)
          | Some r \<Rightarrow>
              (let st = \<lparr>st_path = path, st_secret = r, st_sessions = sessions\<rparr> in
               case store_save X io st sessions fs of
                 (Inl e, fs') \<Rightarrow> (Inl e, fs')
               | (Inr _, fs') \<Rightarrow> (Inr st, fs')))"

text \<open>\<^verbatim>\<open>Store::memory\<close>; \<open>None\<close> is the panic of its \<^verbatim>\<open>expect\<close>, when there is no randomness for the secret.\<close>

definition store_memory :: "'x auth_crate_scheme \<Rightarrow> write_io \<Rightarrow> bytes option \<Rightarrow> store option" where
  "store_memory X io rnd =
     (case fst (store_open X io True rnd None (\<lambda>_. None)) of Inr s \<Rightarrow> Some s | Inl _ \<Rightarrow> None)"

definition store_add ::
  "'x auth_crate_scheme \<Rightarrow> write_io \<Rightarrow> store \<Rightarrow> string \<Rightarrow> session \<Rightarrow> files
   \<Rightarrow> (auth_error, unit) res \<times> store \<times> files" where
  "store_add X io st token sess fs =
     (if token = [] then (Inl EmptyToken, st, fs)
      else let sessions = (st_sessions st)(token \<mapsto> sess);
               (r, fs') = store_save X io st sessions fs in
        (r, st\<lparr>st_sessions := sessions\<rparr>, fs'))"

definition store_lookup :: "store \<Rightarrow> string \<Rightarrow> session option" where
  "store_lookup st token = (if token = [] then None else st_sessions st token)"

definition store_is_valid :: "store \<Rightarrow> string \<Rightarrow> string \<Rightarrow> bool" where
  "store_is_valid st token route =
     (token \<noteq> [] \<and> (case st_sessions st token of Some s \<Rightarrow> s_route s = route | None \<Rightarrow> False))"

definition store_remove ::
  "'x auth_crate_scheme \<Rightarrow> write_io \<Rightarrow> store \<Rightarrow> string \<Rightarrow> files
   \<Rightarrow> (auth_error, unit) res \<times> store \<times> files" where
  "store_remove X io st token fs =
     (if st_sessions st token = None then (Inr (), st, fs)
      else let sessions = (st_sessions st)(token := None);
               (r, fs') = store_save X io st sessions fs in
        (r, st\<lparr>st_sessions := sessions\<rparr>, fs'))"

section \<open>Signatures\<close>

text \<open>The bytes fed to the MAC: every part followed by a zero byte.\<close>

definition mac_input :: "string list \<Rightarrow> bytes" where
  "mac_input parts = concat (map (\<lambda>part. part @ [CHR 0x00]) parts)"

definition store_mac :: "'x auth_crate_scheme \<Rightarrow> store \<Rightarrow> string list \<Rightarrow> bytes" where
  "store_mac X st parts = hmac_sha256 X (st_secret st) (mac_input parts)"

definition store_sign :: "'x auth_crate_scheme \<Rightarrow> store \<Rightarrow> string list \<Rightarrow> string" where
  "store_sign X st parts = b64url_encode X (take 16 (store_mac X st parts))"

definition store_verify :: "'x auth_crate_scheme \<Rightarrow> store \<Rightarrow> string \<Rightarrow> string list \<Rightarrow> bool" where
  "store_verify X st signature parts =
     (case b64url_decode X signature of
        Some decoded \<Rightarrow> length decoded = 16 \<and> take 16 (store_mac X st parts) = decoded
      | None \<Rightarrow> False)"

section \<open>Tokens in requests\<close>

definition TOKEN_HEADERS :: "string list" where
  "TOKEN_HEADERS = [''x-emby-token'', ''x-mediabrowser-token'']"

definition AUTHORIZATION_HEADERS :: "string list" where
  "AUTHORIZATION_HEADERS = [''x-emby-authorization'', ''authorization'']"

definition TOKEN_QUERY_KEYS :: "string list" where
  "TOKEN_QUERY_KEYS = [''api_key'', ''apikey'', ''x-emby-token'', ''x-mediabrowser-token'']"

text \<open>What follows the word \<open>token\<close>: \<open>= "value"\<close> with optional blanks and quote.\<close>

definition token_value :: "string \<Rightarrow> string option" where
  "token_value s =
     (case dropWhile is_ascii_whitespace s of
        c # r \<Rightarrow>
          if c = CHR ''='' then
            (let r = dropWhile is_ascii_whitespace r;
                 r = (case r of q # r' \<Rightarrow> if q = CHR 0x22 then r' else r | [] \<Rightarrow> r);
                 t = takeWhile (\<lambda>x. x \<noteq> CHR 0x22 \<and> x \<noteq> CHR '','' \<and> \<not> is_ascii_whitespace x) r in
             if t \<noteq> [] then Some t else None)
          else None
      | [] \<Rightarrow> None)"

text \<open>The scan of \<^verbatim>\<open>authorization_token\<close> from one position on, given the byte before it.\<close>

fun authorization_scan :: "char option \<Rightarrow> string \<Rightarrow> string option" where
  "authorization_scan prev [] = None"
| "authorization_scan prev (c # cs) =
     (if length (c # cs) < 5 then None
      else
        (let at_boundary =
               (case prev of None \<Rightarrow> True | Some p \<Rightarrow> p \<in> {CHR '' '', CHR 0x09, CHR '',''});
             found = (if at_boundary \<and> eq_ignore_ascii_case (take 5 (c # cs)) ''token''
                      then token_value (drop 5 (c # cs)) else None) in
         case found of Some t \<Rightarrow> Some t | None \<Rightarrow> authorization_scan (Some c) cs))"

definition authorization_token :: "string \<Rightarrow> string option" where
  "authorization_token header = authorization_scan None header"

text \<open>The first name of the list for which the function answers.\<close>

fun first_some :: "('a \<Rightarrow> 'b option) \<Rightarrow> 'a list \<Rightarrow> 'b option" where
  "first_some f [] = None"
| "first_some f (x # xs) = (case f x of Some y \<Rightarrow> Some y | None \<Rightarrow> first_some f xs)"

definition request_token ::
  "'x http_crate_scheme \<Rightarrow> header_map \<Rightarrow> string option \<Rightarrow> string option" where
  "request_token X headers query =
     (case first_some (\<lambda>name.
             case map_option trim (header_str X headers name) of
               Some t \<Rightarrow> if t \<noteq> [] then Some t else None
             | None \<Rightarrow> None) TOKEN_HEADERS of
        Some token \<Rightarrow> Some token
      | None \<Rightarrow>
          (case first_some (\<lambda>name. Option.bind (header_str X headers name) authorization_token)
                  AUTHORIZATION_HEADERS of
             Some token \<Rightarrow> Some token
           | None \<Rightarrow>
               (case query of
                  None \<Rightarrow> None
                | Some query \<Rightarrow>
                    if query = [] then None
                    else
                      (let (pairs, _) = parse_query query in
                       map_option (\<lambda>(_, value). trim value)
                         (find (\<lambda>(key, value).
                             to_ascii_lowercase key \<in> set TOKEN_QUERY_KEYS \<and> trim value \<noteq> [])
                           pairs)))))"

section \<open>Atomic replacement\<close>

lemma write_private_file_states:
  assumes "io_tmp io \<noteq> path" "write_private_file io path data fs = (ok, trace)"
  shows "\<forall>f\<in>set trace. f path = fs path \<or> f path = Some (OWNER_ONLY, data)"
    and "trace \<noteq> []"
    and "last trace path = (if ok then Some (OWNER_ONLY, data) else fs path)"
    and "q \<noteq> path \<Longrightarrow> q \<noteq> io_tmp io \<Longrightarrow> last trace q = fs q"
  using assms
  by (auto simp: write_private_file_def write_steps_def Let_def split: if_splits)

lemma store_save_path:
  assumes "st_path st = Some p" "io_tmp io \<noteq> p" "store_save X io st ss fs = (r, fs')"
  shows "fs' p = (if r = Inr () then Some (OWNER_ONLY, store_to_json X
      \<lparr>sf_secret = b64_encode X (st_secret st), sf_sessions = Some ss\<rparr>) else fs p)"
    and "r = Inr () \<or> r = Inl SaveFailed"
proof -
  let ?d = "store_to_json X \<lparr>sf_secret = b64_encode X (st_secret st), sf_sessions = Some ss\<rparr>"
  obtain ok tr where w: "write_private_file io p ?d fs = (ok, tr)" by fastforce
  have "r = (if ok then Inr () else Inl SaveFailed)" "fs' = last tr"
    using assms w by (auto simp: store_save_def)
  with write_private_file_states(3) [OF assms(2) w]
  show "fs' p = (if r = Inr () then Some (OWNER_ONLY, ?d) else fs p)"
    and "r = Inr () \<or> r = Inl SaveFailed" by auto
qed

section \<open>The session contract\<close>

text \<open>
  What the auth gate relies on: a token is valid for a route exactly when the last
  operation on it was an addition for that route, and the empty token is never valid.
\<close>

datatype 'sess token_op = AddToken string 'sess | RemoveToken string

locale token_store =
  fixes valid :: "'s \<Rightarrow> string \<Rightarrow> string \<Rightarrow> bool"
    and add :: "'s \<Rightarrow> string \<Rightarrow> 'sess \<Rightarrow> 's"
    and remove :: "'s \<Rightarrow> string \<Rightarrow> 's"
    and route_of :: "'sess \<Rightarrow> string"
  assumes valid_empty: "\<not> valid s [] r"
    and valid_add: "valid (add s t e) t' r \<longleftrightarrow>
      (if t' = t \<and> t \<noteq> [] then route_of e = r else valid s t' r)"
    and valid_remove: "valid (remove s t) t' r \<longleftrightarrow> t' \<noteq> t \<and> valid s t' r"
begin

primrec apply_op :: "'s \<Rightarrow> 'sess token_op \<Rightarrow> 's" where
  "apply_op s (AddToken t e) = add s t e"
| "apply_op s (RemoveToken t) = remove s t"

lemma valid_origin:
  "valid (foldl apply_op s ops) t r \<Longrightarrow>
   valid s t r \<or> (\<exists>e. AddToken t e \<in> set ops \<and> route_of e = r)"
proof (induction ops arbitrary: s)
  case Nil
  then show ?case by simp
next
  case (Cons p ops)
  then have "valid (apply_op s p) t r \<or> (\<exists>e. AddToken t e \<in> set ops \<and> route_of e = r)"
    by simp
  then show ?case
  proof
    assume "valid (apply_op s p) t r"
    then show ?thesis
      by (cases p) (auto simp: valid_add valid_remove split: if_splits)
  qed auto
qed

lemma removed_stays_removed:
  assumes "\<forall>e. AddToken t e \<notin> set ops"
  shows "\<not> valid (foldl apply_op (remove s t) ops) t r"
  using assms valid_origin [of "remove s t" ops t r] by (auto simp: valid_remove)

end

definition sessions_add :: "store \<Rightarrow> string \<Rightarrow> session \<Rightarrow> store" where
  "sessions_add st t e = (if t = [] then st else st\<lparr>st_sessions := (st_sessions st)(t \<mapsto> e)\<rparr>)"

definition sessions_remove :: "store \<Rightarrow> string \<Rightarrow> store" where
  "sessions_remove st t = st\<lparr>st_sessions := (st_sessions st)(t := None)\<rparr>"

interpretation toks: token_store store_is_valid sessions_add sessions_remove s_route
  by unfold_locales (auto simp: store_is_valid_def sessions_add_def sessions_remove_def)

text \<open>The operations of the source refine these updates, whatever the disk does.\<close>

lemma store_add_refines:
  "fst (snd (store_add X io st t e fs)) = sessions_add st t e"
  by (simp add: store_add_def sessions_add_def split_beta Let_def)

lemma store_remove_refines:
  "fst (snd (store_remove X io st t fs)) = sessions_remove st t"
proof (cases "st_sessions st t")
  case None
  then have "(st_sessions st)(t := None) = st_sessions st" by auto
  with None show ?thesis by (simp add: store_remove_def sessions_remove_def)
next
  case Some
  then show ?thesis by (simp add: store_remove_def sessions_remove_def split_beta Let_def)
qed

lemma sessions_keep [simp]:
  "st_secret (sessions_add st t e) = st_secret st" "st_path (sessions_add st t e) = st_path st"
  "st_secret (sessions_remove st t) = st_secret st" "st_path (sessions_remove st t) = st_path st"
  by (simp_all add: sessions_add_def sessions_remove_def)

section \<open>Signatures\<close>

lemma mac_input_Cons: "mac_input (p # ps) = p @ CHR 0x00 # mac_input ps"
  by (simp add: mac_input_def)

lemma mac_input_inj:
  assumes "\<forall>p\<in>set ps. CHR 0x00 \<notin> set p" "\<forall>q\<in>set qs. CHR 0x00 \<notin> set q"
    and "mac_input ps = mac_input qs"
  shows "ps = qs"
  using assms
proof (induction ps arbitrary: qs)
  case Nil
  then show ?case by (cases qs) (auto simp: mac_input_def)
next
  case (Cons p ps)
  then obtain q qs' where qs: "qs = q # qs'" by (cases qs) (auto simp: mac_input_def)
  with Cons.prems have "p @ CHR 0x00 # mac_input ps = q @ CHR 0x00 # mac_input qs'"
    by (simp add: mac_input_Cons)
  from arg_cong [OF this, where f = "split_once (CHR 0x00)"]
  have "split_once (CHR 0x00) (p @ CHR 0x00 # mac_input ps)
      = split_once (CHR 0x00) (q @ CHR 0x00 # mac_input qs')" .
  moreover have "CHR 0x00 \<notin> set p" "CHR 0x00 \<notin> set q" using Cons.prems(1,2) qs by auto
  ultimately have "p = q \<and> mac_input ps = mac_input qs'"
    by (simp only: split_once_append option.inject prod.inject simp_thms)
  then have "p = q" "mac_input ps = mac_input qs'" by auto
  moreover have "ps = qs'" using Cons.IH [of qs'] Cons.prems(1,2) qs \<open>mac_input ps = mac_input qs'\<close>
    by simp
  ultimately show ?case using qs by simp
qed

text \<open>What base64 and HMAC document: decoding inverts encoding, and a tag has 32 bytes.\<close>

definition signing_laws :: "'x auth_crate_scheme \<Rightarrow> bool" where
  "signing_laws X \<longleftrightarrow> (\<forall>b. b64url_decode X (b64url_encode X b) = Some b)
     \<and> (\<forall>k m. length (hmac_sha256 X k m) = 32)"

lemma store_verify_sign:
  assumes "signing_laws X"
  shows "store_verify X st (store_sign X st ps) ps"
  using assms by (simp add: store_verify_def store_sign_def signing_laws_def store_mac_def)

lemma store_verify_tag:
  "store_verify X st sig ps \<Longrightarrow> b64url_decode X sig = Some (take 16 (store_mac X st ps))"
  by (auto simp: store_verify_def split: option.splits)

section \<open>Persistence\<close>

text \<open>
  What serde and base64 document for the state file: reading the JSON of a file gives the
  file back, and decoding inverts encoding.
\<close>

definition state_file :: "'x auth_crate_scheme \<Rightarrow> store \<Rightarrow> (string \<rightharpoonup> session) \<Rightarrow> store_file" where
  "state_file X st ss = \<lparr>sf_secret = b64_encode X (st_secret st), sf_sessions = Some ss\<rparr>"

definition file_law :: "'x auth_crate_scheme \<Rightarrow> store_file \<Rightarrow> bool" where
  "file_law X f \<longleftrightarrow> store_from_json X (store_to_json X f) = Some f
     \<and> (\<forall>b. b64_decode X (b64_encode X b) = Some b)"

lemma store_open_saved:
  assumes "file_law X (state_file X st ss)" "st_path st = Some p" "st_secret st \<noteq> []"
    "io_tmp io \<noteq> p" and "store_save X io st ss fs = (Inr (), fs')"
  shows "store_open X io' True rnd (Some p) fs' = (Inr (st\<lparr>st_sessions := ss\<rparr>), fs')"
proof -
  have "fs' p = Some (OWNER_ONLY, store_to_json X (state_file X st ss))"
    using store_save_path(1) [OF assms(2,4,5)] by (simp add: state_file_def)
  then show ?thesis
    using assms(1-3) by (cases st) (simp add: store_open_def file_law_def state_file_def Let_def)
qed

section \<open>Properties\<close>

text \<open>
  C21: Replacing a private file is atomic. At every moment of \<^verbatim>\<open>write_private_file\<close>, whatever
  system call fails, the target holds either exactly what it held before or the whole new
  data with mode 0600; it holds the new data in the end exactly when the call succeeds, and
  no other file than the temporary one is touched.
\<close>

theorem private_file_atomic:
  assumes "io_tmp io \<noteq> path" "write_private_file io path data fs = (ok, trace)"
  shows "(\<forall>f\<in>set trace. f path = fs path \<or> f path = Some (OWNER_ONLY, data))
    \<and> last trace path = (if ok then Some (OWNER_ONLY, data) else fs path)
    \<and> (\<forall>q. q \<noteq> path \<longrightarrow> q \<noteq> io_tmp io \<longrightarrow> last trace q = fs q)"
  using write_private_file_states [OF assms] by blast

definition io_sample :: write_io where
  "io_sample = \<lparr>io_parent = Some ''/data'', io_file_name = Some ''s'', io_suffix = 7,
     io_open = True, io_write = True, io_written = 0, io_sync = True, io_rename = True,
     io_remove = True\<rparr>"

lemma io_tmp_sample [simp]: "io_tmp io_sample = ''/data/s.tmp7''"
  by (simp add: io_tmp_def io_sample_def show_nat.simps)

theorem private_file_atomic_witness:
  "last (snd (write_private_file io_sample ''/data/s'' ''x'' Map.empty)) ''/data/s''
     = Some (OWNER_ONLY, ''x'')"
proof -
  have "write_private_file io_sample ''/data/s'' ''x'' Map.empty
      = (True, snd (write_private_file io_sample ''/data/s'' ''x'' Map.empty))"
    by (simp add: write_private_file_def write_steps_def Let_def, simp add: io_sample_def)
  from private_file_atomic [OF _ this] show ?thesis by simp
qed

text \<open>
  C12: A signature verifies for the parts it was made for, and when it verifies for other
  parts then the truncated HMAC has a collision on two different messages: the zero byte
  after every part keeps the messages of different part lists different.
\<close>

theorem signature_binds_parts:
  assumes "signing_laws X" "\<forall>p\<in>set ps. CHR 0x00 \<notin> set p" "\<forall>q\<in>set qs. CHR 0x00 \<notin> set q"
  shows "store_verify X st (store_sign X st ps) ps
    \<and> (store_verify X st (store_sign X st ps) qs \<longrightarrow> ps = qs \<or>
        mac_input ps \<noteq> mac_input qs \<and>
        take 16 (hmac_sha256 X (st_secret st) (mac_input ps))
          = take 16 (hmac_sha256 X (st_secret st) (mac_input qs)))"
  using assms mac_input_inj [OF assms(2,3)] store_verify_sign [OF assms(1), of st ps]
    store_verify_tag [of X st "store_sign X st ps" qs]
  by (auto simp: store_sign_def signing_laws_def store_mac_def)

definition crate_sample :: auth_crate where
  "crate_sample = \<lparr>hv_to_str = Some, hn_from_bytes = Some, hv_from_str = Some,
     uri_path_of = (\<lambda>s. Some (before_first (CHR ''?'') s)),
     b64_encode = id, b64_decode = Some, b64url_encode = id, b64url_decode = Some,
     hmac_sha256 = (\<lambda>k m. take 32 (m @ k @ replicate 32 (CHR 0x00))),
     store_to_json = (\<lambda>f. []), store_from_json = (\<lambda>_. None)\<rparr>"

lemma crate_sample_laws: "signing_laws crate_sample"
  by (auto simp: signing_laws_def crate_sample_def)

theorem signature_binds_parts_witness:
  "store_verify crate_sample \<lparr>st_path = None, st_secret = ''k'', st_sessions = Map.empty\<rparr>
     (store_sign crate_sample \<lparr>st_path = None, st_secret = ''k'', st_sessions = Map.empty\<rparr>
       [''resource'', ''web'']) [''resource'', ''web'']"
  using signature_binds_parts [OF crate_sample_laws, of "[''resource'', ''web'']" "[]"] by simp

text \<open>
  C20: A login survives a restart. When \<^verbatim>\<open>add\<close> reports success on a store with a file,
  opening that file again gives the very same store, secret and all sessions included, so
  the token is valid on its route and every signature made before still verifies.
\<close>

theorem add_survives_restart:
  assumes "store_add X io st token sess fs = (Inr (), st', fs')"
    and "file_law X (state_file X st (st_sessions st'))"
    and "st_path st = Some p" "st_secret st \<noteq> []" "io_tmp io \<noteq> p"
  shows "store_open X io' True rnd (Some p) fs' = (Inr st', fs')
    \<and> store_is_valid st' token (s_route sess)
    \<and> (\<forall>sig parts. store_verify X st' sig parts = store_verify X st sig parts)"
proof -
  have tok: "token \<noteq> []" using assms(1) by (auto simp: store_add_def)
  then have st': "st' = st\<lparr>st_sessions := (st_sessions st)(token \<mapsto> sess)\<rparr>"
    and save: "store_save X io st (st_sessions st') fs = (Inr (), fs')"
    using assms(1) by (auto simp: store_add_def Let_def split: prod.splits)
  have "st\<lparr>st_sessions := st_sessions st'\<rparr> = st'" using st' by simp
  with store_open_saved [OF assms(2-5) save] tok st' show ?thesis
    by (simp add: store_is_valid_def store_verify_def store_mac_def cong: option.case_cong)
qed

definition sess_sample :: session where
  "sess_sample = \<lparr>s_route = ''emby'', s_user_id = ''u'', s_user_name = ''ann'', s_created_at = ''t''\<rparr>"

definition store_sample :: store where
  "store_sample = \<lparr>st_path = Some ''/data/s'', st_secret = ''k'', st_sessions = Map.empty\<rparr>"

definition crate_sample_json :: auth_crate where
  "crate_sample_json = crate_sample
     \<lparr>store_to_json := (\<lambda>_. ''{}''),
      store_from_json := (\<lambda>_. Some \<lparr>sf_secret = ''k'', sf_sessions = Some [''t'' \<mapsto> sess_sample]\<rparr>)\<rparr>"

theorem add_survives_restart_witness:
  "\<exists>fs'. store_open crate_sample_json io_sample True None (Some ''/data/s'') fs'
     = (Inr (store_sample\<lparr>st_sessions := [''t'' \<mapsto> sess_sample]\<rparr>), fs')"
proof -
  let ?fs = "last (snd (write_private_file io_sample ''/data/s'' ''{}'' Map.empty))"
  have "store_add crate_sample_json io_sample store_sample ''t'' sess_sample Map.empty
      = (Inr (), store_sample\<lparr>st_sessions := [''t'' \<mapsto> sess_sample]\<rparr>, ?fs)"
    by (simp add: store_add_def store_save_def store_sample_def crate_sample_json_def
        write_private_file_def write_steps_def Let_def crate_sample_def, simp add: io_sample_def)
  from add_survives_restart [OF this, of "''/data/s''"] show ?thesis
    by (auto simp: file_law_def state_file_def crate_sample_json_def crate_sample_def store_sample_def)
qed

text \<open>
  The store applies \<^verbatim>\<open>add\<close> and \<^verbatim>\<open>remove\<close> in memory even when it cannot save. In
  particular a login whose \<^verbatim>\<open>add\<close> fails on disk is answered with an error by the handler,
  yet its token is accepted afterwards; the file, and so the store after a restart, does not
  know it.
\<close>

lemma failed_save_keeps_session:
  assumes "token \<noteq> []" "st_path st = Some p" "io_tmp io \<noteq> p" "\<not> io_open io"
  shows "\<exists>st' fs'. store_add X io st token sess fs = (Inl SaveFailed, st', fs')
    \<and> store_is_valid st' token (s_route sess) \<and> fs' p = fs p"
  using assms
  by (auto simp: store_add_def store_save_def write_private_file_def write_steps_def
      store_is_valid_def Let_def)

text \<open>One \<^verbatim>\<open>add\<close> or \<^verbatim>\<open>remove\<close> with its system calls, and a history of them.\<close>

fun store_op ::
  "'x auth_crate_scheme \<Rightarrow> store \<times> files \<Rightarrow> write_io \<times> session token_op \<Rightarrow> store \<times> files" where
  "store_op X (st, fs) (io, AddToken t e) = snd (store_add X io st t e fs)"
| "store_op X (st, fs) (io, RemoveToken t) = snd (store_remove X io st t fs)"

lemma store_history:
  "fst (foldl (store_op X) (st, fs) ops) = foldl toks.apply_op st (map snd ops)"
proof (induction ops arbitrary: st fs)
  case (Cons p ops)
  obtain io q where p: "p = (io, q)" by (cases p)
  obtain st' fs' where s: "store_op X (st, fs) p = (st', fs')" by fastforce
  have "st' = toks.apply_op st q"
    using s store_add_refines [of X io st _ _ fs] store_remove_refines [of X io st _ fs]
    unfolding p by (cases q; simp; metis fst_conv)
  then show ?case using Cons.IH [of st' fs'] s p by simp
qed simp

text \<open>
  Tokens come from logins only. After any sequence of additions and removals, with any
  of the saves failing, a token that is valid on a route was either valid there at the
  start or added for that very route; and once removed it stays invalid on every route
  until it is added again.
\<close>

lemma token_origin:
  "(store_is_valid (fst (foldl (store_op X) (st, fs) ops)) t r \<longrightarrow>
      store_is_valid st t r \<or> (\<exists>io e. (io, AddToken t e) \<in> set ops \<and> s_route e = r))
   \<and> ((\<forall>io e. (io, AddToken t e) \<notin> set ops) \<longrightarrow>
      \<not> store_is_valid (fst (foldl (store_op X) (st, fs) ((io0, RemoveToken t) # ops))) t r)"
proof -
  have rem: "fst (foldl (store_op X) (st, fs) ((io0, RemoveToken t) # ops))
      = foldl toks.apply_op (sessions_remove st t) (map snd ops)"
    using store_history [of X st fs "(io0, RemoveToken t) # ops"] by simp
  show ?thesis unfolding rem unfolding store_history
    using toks.valid_origin [of st "map snd ops" t r] toks.removed_stays_removed [of t "map snd ops" st r]
    by (force simp: image_iff)
qed

section \<open>The token of a request\<close>

lemma token_value_ne: "token_value s = Some t \<Longrightarrow> t \<noteq> []"
  by (auto simp: token_value_def Let_def split: list.splits if_splits)

lemma authorization_scan_ne: "authorization_scan p s = Some t \<Longrightarrow> t \<noteq> []"
proof (induction p s rule: authorization_scan.induct)
  case (2 prev c cs)
  then show ?case
    by (auto simp: Let_def dest: token_value_ne split: if_splits option.splits)
qed simp

lemma first_some_Some: "first_some f xs = Some y \<Longrightarrow> \<exists>x\<in>set xs. f x = Some y"
  by (induction xs) (auto split: option.splits)

lemma request_token_ne: "request_token X headers query = Some t \<Longrightarrow> t \<noteq> []"
  by (auto simp: request_token_def authorization_token_def bind_eq_Some_conv Let_def
      split: option.splits if_splits prod.splits
      dest!: first_some_Some find_Some_set dest: authorization_scan_ne)

end
