(* ===== verification/Json_Scan.thy ===== *)
theory Json_Scan
  imports Rust_Str
begin

text \<open>
  The JSON scanner of \<^verbatim>\<open>src/src/rewrite.rs\<close>. The cursor \<^verbatim>\<open>pos\<close> is represented by the rest
  of the input: \<^verbatim>\<open>bytes.get(pos)\<close> is the head of the rest, moving the cursor drops bytes,
  and the position itself, needed only for the spans of found strings, is the length of the
  text less the length of the rest. The mutual recursion of \<^verbatim>\<open>value\<close>, \<^verbatim>\<open>object\<close> and
  \<^verbatim>\<open>array\<close> runs on fuel; two units per byte and two more are always enough
  (\<open>value_fuel\<close>).
\<close>

section \<open>Data\<close>

datatype segment = Key string | Index nat

record found_string =
  f_start :: nat
  f_end :: nat
  f_path :: string
  f_value :: string

definition MAX_DEPTH :: nat where
  "MAX_DEPTH = 512"

section \<open>Tokens\<close>

definition json_ws :: "char \<Rightarrow> bool" where
  "json_ws c \<longleftrightarrow> c \<in> {CHR '' '', CHR 0x09, CHR 0x0A, CHR 0x0D}"

definition skip_ws :: "string \<Rightarrow> string" where
  "skip_ws s = dropWhile json_ws s"

definition literal :: "string \<Rightarrow> string \<Rightarrow> string option" where
  "literal w s = strip_prefix w s"

definition skip_digits :: "string \<Rightarrow> string" where
  "skip_digits s = dropWhile is_ascii_digit s"

definition digits1 :: "string \<Rightarrow> string option" where
  "digits1 s = (if length (skip_digits s) < length s then Some (skip_digits s) else None)"

text \<open>The parts of \<^verbatim>\<open>number\<close>: sign, integer, fraction, exponent.\<close>

definition number_int :: "string \<Rightarrow> string option" where
  "number_int s =
     (case s of
        c # r \<Rightarrow> if c = CHR ''0'' then Some r else if is_ascii_digit c then digits1 s else None
      | [] \<Rightarrow> None)"

definition number_frac :: "string \<Rightarrow> string option" where
  "number_frac s =
     (case s of c # r \<Rightarrow> if c = CHR ''.'' then digits1 r else Some s | [] \<Rightarrow> Some s)"

definition number_exp :: "string \<Rightarrow> string option" where
  "number_exp s =
     (case s of
        c # r \<Rightarrow>
          if c = CHR ''e'' \<or> c = CHR ''E'' then
            digits1 (case r of d # r' \<Rightarrow> if d = CHR ''+'' \<or> d = CHR ''-'' then r' else r | [] \<Rightarrow> r)
          else Some s
      | [] \<Rightarrow> Some s)"

definition number :: "string \<Rightarrow> string option" where
  "number s =
     (let r = (case s of c # r \<Rightarrow> if c = CHR ''-'' then r else s | [] \<Rightarrow> s) in
      Option.bind (number_int r) (\<lambda>r. Option.bind (number_frac r) number_exp))"

section \<open>Strings\<close>

definition hex_digit :: "char \<Rightarrow> nat option" where
  "hex_digit c =
     (let b = byte c in
      if 48 \<le> b \<and> b \<le> 57 then Some (b - 48)
      else if 97 \<le> b \<and> b \<le> 102 then Some (b - 87)
      else if 65 \<le> b \<and> b \<le> 70 then Some (b - 55)
      else None)"

text \<open>\<^verbatim>\<open>u32::from_str_radix(_, 16)\<close> on four bytes: an optional plus sign, then hex digits.\<close>

fun hex_digits :: "nat \<Rightarrow> string \<Rightarrow> nat option" where
  "hex_digits acc [] = Some acc"
| "hex_digits acc (c # s) =
     (case hex_digit c of Some d \<Rightarrow> hex_digits (16 * acc + d) s | None \<Rightarrow> None)"

definition from_str_radix16 :: "string \<Rightarrow> nat option" where
  "from_str_radix16 s =
     (let d = (case s of c # r \<Rightarrow> if c = CHR ''+'' then r else s | [] \<Rightarrow> s) in
      if d = [] then None else hex_digits 0 d)"

text \<open>\<open>hex4\<close> is given the text after the \<^verbatim>\<open>u\<close> and leaves the text after the fourth digit.\<close>

definition hex4 :: "string \<Rightarrow> (nat \<times> string) option" where
  "hex4 r =
     (if length r < 4 then None
      else map_option (\<lambda>v. (v, drop 4 r)) (from_str_radix16 (take 4 r)))"

text \<open>\<^verbatim>\<open>char::from_u32\<close> and \<^verbatim>\<open>String::push\<close>: a character as its UTF-8 bytes.\<close>

definition is_scalar :: "nat \<Rightarrow> bool" where
  "is_scalar n \<longleftrightarrow> n < 0xD800 \<or> 0xE000 \<le> n \<and> n < 0x110000"

definition utf8_encode :: "nat \<Rightarrow> string" where
  "utf8_encode n =
     (if n < 0x80 then [char_of n]
      else if n < 0x800 then [char_of (0xC0 + n div 64), char_of (0x80 + n mod 64)]
      else if n < 0x10000 then
        [char_of (0xE0 + n div 4096), char_of (0x80 + n div 64 mod 64), char_of (0x80 + n mod 64)]
      else
        [char_of (0xF0 + n div 262144), char_of (0x80 + n div 4096 mod 64),
         char_of (0x80 + n div 64 mod 64), char_of (0x80 + n mod 64)])"

definition push_char :: "nat option \<Rightarrow> string" where
  "push_char c = (case c of Some n \<Rightarrow> if is_scalar n then utf8_encode n else utf8_encode 0xFFFD
                          | None \<Rightarrow> utf8_encode 0xFFFD)"

definition unicode_escape :: "string \<Rightarrow> (string \<times> string) option" where
  "unicode_escape r =
     (case hex4 r of
        None \<Rightarrow> None
      | Some (hi, r) \<Rightarrow>
          if 0xD800 \<le> hi \<and> hi < 0xDC00 \<and> prefix [CHR 0x5C, CHR ''u''] r then
            (case hex4 (drop 2 r) of
               None \<Rightarrow> None
             | Some (lo, r) \<Rightarrow>
                 Some (push_char (if 0xDC00 \<le> lo \<and> lo < 0xE000
                         then Some (0x10000 + (hi - 0xD800) * 1024 + (lo - 0xDC00)) else None), r))
          else Some (push_char (Some hi), r))"

definition simple_escape :: "char \<Rightarrow> char option" where
  "simple_escape c =
     (if c = CHR 0x22 \<or> c = CHR 0x5C \<or> c = CHR ''/'' then Some c
      else if c = CHR ''b'' then Some (CHR 0x08)
      else if c = CHR ''f'' then Some (CHR 0x0C)
      else if c = CHR ''n'' then Some (CHR 0x0A)
      else if c = CHR ''r'' then Some (CHR 0x0D)
      else if c = CHR ''t'' then Some (CHR 0x09)
      else None)"

lemma hex4_length: "hex4 r = Some (v, r') \<Longrightarrow> length r = length r' + 4"
  by (auto simp: hex4_def split: if_splits)

lemma unicode_escape_length: "unicode_escape r = Some (c, r') \<Longrightarrow> length r' < length r"
  by (auto simp: unicode_escape_def dest!: hex4_length split: option.splits if_splits)

text \<open>
  The slow path. A character above ASCII is copied byte by byte, which is the same as
  copying it whole, as none of its bytes is a quote, a backslash or a control byte.
\<close>

function string_slow :: "string \<Rightarrow> string \<Rightarrow> (string \<times> string) option" where
  "string_slow out s =
     (case s of
        [] \<Rightarrow> None
      | c # r \<Rightarrow>
          if c = CHR 0x22 then Some (out, r)
          else if c = CHR 0x5C then
            (case r of
               [] \<Rightarrow> None
             | e # r' \<Rightarrow>
                 if e = CHR ''u'' then
                   (case unicode_escape r' of
                      Some (u, r'') \<Rightarrow> string_slow (out @ u) r''
                    | None \<Rightarrow> None)
                 else
                   (case simple_escape e of
                      Some x \<Rightarrow> string_slow (out @ [x]) r'
                    | None \<Rightarrow> None))
          else if byte c < 0x20 then None
          else string_slow (out @ [c]) r)"
  by auto
termination
  by (relation "measure (length \<circ> snd)") (auto dest: unicode_escape_length)

declare string_slow.simps [simp del]

definition plain_char :: "char \<Rightarrow> bool" where
  "plain_char c \<longleftrightarrow> c \<noteq> CHR 0x22 \<and> c \<noteq> CHR 0x5C \<and> \<not> byte c < 0x20"

text \<open>\<open>jstring\<close> is given the text from the opening quote on.\<close>

definition jstring :: "string \<Rightarrow> (string \<times> string) option" where
  "jstring s =
     (let r = tl s; fast = takeWhile plain_char r in
      case dropWhile plain_char r of
        [] \<Rightarrow> None
      | c # r' \<Rightarrow>
          if c = CHR 0x22 then Some (fast, r')
          else if c = CHR 0x5C then string_slow fast (c # r')
          else None)"

section \<open>Values\<close>

definition escape_key :: "string \<Rightarrow> string" where
  "escape_key key =
     concat (map (\<lambda>c. if c \<in> {CHR 0x5C, CHR ''.'', CHR ''*'', CHR ''?''}
                       then [CHR 0x5C, c] else [c]) key)"

definition segment_text :: "segment \<Rightarrow> string" where
  "segment_text g = (case g of Index i \<Rightarrow> show_nat i | Key key \<Rightarrow> escape_key key)"

definition json_path :: "segment list \<Rightarrow> string" where
  "json_path stack =
     foldl (\<lambda>out g. (if out \<noteq> [] then out @ ''.'' else out) @ segment_text g) [] stack"

definition is_url_text :: "string \<Rightarrow> bool" where
  "is_url_text v \<longleftrightarrow> prefix ''http://'' v \<or> prefix ''https://'' v"

type_synonym scanned = "(string \<times> found_string list) option"

text \<open>
  The arms of \<^verbatim>\<open>value\<close> that do not recurse, the head of one round of the loop of
  \<^verbatim>\<open>object\<close> (blanks, key, colon) and the tail of one round of either loop: whether another
  round follows, and the rest. \<open>len\<close> is the length of the whole text.
\<close>

definition jscalar :: "nat \<Rightarrow> segment list \<Rightarrow> string \<Rightarrow> found_string list \<Rightarrow> scanned" where
  "jscalar len stack s found =
     (let c = hd s in
      if c = CHR 0x22 then
        (case jstring s of
           None \<Rightarrow> None
         | Some (v, r) \<Rightarrow>
             Some (r, if is_url_text v
               then found @ [\<lparr>f_start = len - length s, f_end = len - length r,
                              f_path = json_path stack, f_value = v\<rparr>]
               else found))
      else if c = CHR ''t'' then map_option (\<lambda>r. (r, found)) (literal ''true'' s)
      else if c = CHR ''f'' then map_option (\<lambda>r. (r, found)) (literal ''false'' s)
      else if c = CHR ''n'' then map_option (\<lambda>r. (r, found)) (literal ''null'' s)
      else if c = CHR ''-'' \<or> is_ascii_digit c then map_option (\<lambda>r. (r, found)) (number s)
      else None)"

definition object_key :: "string \<Rightarrow> (string \<times> string) option" where
  "object_key s =
     (case skip_ws s of
        [] \<Rightarrow> None
      | q # r \<Rightarrow>
          if q \<noteq> CHR 0x22 then None
          else
            (case jstring (q # r) of
               None \<Rightarrow> None
             | Some (key, r) \<Rightarrow>
                 (case skip_ws r of
                    [] \<Rightarrow> None
                  | k # r \<Rightarrow> if k \<noteq> CHR '':'' then None else Some (key, r))))"

definition separator :: "char \<Rightarrow> string \<Rightarrow> (bool \<times> string) option" where
  "separator close s =
     (case skip_ws s of
        [] \<Rightarrow> None
      | d # r \<Rightarrow> if d = CHR '','' then Some (True, r)
                 else if d = close then Some (False, r) else None)"

text \<open>
  \<open>object_loop\<close> and \<open>array_loop\<close> are the loops of \<^verbatim>\<open>object\<close> and \<^verbatim>\<open>array\<close>; the test for the
  empty object or array in front of them is in \<open>jvalue\<close>.
\<close>

function (sequential) jvalue :: "nat \<Rightarrow> nat \<Rightarrow> segment list \<Rightarrow> string \<Rightarrow> found_string list \<Rightarrow> scanned"
and object_loop :: "nat \<Rightarrow> nat \<Rightarrow> segment list \<Rightarrow> string \<Rightarrow> found_string list \<Rightarrow> scanned"
and array_loop :: "nat \<Rightarrow> nat \<Rightarrow> nat \<Rightarrow> segment list \<Rightarrow> string \<Rightarrow> found_string list \<Rightarrow> scanned"
where
  "jvalue 0 len stack s found = None"
| "jvalue (Suc fuel) len stack s found =
     (if MAX_DEPTH < length stack \<or> skip_ws s = [] then None
      else let c = hd (skip_ws s); r = skip_ws (tl (skip_ws s)) in
        if c = CHR ''{'' then
          if prefix [CHR ''}''] r then Some (tl r, found)
          else object_loop fuel len stack r found
        else if c = CHR ''['' then
          if prefix [CHR '']''] r then Some (tl r, found)
          else array_loop fuel len 0 stack r found
        else jscalar len stack (skip_ws s) found)"
| "object_loop 0 len stack s found = None"
| "object_loop (Suc fuel) len stack s found =
     (case object_key s of
        None \<Rightarrow> None
      | Some (key, r) \<Rightarrow>
          (case jvalue fuel len (stack @ [Key key]) r found of
             None \<Rightarrow> None
           | Some (r, found) \<Rightarrow>
               (case separator (CHR ''}'') r of
                  None \<Rightarrow> None
                | Some (again, r) \<Rightarrow>
                    if again then object_loop fuel len stack r found else Some (r, found))))"
| "array_loop 0 len index stack s found = None"
| "array_loop (Suc fuel) len index stack s found =
     (case jvalue fuel len (stack @ [Index index]) s found of
        None \<Rightarrow> None
      | Some (r, found) \<Rightarrow>
          (case separator (CHR '']'') r of
             None \<Rightarrow> None
           | Some (again, r) \<Rightarrow>
               if again then array_loop fuel len (Suc index) stack r found else Some (r, found)))"
  by pat_completeness auto
termination
  by (relation "measure (\<lambda>x. case x of Inl (fuel, _) \<Rightarrow> fuel | Inr (Inl (fuel, _)) \<Rightarrow> fuel
        | Inr (Inr (fuel, _)) \<Rightarrow> fuel)") simp_all

declare jvalue.simps(2) [simp del] object_loop.simps(2) [simp del] array_loop.simps(2) [simp del]

definition scan_fuel :: "nat \<Rightarrow> string \<Rightarrow> found_string list option" where
  "scan_fuel fuel s =
     (case jvalue fuel (length s) [] s [] of
        Some (r, found) \<Rightarrow> if skip_ws r = [] then Some found else None
      | None \<Rightarrow> None)"

definition scan :: "string \<Rightarrow> found_string list option" where
  "scan s = scan_fuel (2 * length s + 2) s"

section \<open>Progress\<close>

lemma skip_ws_suffix: "suffix (skip_ws s) s"
  by (simp add: skip_ws_def suffix_dropWhile)

lemma skip_ws_Cons: "skip_ws s = c # r \<Longrightarrow> suffix (c # r) s"
  using skip_ws_suffix [of s] by simp

lemma suffix_shorter: "suffix (c # r) s \<Longrightarrow> suffix r s \<and> length r < length s"
  by (auto simp: suffix_def)

lemma suffix_drop_len: "suffix r s \<Longrightarrow> drop (length s - length r) s = r"
  by (auto simp: suffix_def)

lemma hex4_suffix: "hex4 r = Some (v, r') \<Longrightarrow> suffix r' r"
  by (auto simp: hex4_def suffix_drop split: if_splits)

lemma unicode_escape_suffix: "unicode_escape r = Some (c, r') \<Longrightarrow> suffix r' r"
  by (auto simp: unicode_escape_def dest!: hex4_suffix split: option.splits if_splits
      intro: suffix_order.trans [OF suffix_order.trans [OF _ suffix_drop [of 2]]])

lemma string_slow_suffix: "string_slow out s = Some (v, r) \<Longrightarrow> suffix r s \<and> length r < length s"
proof (induction out s rule: string_slow.induct)
  case (1 out s)
  show ?case
  proof (cases s)
    case Nil
    then show ?thesis using 1(4) by (simp add: string_slow.simps)
  next
    case (Cons c cs)
    consider "c = CHR 0x22" | "c \<noteq> CHR 0x22" "c = CHR 0x5C" | "c \<noteq> CHR 0x22" "c \<noteq> CHR 0x5C" by blast
    then show ?thesis
    proof cases
      case 1
      then show ?thesis using Cons "1.prems" by (simp add: string_slow.simps suffix_ConsI)
    next
      case 2
      then obtain e r' where cs: "cs = e # r'" using Cons "1.prems"
        by (cases cs) (simp_all add: string_slow.simps)
      show ?thesis
      proof (cases "e = CHR ''u''")
        case True
        have "string_slow out s
            = (case unicode_escape r' of Some (u, r'') \<Rightarrow> string_slow (out @ u) r'' | None \<Rightarrow> None)"
          unfolding string_slow.simps [of out s] using True 2 Cons cs by simp
        then obtain u r'' where u: "unicode_escape r' = Some (u, r'')"
          and "string_slow (out @ u) r'' = Some (v, r)"
          using "1.prems" by (auto split: option.splits)
        with "1.IH"(1) [OF Cons 2 cs True u refl] unicode_escape_suffix [OF u] cs Cons
        show ?thesis by (auto intro: suffix_order.trans suffix_ConsI dest: suffix_length_le)
      next
        case False
        have "string_slow out s
            = (case simple_escape e of Some x \<Rightarrow> string_slow (out @ [x]) r' | None \<Rightarrow> None)"
          unfolding string_slow.simps [of out s] using False 2 Cons cs by simp
        then obtain x where x: "simple_escape e = Some x"
          and "string_slow (out @ [x]) r' = Some (v, r)"
          using "1.prems" by (auto split: option.splits)
        with "1.IH"(2) [OF Cons 2 cs False x] cs Cons show ?thesis
          by (auto intro: suffix_ConsI)
      qed
    next
      case 3
      have "string_slow out s = (if byte c < 0x20 then None else string_slow (out @ [c]) cs)"
        unfolding string_slow.simps [of out s] using 3 Cons by simp
      then have "\<not> byte c < 0x20" "string_slow (out @ [c]) cs = Some (v, r)"
        using "1.prems" by (auto split: if_splits)
      with "1.IH"(3) [OF Cons 3] Cons show ?thesis by (auto intro: suffix_ConsI)
    qed
  qed
qed

lemma jstring_suffix:
  assumes "jstring (q # s) = Some (v, r)"
  shows "suffix r (q # s) \<and> length r < length (q # s)"
proof -
  obtain c cs where d: "dropWhile plain_char s = c # cs"
    using assms by (cases "dropWhile plain_char s") (auto simp: jstring_def)
  have suf: "suffix (c # cs) s" using suffix_dropWhile [of plain_char s] d by simp
  then have cs: "suffix cs s" "length cs < length s" using suffix_shorter [OF suf] by auto
  have "r = cs \<or> suffix r (c # cs) \<and> length r < length (c # cs)"
    using assms d string_slow_suffix [of "takeWhile plain_char s" "c # cs" v r]
    by (auto simp: jstring_def Let_def split: if_splits)
  then show ?thesis
    using cs suf by (auto intro: suffix_ConsI suffix_order.trans dest: suffix_length_le)
qed

lemma digits1_suffix: "digits1 s = Some r \<Longrightarrow> suffix r s \<and> length r < length s"
  by (auto simp: digits1_def skip_digits_def suffix_dropWhile split: if_splits)

lemma number_suffix:
  assumes "number s = Some r"
  shows "suffix r s \<and> length r < length s"
proof -
  let ?s = "case s of c # r \<Rightarrow> if c = CHR ''-'' then r else s | [] \<Rightarrow> s"
  obtain a b where a: "number_int ?s = Some a" and b: "number_frac a = Some b"
    and r: "number_exp b = Some r"
    using assms by (auto simp: number_def Let_def bind_eq_Some_conv)
  have s: "suffix ?s s" by (auto simp: suffix_ConsI split: list.splits)
  have 1: "suffix a ?s \<and> length a < length ?s"
    using a by (auto simp: number_int_def suffix_ConsI dest: digits1_suffix split: list.splits if_splits)
  have 2: "suffix b a"
    using b by (auto simp: number_frac_def dest!: digits1_suffix intro: suffix_ConsI
        split: list.splits if_splits)
  have 3: "suffix r b"
    using r by (auto simp: number_exp_def dest!: digits1_suffix intro: suffix_ConsI
        split: list.splits if_splits)
  have "suffix r a" using 2 3 by (rule suffix_order.trans [rotated])
  with 1 s show ?thesis
    by (meson le_less_trans less_le_trans suffix_length_le suffix_order.trans)
qed

lemma literal_suffix: "w \<noteq> [] \<Longrightarrow> literal w s = Some r \<Longrightarrow> suffix r s \<and> length r < length s"
  by (auto simp: literal_def strip_prefix_Some suffix_def)

text \<open>What every reader of the scanner does: it moves on, inside the same text.\<close>

definition moves :: "string \<Rightarrow> string \<Rightarrow> bool" where
  "moves s r \<longleftrightarrow> suffix r s \<and> length r < length s"

lemma moves_trans: "moves s r \<Longrightarrow> moves r t \<Longrightarrow> moves s t"
  "suffix r s \<Longrightarrow> moves r t \<Longrightarrow> moves s t" "moves s r \<Longrightarrow> suffix t r \<Longrightarrow> moves s t"
  by (auto simp: moves_def intro: suffix_order.trans dest: suffix_length_le)

lemma moves_skip_ws: "moves (skip_ws s) t \<Longrightarrow> moves s t"
  using moves_trans(2) skip_ws_suffix by blast

lemma moves_tl: "s \<noteq> [] \<Longrightarrow> moves s (tl s)"
  by (cases s) (auto simp: moves_def intro: suffix_ConsI)

lemma moves_shorter: "moves s r \<Longrightarrow> length r < length s"
  by (simp add: moves_def)

lemma separator_moves: "separator d s = Some (again, r) \<Longrightarrow> moves s r"
  by (rule moves_skip_ws) (auto simp: separator_def moves_def intro: suffix_ConsI
      split: list.splits if_splits)

lemma object_key_Some:
  assumes "object_key s = Some (key, r)"
  obtains t u where "skip_ws s = CHR 0x22 # t" "jstring (CHR 0x22 # t) = Some (key, u)"
    "skip_ws u = CHR '':'' # r"
proof -
  obtain q t where s: "skip_ws s = q # t"
    using assms by (cases "skip_ws s") (simp_all add: object_key_def)
  then have q: "q = CHR 0x22" using assms by (simp add: object_key_def split: if_splits)
  with s assms obtain k u where j: "jstring (CHR 0x22 # t) = Some (k, u)"
    by (cases "jstring (CHR 0x22 # t)") (auto simp: object_key_def)
  with s q assms obtain d v where u: "skip_ws u = d # v"
    by (cases "skip_ws u") (simp_all add: object_key_def)
  with s q j assms have "d = CHR '':''" "k = key" "v = r"
    by (simp_all add: object_key_def split: if_splits)
  with s q j u that show thesis by simp
qed

lemma object_key_moves: "object_key s = Some (key, r) \<Longrightarrow> moves s r"
proof (elim object_key_Some)
  fix t u
  assume s: "skip_ws s = CHR 0x22 # t" and j: "jstring (CHR 0x22 # t) = Some (key, u)"
    and u: "skip_ws u = CHR '':'' # r"
  have "moves (CHR 0x22 # t) u" using jstring_suffix [OF j] by (simp add: moves_def)
  moreover have "moves u r" using suffix_shorter [OF skip_ws_Cons [OF u]] by (simp add: moves_def)
  ultimately have "moves (skip_ws s) r" using moves_trans(1) s by simp
  then show "moves s r" by (rule moves_skip_ws)
qed

section \<open>Found spans\<close>

text \<open>
  A span is a string literal of the text that holds an absolute URL, and the spans found
  between two positions are in order and do not overlap.
\<close>

definition span_ok :: "string \<Rightarrow> found_string \<Rightarrow> bool" where
  "span_ok text f \<longleftrightarrow> f_start f < f_end f \<and> f_end f \<le> length text \<and> text ! f_start f = CHR 0x22
     \<and> jstring (drop (f_start f) text) = Some (f_value f, drop (f_end f) text)
     \<and> is_url_text (f_value f)"

fun spans_between :: "nat \<Rightarrow> found_string list \<Rightarrow> nat \<Rightarrow> bool" where
  "spans_between lo [] hi = (lo \<le> hi)"
| "spans_between lo (f # fs) hi = (lo \<le> f_start f \<and> spans_between (f_end f) fs hi)"

lemma spans_between_weaken:
  "spans_between lo fs hi \<Longrightarrow> lo' \<le> lo \<Longrightarrow> hi \<le> hi' \<Longrightarrow> spans_between lo' fs hi'"
  by (induction fs arbitrary: lo lo') auto

lemma spans_between_append:
  "spans_between lo fs mid \<Longrightarrow> spans_between mid gs hi \<Longrightarrow> spans_between lo (fs @ gs) hi"
  by (induction fs arbitrary: lo) (auto intro: spans_between_weaken)

text \<open>What scanning from \<open>s\<close> to \<open>r\<close> adds to the spans found before.\<close>

definition adds_spans ::
  "string \<Rightarrow> string \<Rightarrow> found_string list \<Rightarrow> string \<Rightarrow> found_string list \<Rightarrow> bool" where
  "adds_spans text s found r found' \<longleftrightarrow> moves s r \<and>
     (\<exists>new. found' = found @ new \<and> (\<forall>f\<in>set new. span_ok text f)
        \<and> spans_between (length text - length s) new (length text - length r))"

lemma adds_spans_trans:
  assumes "adds_spans text s f r g" "adds_spans text r g t h"
  shows "adds_spans text s f t h"
proof -
  from assms(1) obtain a where a: "moves s r" "g = f @ a" "\<forall>f\<in>set a. span_ok text f"
    "spans_between (length text - length s) a (length text - length r)"
    by (auto simp: adds_spans_def)
  from assms(2) obtain b where b: "moves r t" "h = g @ b" "\<forall>f\<in>set b. span_ok text f"
    "spans_between (length text - length r) b (length text - length t)"
    by (auto simp: adds_spans_def)
  have "h = f @ (a @ b)" "\<forall>f\<in>set (a @ b). span_ok text f" using a b by auto
  moreover have "moves s t" using a(1) b(1) by (rule moves_trans(1))
  moreover have "spans_between (length text - length s) (a @ b) (length text - length t)"
    using a(4) b(4) by (rule spans_between_append)
  ultimately show ?thesis unfolding adds_spans_def by blast
qed

lemma adds_spans_none: "moves s r \<Longrightarrow> adds_spans text s found r found"
  by (auto simp: adds_spans_def moves_def)

lemma adds_spans_before:
  assumes "adds_spans text s f r g" "suffix s t"
  shows "adds_spans text t f r g"
proof -
  from assms(1) obtain a where a: "moves s r" "g = f @ a" "\<forall>f\<in>set a. span_ok text f"
    "spans_between (length text - length s) a (length text - length r)"
    by (auto simp: adds_spans_def)
  have "length text - length t \<le> length text - length s"
    using suffix_length_le [OF assms(2)] by simp
  then have "spans_between (length text - length t) a (length text - length r)"
    using a(4) by (auto intro: spans_between_weaken)
  with a moves_trans(2) [OF assms(2)] show ?thesis by (auto simp: adds_spans_def)
qed

lemma jscalar_spans:
  assumes "jscalar (length text) stack s found = Some (r, found')" "suffix s text" "s \<noteq> []"
  shows "adds_spans text s found r found'"
proof (cases "hd s = CHR 0x22")
  case True
  then obtain v where j: "jstring s = Some (v, r)"
    and g: "found' = (if is_url_text v
               then found @ [\<lparr>f_start = length text - length s, f_end = length text - length r,
                              f_path = json_path stack, f_value = v\<rparr>] else found)"
    using assms(1) by (auto simp: jscalar_def Let_def split: option.splits)
  have m: "moves s r" using jstring_suffix [of "hd s" "tl s" v r] j assms(3) by (simp add: moves_def)
  have rt: "suffix r text" using m assms(2) by (auto simp: moves_def intro: suffix_order.trans)
  have "drop (length text - length s) text = s" "drop (length text - length r) text = r"
    using assms(2) rt by (auto simp: suffix_drop_len)
  moreover have "text ! (length text - length s) = hd s"
    using assms(2,3) by (auto simp: suffix_def nth_append hd_conv_nth)
  moreover have "length text - length s < length text - length r"
    using m assms(2) by (auto simp: moves_def dest!: suffix_length_le)
  ultimately show ?thesis
    using g j True m by (auto simp: adds_spans_def span_ok_def)
next
  case False
  then have "found' = found" "moves s r"
    using assms(1) by (auto simp: jscalar_def Let_def moves_def dest: number_suffix literal_suffix [rotated]
        split: if_splits)
  then show ?thesis by (simp add: adds_spans_none)
qed

text \<open>The ways each of the three functions succeeds.\<close>

lemma object_loop_SomeE:
  assumes "object_loop (Suc fuel) len stack s found = Some (r, found')"
  obtains key u v g again w where "object_key s = Some (key, u)"
    "jvalue fuel len (stack @ [Key key]) u found = Some (v, g)"
    "separator (CHR ''}'') v = Some (again, w)"
    "if again then object_loop fuel len stack w g = Some (r, found') else r = w \<and> found' = g"
proof -
  obtain key u where k: "object_key s = Some (key, u)"
    using assms by (cases "object_key s") (auto simp: object_loop.simps)
  then obtain v g where v: "jvalue fuel len (stack @ [Key key]) u found = Some (v, g)"
    using assms by (cases "jvalue fuel len (stack @ [Key key]) u found")
      (auto simp: object_loop.simps)
  with k obtain again w where w: "separator (CHR ''}'') v = Some (again, w)"
    using assms by (cases "separator (CHR ''}'') v") (auto simp: object_loop.simps)
  with k v assms that show thesis by (simp add: object_loop.simps split: if_splits)
qed

lemma array_loop_SomeE:
  assumes "array_loop (Suc fuel) len index stack s found = Some (r, found')"
  obtains v g again w where
    "jvalue fuel len (stack @ [Index index]) s found = Some (v, g)"
    "separator (CHR '']'') v = Some (again, w)"
    "if again then array_loop fuel len (Suc index) stack w g = Some (r, found')
     else r = w \<and> found' = g"
proof -
  obtain v g where v: "jvalue fuel len (stack @ [Index index]) s found = Some (v, g)"
    using assms by (cases "jvalue fuel len (stack @ [Index index]) s found")
      (auto simp: array_loop.simps)
  then obtain again w where w: "separator (CHR '']'') v = Some (again, w)"
    using assms by (cases "separator (CHR '']'') v") (auto simp: array_loop.simps)
  with v assms that show thesis by (simp add: array_loop.simps split: if_splits)
qed

lemma jvalue_SomeE:
  assumes "jvalue (Suc fuel) len stack s found = Some (r, found')"
  obtains (empty) t where "moves s t" "t \<noteq> []" "r = tl t" "found' = found"
  | (object) "\<not> (MAX_DEPTH < length stack \<or> skip_ws s = [])" "hd (skip_ws s) = CHR ''{''"
      "\<not> prefix [CHR ''}''] (skip_ws (tl (skip_ws s)))"
      "object_loop fuel len stack (skip_ws (tl (skip_ws s))) found = Some (r, found')"
  | (array) "\<not> (MAX_DEPTH < length stack \<or> skip_ws s = [])" "hd (skip_ws s) = CHR ''[''"
      "\<not> prefix [CHR '']''] (skip_ws (tl (skip_ws s)))"
      "array_loop fuel len 0 stack (skip_ws (tl (skip_ws s))) found = Some (r, found')"
  | (scalar) "skip_ws s \<noteq> []" "jscalar len stack (skip_ws s) found = Some (r, found')"
proof -
  let ?t = "skip_ws (tl (skip_ws s))"
  have ok: "\<not> (MAX_DEPTH < length stack \<or> skip_ws s = [])"
    using assms by (auto simp: jvalue.simps split: if_splits)
  then have "moves (skip_ws s) ?t"
    using moves_tl [of "skip_ws s"] skip_ws_suffix moves_trans(3) by blast
  then have m: "moves s ?t" by (rule moves_skip_ws)
  show thesis
  proof (cases "prefix [CHR ''}''] ?t \<and> hd (skip_ws s) = CHR ''{''
        \<or> prefix [CHR '']''] ?t \<and> hd (skip_ws s) = CHR ''[''")
    case True
    with assms ok have "r = tl ?t" "found' = found" "?t \<noteq> []" by (auto simp: jvalue.simps)
    with m that(1) show thesis by blast
  next
    case False
    consider "hd (skip_ws s) = CHR ''{''" | "hd (skip_ws s) = CHR ''[''"
      | "hd (skip_ws s) \<noteq> CHR ''{''" "hd (skip_ws s) \<noteq> CHR ''[''" by blast
    then show thesis
      using assms ok False that(2-4) by cases (simp_all add: jvalue.simps)
  qed
qed

lemma inner_moves: "skip_ws s \<noteq> [] \<Longrightarrow> moves s (skip_ws (tl (skip_ws s)))"
  using moves_tl [of "skip_ws s"] skip_ws_suffix moves_trans(3) moves_skip_ws by blast

lemma moves_text: "moves s r \<Longrightarrow> suffix s text \<Longrightarrow> suffix r text"
  by (auto simp: moves_def intro: suffix_order.trans)

lemma adds_spans_moves: "moves s t \<Longrightarrow> adds_spans text t f r g \<Longrightarrow> adds_spans text s f r g"
  using adds_spans_before by (auto simp: moves_def)

lemma adds_spans_text: "adds_spans text s f r g \<Longrightarrow> suffix s text \<Longrightarrow> suffix r text"
  by (auto simp: adds_spans_def intro: moves_text)

lemma scanner_spans:
  "jvalue fuel len stack s found = Some (r, found') \<Longrightarrow> suffix s text \<Longrightarrow> len = length text \<Longrightarrow>
     adds_spans text s found r found'"
  "object_loop fuel len stack s found = Some (r, found') \<Longrightarrow> suffix s text \<Longrightarrow> len = length text \<Longrightarrow>
     adds_spans text s found r found'"
  "array_loop fuel len index stack s found = Some (r, found') \<Longrightarrow> suffix s text \<Longrightarrow>
     len = length text \<Longrightarrow> adds_spans text s found r found'"
proof (induction fuel len stack s found and fuel len stack s found and fuel len index stack s found
    arbitrary: r found' and r found' and r found'
    rule: jvalue_object_loop_array_loop.induct)
  case (2 fuel len stack s found)
  from "2.prems"(1) show ?case
  proof (cases rule: jvalue_SomeE)
    case (empty t)
    then show ?thesis using moves_tl moves_trans(1) adds_spans_none by blast
  next
    case object
    then have m: "moves s (skip_ws (tl (skip_ws s)))" by (simp add: inner_moves)
    from "2.IH"(1) [OF object(1) refl refl object(2-4) moves_text [OF m "2.prems"(2)] "2.prems"(3)]
    show ?thesis by (rule adds_spans_moves [OF m])
  next
    case array
    then have m: "moves s (skip_ws (tl (skip_ws s)))" by (simp add: inner_moves)
    have "hd (skip_ws s) \<noteq> CHR ''{''" using array(2) by simp
    from "2.IH"(2) [OF array(1) refl refl this array(2-4) moves_text [OF m "2.prems"(2)]
        "2.prems"(3)]
    show ?thesis by (rule adds_spans_moves [OF m])
  next
    case scalar
    then show ?thesis using "2.prems"(2,3) skip_ws_suffix
      by (auto intro!: adds_spans_before [OF jscalar_spans] intro: suffix_order.trans)
  qed
next
  case (4 fuel len stack s found)
  from "4.prems"(1) obtain key u v g again w where k: "object_key s = Some (key, u)"
    and v: "jvalue fuel len (stack @ [Key key]) u found = Some (v, g)"
    and w: "separator (CHR ''}'') v = Some (again, w)"
    and c: "if again then object_loop fuel len stack w g = Some (r, found') else r = w \<and> found' = g"
    by (rule object_loop_SomeE)
  note m = object_key_moves [OF k]
  have "adds_spans text s found v g"
    using "4.IH"(1) [OF k refl v moves_text [OF m "4.prems"(2)] "4.prems"(3)]
    by (rule adds_spans_moves [OF m])
  then have sw: "adds_spans text s found w g"
    using adds_spans_none [OF separator_moves [OF w]] by (rule adds_spans_trans)
  show ?case
    using "4.IH"(2) [OF k refl v refl w refl _ _ adds_spans_text [OF sw "4.prems"(2)] "4.prems"(3)]
      c sw adds_spans_trans [OF sw] by (cases again) auto
next
  case (6 fuel len index stack s found)
  from "6.prems"(1) obtain v g again w where
    v: "jvalue fuel len (stack @ [Index index]) s found = Some (v, g)"
    and w: "separator (CHR '']'') v = Some (again, w)"
    and c: "if again then array_loop fuel len (Suc index) stack w g = Some (r, found')
       else r = w \<and> found' = g"
    by (rule array_loop_SomeE)
  have "adds_spans text s found v g" using "6.IH"(1) [OF v "6.prems"(2,3)] .
  then have sw: "adds_spans text s found w g"
    using adds_spans_none [OF separator_moves [OF w]] by (rule adds_spans_trans)
  show ?case
    using "6.IH"(2) [OF v refl w refl _ _ adds_spans_text [OF sw "6.prems"(2)] "6.prems"(3)]
      c sw adds_spans_trans [OF sw] by (cases again) auto
qed simp_all

section \<open>Fuel\<close>

lemma scanner_fuel:
  "2 * length s + 1 \<le> fuel \<Longrightarrow> 2 * length s + 1 \<le> fuel' \<Longrightarrow> suffix s text \<Longrightarrow> len = length text \<Longrightarrow>
     jvalue fuel len stack s found = jvalue fuel' len stack s found"
  "2 * length s + 2 \<le> fuel \<Longrightarrow> 2 * length s + 2 \<le> fuel' \<Longrightarrow> suffix s text \<Longrightarrow> len = length text \<Longrightarrow>
     object_loop fuel len stack s found = object_loop fuel' len stack s found"
  "2 * length s + 2 \<le> fuel \<Longrightarrow> 2 * length s + 2 \<le> fuel' \<Longrightarrow> suffix s text \<Longrightarrow> len = length text \<Longrightarrow>
     array_loop fuel len index stack s found = array_loop fuel' len index stack s found"
proof (induction fuel len stack s found and fuel len stack s found and fuel len index stack s found
    arbitrary: fuel' and fuel' and fuel'
    rule: jvalue_object_loop_array_loop.induct)
  case (2 fuel len stack s found)
  from "2.prems"(2) obtain g where g: "fuel' = Suc g" by (cases fuel') auto
  show ?case
  proof (cases "MAX_DEPTH < length stack \<or> skip_ws s = []")
    case True
    then show ?thesis by (auto simp: g jvalue.simps)
  next
    case ok: False
    let ?t = "skip_ws (tl (skip_ws s))"
    have m: "moves s ?t" using ok by (simp add: inner_moves)
    have le: "2 * length ?t + 2 \<le> fuel" "2 * length ?t + 2 \<le> g"
      using moves_shorter [OF m] "2.prems"(1,2) g by auto
    note ih = le moves_text [OF m "2.prems"(3)] "2.prems"(4)
    show ?thesis
      using "2.IH"(1) [OF ok refl refl _ _ ih] "2.IH"(2) [OF ok refl refl _ _ _ ih]
      unfolding g jvalue.simps Let_def by (simp only: ok if_False split: if_split) simp
  qed
next
  case (4 fuel len stack s found)
  from "4.prems"(2) obtain g where g: "fuel' = Suc g" by (cases fuel') auto
  show ?case
  proof (cases "object_key s")
    case None
    then show ?thesis by (simp add: g object_loop.simps)
  next
    case (Some p)
    obtain key u where p: "p = (key, u)" by (cases p)
    note m = object_key_moves [OF Some [unfolded p]]
    have ut: "suffix u text" using moves_text [OF m "4.prems"(3)] .
    have v: "jvalue fuel len (stack @ [Key key]) u found = jvalue g len (stack @ [Key key]) u found"
      using "4.IH"(1) [OF Some p [symmetric] _ _ ut "4.prems"(4), of g] moves_shorter [OF m] "4.prems"(1,2) g
      by simp
    have "object_loop fuel len stack w h = object_loop g len stack w h"
      if j: "jvalue fuel len (stack @ [Key key]) u found = Some (r, h)"
        and w: "separator (CHR ''}'') r = Some (True, w)" for r h w
    proof -
      have a: "adds_spans text u found r h" by (rule scanner_spans(1) [OF j ut "4.prems"(4)])
      have "moves u r" using a by (simp add: adds_spans_def)
      then have "moves s w" using m separator_moves [OF w] moves_trans(1) by blast
      then show ?thesis
        using "4.IH"(2) [OF Some p [symmetric] j refl w refl, of g] moves_shorter [of s w]
          moves_text [of s w "text"] "4.prems" g
        by simp
    qed
    then show ?thesis unfolding g object_loop.simps Some p
      by (auto simp: v [symmetric] split: option.splits)
  qed
next
  case (6 fuel len index stack s found)
  from "6.prems"(2) obtain g where g: "fuel' = Suc g" by (cases fuel') auto
  have v: "jvalue fuel len (stack @ [Index index]) s found = jvalue g len (stack @ [Index index]) s found"
    using "6.IH"(1) [of g] "6.prems" g by simp
  have "array_loop fuel len (Suc index) stack w h = array_loop g len (Suc index) stack w h"
    if j: "jvalue fuel len (stack @ [Index index]) s found = Some (r, h)"
      and w: "separator (CHR '']'') r = Some (True, w)" for r h w
  proof -
    have a: "adds_spans text s found r h" by (rule scanner_spans(1) [OF j "6.prems"(3,4)])
    have "moves s r" using a by (simp add: adds_spans_def)
    then have "moves s w" using separator_moves [OF w] by (rule moves_trans(1))
    then show ?thesis
      using "6.IH"(2) [OF j refl w refl, of g] moves_shorter [of s w] moves_text [of s w "text"]
        "6.prems" g by simp
  qed
  then show ?case unfolding g array_loop.simps
    by (auto simp: v [symmetric] split: option.splits)
qed simp_all

section \<open>Properties\<close>



lemma scan_adds_spans:
  assumes "scan text = Some found"
  shows "(\<forall>f\<in>set found. span_ok text f) \<and> spans_between 0 found (length text)"
proof -
  obtain r where "jvalue (2 * length text + 2) (length text) [] text [] = Some (r, found)"
    using assms by (auto simp: scan_def scan_fuel_def split: option.splits if_splits)
  from scanner_spans(1) [OF this _ refl]
  have "adds_spans text text [] r found" by simp
  then show ?thesis by (auto simp: adds_spans_def intro: spans_between_weaken)
qed

end
