(* ===== verification/Json_Print.thy ===== *)
theory Json_Print
  imports Json_Scan
begin

text \<open>
  The scanner of \<open>Json_Scan\<close> against an independent picture of JSON: a value tree, its
  compact text, and the strings that hold absolute URLs with the paths to them.
\<close>

section \<open>Values and their text\<close>

datatype json = JNull | JBool bool | JNum int | JStr string
  | JArr "json list" | JObj "(string \<times> json) list"

text \<open>
  Integers, and strings the way \<^verbatim>\<open>push_json_string\<close> of \<^verbatim>\<open>src/src/logging.rs\<close> writes them.
\<close>

definition show_int :: "int \<Rightarrow> string" where
  "show_int i = (if i < 0 then ''-'' @ show_nat (nat (- i)) else show_nat (nat i))"

definition hex_nibble :: "nat \<Rightarrow> char" where
  "hex_nibble d = (if d < 10 then char_of (48 + d) else char_of (87 + d))"

definition hex2 :: "nat \<Rightarrow> string" where
  "hex2 n = [hex_nibble (n div 16), hex_nibble (n mod 16)]"

definition json_char :: "char \<Rightarrow> string" where
  "json_char c =
     (if c = CHR 0x22 then [CHR 0x5C, CHR 0x22]
      else if c = CHR 0x5C then [CHR 0x5C, CHR 0x5C]
      else if c = CHR 0x0A then [CHR 0x5C, CHR ''n'']
      else if c = CHR 0x0D then [CHR 0x5C, CHR ''r'']
      else if c = CHR 0x09 then [CHR 0x5C, CHR ''t'']
      else if byte c < 0x20 then CHR 0x5C # ''u00'' @ hex2 (byte c)
      else [c])"

definition json_string :: "string \<Rightarrow> string" where
  "json_string s = CHR 0x22 # concat (map json_char s) @ [CHR 0x22]"

primrec json_print :: "json \<Rightarrow> string" where
  "json_print JNull = ''null''"
| "json_print (JBool b) = (if b then ''true'' else ''false'')"
| "json_print (JNum i) = show_int i"
| "json_print (JStr v) = json_string v"
| "json_print (JArr js) = ''['' @ join '','' (map json_print js) @ '']''"
| "json_print (JObj kvs) =
     ''{'' @ join '','' (map (\<lambda>(k, p). json_string k @ '':'' @ p) (map (map_prod id json_print) kvs))
       @ ''}''"

primrec indexed :: "nat \<Rightarrow> segment list \<Rightarrow> (segment list \<Rightarrow> 'a list) list \<Rightarrow> 'a list" where
  "indexed i st [] = []"
| "indexed i st (u # us) = u (st @ [Index i]) @ indexed (Suc i) st us"

primrec json_urls :: "json \<Rightarrow> segment list \<Rightarrow> (string \<times> string) list" where
  "json_urls JNull = (\<lambda>_. [])"
| "json_urls (JBool _) = (\<lambda>_. [])"
| "json_urls (JNum _) = (\<lambda>_. [])"
| "json_urls (JStr v) = (\<lambda>st. if is_url_text v then [(json_path st, v)] else [])"
| "json_urls (JArr js) = (\<lambda>st. indexed 0 st (map json_urls js))"
| "json_urls (JObj kvs) =
     (\<lambda>st. concat (map (\<lambda>(k, u). u (st @ [Key k])) (map (map_prod id json_urls) kvs)))"

primrec json_depth :: "json \<Rightarrow> nat" where
  "json_depth JNull = 0"
| "json_depth (JBool _) = 0"
| "json_depth (JNum _) = 0"
| "json_depth (JStr _) = 0"
| "json_depth (JArr js) = foldr max (map Suc (map json_depth js)) 0"
| "json_depth (JObj kvs) = foldr max (map (\<lambda>(k, d). Suc d) (map (map_prod id json_depth) kvs)) 0"

section \<open>Quoted strings\<close>

lemma hex_digit_nibble: "d < 16 \<Longrightarrow> hex_digit (hex_nibble d) = Some d"
  by (simp add: hex_digit_def hex_nibble_def byte_char_of)

lemma unicode_escape_hex2:
  assumes "byte c < 0x20"
  shows "unicode_escape (''00'' @ hex2 (byte c) @ r) = Some ([c], r)"
proof -
  have "hex_digit (hex_nibble (byte c mod 16)) = Some (byte c mod 16)"
    "hex_digit (hex_nibble (byte c div 16)) = Some (byte c div 16)" "hex_digit (CHR ''0'') = Some 0"
    using assms by (simp_all add: hex_digit_nibble) (simp add: hex_digit_def)
  then have "hex4 (''00'' @ hex2 (byte c) @ r) = Some (byte c, r)"
    by (simp add: hex4_def hex2_def from_str_radix16_def)
  then show ?thesis using assms
    by (simp add: unicode_escape_def push_char_def is_scalar_def utf8_encode_def)
qed

lemma json_char_cases:
  obtains (plain) "plain_char c" "json_char c = [c]"
  | (simple) e where "\<not> plain_char c" "json_char c = [CHR 0x5C, e]" "e \<noteq> CHR ''u''" "simple_escape e = Some c"
  | (control) "\<not> plain_char c" "byte c < 0x20" "json_char c = CHR 0x5C # ''u00'' @ hex2 (byte c)"
proof -
  consider "c = CHR 0x22" | "c = CHR 0x5C" | "c = CHR 0x0A" | "c = CHR 0x0D" | "c = CHR 0x09"
    | "c \<notin> {CHR 0x22, CHR 0x5C, CHR 0x0A, CHR 0x0D, CHR 0x09}" "byte c < 0x20"
    | "c \<notin> {CHR 0x22, CHR 0x5C, CHR 0x0A, CHR 0x0D, CHR 0x09}" "\<not> byte c < 0x20" by blast
  then show thesis
  proof cases
    case 6
    then show thesis using control by (simp add: json_char_def plain_char_def)
  next
    case 7
    then show thesis using plain by (simp add: json_char_def plain_char_def)
  qed (use simple in \<open>force simp: json_char_def plain_char_def simple_escape_def\<close>)+
qed

lemma string_slow_quote:
  "string_slow out (concat (map json_char v) @ CHR 0x22 # r) = Some (out @ v, r)"
proof (induction v arbitrary: out)
  case Nil
  then show ?case by (simp add: string_slow.simps)
next
  case (Cons c v)
  let ?rest = "concat (map json_char v) @ CHR 0x22 # r"
  have "string_slow out (json_char c @ ?rest) = string_slow (out @ [c]) ?rest"
  proof (cases rule: json_char_cases [of c])
    case plain
    then show ?thesis by (simp add: string_slow.simps [of out] plain_char_def)
  next
    case (simple e)
    then show ?thesis by (simp add: string_slow.simps [of out])
  next
    case control
    then show ?thesis using unicode_escape_hex2 [of c ?rest] by (simp add: string_slow.simps [of out])
  qed
  with Cons.IH [of "out @ [c]"] show ?case by simp
qed

lemma jstring_quote: "jstring (json_string v @ r) = Some (v, r)"
proof -
  define p where "p = takeWhile plain_char v"
  define d where "d = dropWhile plain_char v"
  have v: "v = p @ d" by (simp add: p_def d_def)
  have pp: "\<forall>c\<in>set p. plain_char c" unfolding p_def by (auto dest: set_takeWhileD)
  have "json_char c = [c]" if "plain_char c" for c using that by (cases rule: json_char_cases [of c]) auto
  with pp have qp: "concat (map json_char p) = p" by (induction p) auto
  let ?t = "concat (map json_char d) @ CHR 0x22 # r"
  have "\<not> plain_char (hd ?t) \<and> (d \<noteq> [] \<longrightarrow> hd ?t = CHR 0x5C)"
  proof (cases d)
    case (Cons c e)
    then have "\<not> plain_char c" using hd_dropWhile [of plain_char v] d_def by simp
    then have "\<exists>z. json_char c = CHR 0x5C # z" by (cases rule: json_char_cases [of c]) auto
    then show ?thesis using Cons by (auto simp: plain_char_def)
  qed (simp add: plain_char_def)
  moreover have "?t \<noteq> []" by simp
  ultimately obtain x y where t: "?t = x # y" "\<not> plain_char x" "d \<noteq> [] \<longrightarrow> x = CHR 0x5C"
    by (cases ?t) auto
  have split: "takeWhile plain_char (p @ x # y) = p" "dropWhile plain_char (p @ x # y) = x # y"
    using pp t(2) by (simp_all add: takeWhile_append2 dropWhile_append2)
  have "jstring (json_string v @ r) = jstring (CHR 0x22 # (p @ x # y))"
    using t(1) qp v by (simp add: json_string_def)
  also have "\<dots> = Some (p @ d, r)"
  proof (cases "d = []")
    case True
    then show ?thesis using t(1) split by (simp add: jstring_def)
  next
    case False
    then show ?thesis using t split string_slow_quote [of p d r] by (simp add: jstring_def)
  qed
  finally show ?thesis using v by simp
qed

section \<open>Scanning a printed value\<close>

text \<open>What may follow a value: the end of the text or a delimiter.\<close>

definition delim :: "string \<Rightarrow> bool" where
  "delim r \<longleftrightarrow> r = [] \<or> hd r \<in> {CHR '','', CHR '']'', CHR ''}''}"

lemma delim_not_digit: "delim r \<Longrightarrow> skip_digits r = r"
  by (cases r) (auto simp: delim_def skip_digits_def is_ascii_digit_def)

lemma number_show: "delim r \<Longrightarrow> number (show_nat n @ r) = Some r"
proof -
  assume d: "delim r"
  obtain c cs where s: "show_nat n = c # cs" using show_nat_ne by (cases "show_nat n") auto
  have dig: "\<forall>x\<in>set (c # cs). is_ascii_digit x" using show_nat_all_digits s by metis
  have c: "c \<noteq> CHR ''-''" using dig by (auto simp: is_ascii_digit_def)
  have skip: "skip_digits (c # cs @ r) = r"
    using dig delim_not_digit [OF d] by (simp add: skip_digits_def dropWhile_append2)
  have "number_int (c # cs @ r) = Some r"
  proof (cases "c = CHR ''0''")
    case True
    then have "cs = []" using show_nat_zero [of n] s by (simp add: show_nat_digit)
    then show ?thesis using True by (simp add: number_int_def)
  next
    case False
    then show ?thesis using dig skip by (simp add: number_int_def digits1_def)
  qed
  moreover have "number_frac r = Some r" "number_exp r = Some r"
    using d by (auto simp: number_frac_def number_exp_def delim_def split: list.splits)
  ultimately show ?thesis using s c by (simp add: number_def)
qed

lemma number_show_int: "delim r \<Longrightarrow> number (show_int i @ r) = Some r"
proof (cases "i < 0")
  case True
  assume d: "delim r"
  obtain c cs where s: "show_nat (nat (- i)) = c # cs"
    using show_nat_ne by (cases "show_nat (nat (- i))") auto
  have "c \<noteq> CHR ''-''" using show_nat_all_digits [of c "nat (- i)"] s by (auto simp: is_ascii_digit_def)
  with number_show [OF d, of "nat (- i)"] s True show ?thesis
    by (simp add: number_def show_int_def)
qed (simp add: show_int_def number_show)

lemma show_int_hd: "show_int i \<noteq> []" "hd (show_int i) = CHR ''-'' \<or> is_ascii_digit (hd (show_int i))"
proof -
  obtain c cs where "show_nat (nat i) = c # cs" using show_nat_ne by (cases "show_nat (nat i)") auto
  then show "show_int i \<noteq> []" "hd (show_int i) = CHR ''-'' \<or> is_ascii_digit (hd (show_int i))"
    using show_nat_all_digits [of c "nat i"] by (simp_all add: show_int_def)
qed

lemma json_print_hd:
  "json_print j \<noteq> []" "\<not> json_ws (hd (json_print j))" "hd (json_print j) \<notin> {CHR '']'', CHR ''}''}"
proof -
  have "json_print j \<noteq> [] \<and> \<not> json_ws (hd (json_print j))
      \<and> hd (json_print j) \<notin> {CHR '']'', CHR ''}''}"
  proof (cases j)
    case (JNum n)
    then show ?thesis using show_int_hd [of n] by (auto simp: json_ws_def is_ascii_digit_def)
  qed (auto simp: json_ws_def json_string_def)
  then show "json_print j \<noteq> []" "\<not> json_ws (hd (json_print j))"
    "hd (json_print j) \<notin> {CHR '']'', CHR ''}''}" by auto
qed

lemma skip_ws_id: "s \<noteq> [] \<Longrightarrow> \<not> json_ws (hd s) \<Longrightarrow> skip_ws (s @ r) = s @ r"
  by (cases s) (auto simp: skip_ws_def)

text \<open>
  One function of the scanner goes over a printed piece of text to \<open>r\<close> and adds spans with
  the given paths and values, with enough fuel.
\<close>

definition goes_to ::
  "found_string list \<Rightarrow> scanned \<Rightarrow> string \<Rightarrow> (string \<times> string) list \<Rightarrow> bool" where
  "goes_to found result r urls \<longleftrightarrow>
     (\<exists>new. result = Some (r, found @ new) \<and> map (\<lambda>g. (f_path g, f_value g)) new = urls)"

definition scans :: "json \<Rightarrow> bool" where
  "scans j \<longleftrightarrow> (\<forall>st found r fuel len. length st + json_depth j \<le> MAX_DEPTH \<longrightarrow> delim r \<longrightarrow>
     2 * length (json_print j @ r) + 1 \<le> fuel \<longrightarrow>
     goes_to found (jvalue fuel len st (json_print j @ r) found) r (json_urls j st))"

lemma goes_to_append:
  assumes "goes_to found (Some (r, g)) r' us" "goes_to g res t vs"
  shows "goes_to found res t (us @ vs)"
  using assms by (auto simp: goes_to_def)

lemma jvalue_open:
  assumes "length st \<le> MAX_DEPTH" "s \<noteq> []" "\<not> json_ws (hd s)"
  shows "hd s \<noteq> CHR '']'' \<Longrightarrow>
      jvalue (Suc fuel) len st (CHR ''['' # s) found = array_loop fuel len 0 st s found"
    and "hd s \<noteq> CHR ''}'' \<Longrightarrow>
      jvalue (Suc fuel) len st (CHR ''{'' # s) found = object_loop fuel len st s found"
proof -
  have "skip_ws s = s" "skip_ws (CHR ''['' # s) = CHR ''['' # s" "skip_ws (CHR ''{'' # s) = CHR ''{'' # s"
    using assms(2,3) by (cases s; simp add: skip_ws_def json_ws_def)+
  then show "hd s \<noteq> CHR '']'' \<Longrightarrow>
      jvalue (Suc fuel) len st (CHR ''['' # s) found = array_loop fuel len 0 st s found"
    and "hd s \<noteq> CHR ''}'' \<Longrightarrow>
      jvalue (Suc fuel) len st (CHR ''{'' # s) found = object_loop fuel len st s found"
    using assms(1,2) by (cases s; simp add: jvalue.simps(2))+
qed

lemma separator_delim:
  "close \<noteq> CHR '','' \<Longrightarrow> \<not> json_ws close \<Longrightarrow> separator close (close # r) = Some (False, r)"
  "separator close (CHR '','' # r) = Some (True, r)"
  by (simp_all add: separator_def skip_ws_def json_ws_def)

lemma array_loop_prints:
  assumes "js \<noteq> []" "\<forall>j\<in>set js. scans j" "\<forall>j\<in>set js. length st + Suc (json_depth j) \<le> MAX_DEPTH"
    and "2 * length (join '','' (map json_print js) @ CHR '']'' # r) + 2 \<le> fuel"
  shows "goes_to found (array_loop fuel len i st (join '','' (map json_print js) @ CHR '']'' # r) found)
           r (indexed i st (map json_urls js))"
  using assms
proof (induction js arbitrary: i found fuel)
  case (Cons j js)
  obtain g where g: "fuel = Suc g" using Cons.prems(4) by (cases fuel) auto
  define t where "t = (if js = [] then CHR '']'' # r
    else CHR '','' # join '','' (map json_print js) @ CHR '']'' # r)"
  have s: "join '','' (map json_print (j # js)) @ CHR '']'' # r = json_print j @ t"
    by (cases js) (simp_all add: t_def)
  have "delim t" by (simp add: delim_def t_def)
  then have v: "goes_to found (jvalue g len (st @ [Index i]) (json_print j @ t) found) t
      (json_urls j (st @ [Index i]))"
    using Cons.prems(2-4) unfolding scans_def s g by simp
  then obtain new where new: "jvalue g len (st @ [Index i]) (json_print j @ t) found
      = Some (t, found @ new)" by (auto simp: goes_to_def)
  show ?case
  proof (cases "js = []")
    case True
    then show ?thesis using v new unfolding s g
      by (simp add: array_loop.simps(2) t_def separator_delim json_ws_def goes_to_def)
  next
    case False
    let ?u = "join '','' (map json_print js) @ CHR '']'' # r"
    have fu: "2 * length ?u + 2 \<le> g"
      using Cons.prems(4) False unfolding s g t_def by simp
    have "array_loop fuel len i st (json_print j @ t) found
        = array_loop g len (Suc i) st ?u (found @ new)"
      using new False unfolding g by (simp add: array_loop.simps(2) t_def separator_delim)
    with Cons.IH [OF False _ _ fu] Cons.prems(2,3) v new show ?thesis
      unfolding s by (simp add: goes_to_append [of found t "found @ new" t])
  qed
qed simp

text \<open>The text of the members of an object.\<close>

definition member_text :: "string \<times> json \<Rightarrow> string" where
  "member_text m = json_string (fst m) @ '':'' @ json_print (snd m)"

lemma json_print_obj: "json_print (JObj kvs) = ''{'' @ join '','' (map member_text kvs) @ ''}''"
proof -
  have "(\<lambda>(k, p). json_string k @ '':'' @ p) \<circ> map_prod id json_print = member_text"
    by (auto simp: member_text_def)
  then show ?thesis by simp
qed

lemma object_key_quote: "object_key (json_string k @ CHR '':'' # r) = Some (k, r)"
proof -
  have "skip_ws (json_string k @ CHR '':'' # r) = json_string k @ CHR '':'' # r"
    by (rule skip_ws_id) (simp_all add: json_string_def json_ws_def)
  moreover obtain s where "json_string k @ CHR '':'' # r = CHR 0x22 # s" by (simp add: json_string_def)
  ultimately show ?thesis
    using jstring_quote [of k "CHR '':'' # r"] by (simp add: object_key_def skip_ws_def json_ws_def)
qed

lemma object_loop_prints:
  assumes "kvs \<noteq> []" "\<forall>m\<in>set kvs. scans (snd m)"
    "\<forall>m\<in>set kvs. length st + Suc (json_depth (snd m)) \<le> MAX_DEPTH"
    and "2 * length (join '','' (map member_text kvs) @ CHR ''}'' # r) + 2 \<le> fuel"
  shows "goes_to found (object_loop fuel len st (join '','' (map member_text kvs) @ CHR ''}'' # r) found)
           r (concat (map (\<lambda>m. json_urls (snd m) (st @ [Key (fst m)])) kvs))"
  using assms
proof (induction kvs arbitrary: found fuel)
  case (Cons m kvs)
  obtain k j where m: "m = (k, j)" by (cases m)
  obtain g where g: "fuel = Suc g" using Cons.prems(4) by (cases fuel) auto
  define t where "t = (if kvs = [] then CHR ''}'' # r
    else CHR '','' # join '','' (map member_text kvs) @ CHR ''}'' # r)"
  have s: "join '','' (map member_text (m # kvs)) @ CHR ''}'' # r
      = json_string k @ CHR '':'' # json_print j @ t"
    by (cases kvs) (simp_all add: t_def m member_text_def)
  have "delim t" by (simp add: delim_def t_def)
  moreover have "2 * length (json_print j @ t) + 1 \<le> g" using Cons.prems(4) unfolding s g by simp
  ultimately have v: "goes_to found (jvalue g len (st @ [Key k]) (json_print j @ t) found) t
      (json_urls j (st @ [Key k]))"
    using Cons.prems(2,3) by (simp add: scans_def m)
  then obtain new where new: "jvalue g len (st @ [Key k]) (json_print j @ t) found
      = Some (t, found @ new)" by (auto simp: goes_to_def)
  show ?case
  proof (cases "kvs = []")
    case True
    then show ?thesis using v new unfolding s g
      by (simp add: object_loop.simps(2) object_key_quote t_def separator_delim json_ws_def
          goes_to_def m)
  next
    case False
    let ?u = "join '','' (map member_text kvs) @ CHR ''}'' # r"
    have fu: "2 * length ?u + 2 \<le> g"
      using Cons.prems(4) False unfolding s g t_def by simp
    have "object_loop fuel len st (json_string k @ CHR '':'' # json_print j @ t) found
        = object_loop g len st ?u (found @ new)"
      using new False unfolding g
      by (simp add: object_loop.simps(2) object_key_quote t_def separator_delim)
    with Cons.IH [OF False _ _ fu] Cons.prems(2,3) v new show ?thesis
      unfolding s by (simp add: goes_to_append [of found t "found @ new" t] m)
  qed
qed simp

lemma json_depth_elem:
  "j \<in> set js \<Longrightarrow> Suc (json_depth j) \<le> json_depth (JArr js)"
  "m \<in> set kvs \<Longrightarrow> Suc (json_depth (snd m)) \<le> json_depth (JObj kvs)"
proof -
  have max: "x \<in> set xs \<Longrightarrow> x \<le> foldr max xs 0" for x :: nat and xs
    by (induction xs) auto
  show "j \<in> set js \<Longrightarrow> Suc (json_depth j) \<le> json_depth (JArr js)"
    using max [of "Suc (json_depth j)"] by simp
  have "map (\<lambda>(k, d). Suc d) (map (map_prod id json_depth) kvs) = map (\<lambda>m. Suc (json_depth (snd m))) kvs"
    by auto
  then show "m \<in> set kvs \<Longrightarrow> Suc (json_depth (snd m)) \<le> json_depth (JObj kvs)"
    using max [of "Suc (json_depth (snd m))" "map (\<lambda>m. Suc (json_depth (snd m))) kvs"]
    by (simp only: json_depth.simps) simp
qed

lemma jvalue_scalar:
  assumes "length st \<le> MAX_DEPTH" "s \<noteq> []" "\<not> json_ws (hd s)" "hd s \<notin> {CHR ''['', CHR ''{''}"
  shows "jvalue (Suc fuel) len st (s @ r) found = jscalar len st (s @ r) found"
  using assms skip_ws_id [of s r] by (simp add: jvalue.simps(2) Let_def)

lemma scalar_scans:
  assumes "json_depth j = 0" "hd (json_print j) \<notin> {CHR ''['', CHR ''{''}"
    and "\<And>len st r found. delim r \<Longrightarrow>
      goes_to found (jscalar len st (json_print j @ r) found) r (json_urls j st)"
  shows "scans j"
  unfolding scans_def
proof (intro allI impI)
  fix st :: "segment list" and found r fuel len
  assume a: "length st + json_depth j \<le> MAX_DEPTH" "delim r" "2 * length (json_print j @ r) + 1 \<le> fuel"
  obtain g where "fuel = Suc g" using a(3) by (cases fuel) auto
  then show "goes_to found (jvalue fuel len st (json_print j @ r) found) r (json_urls j st)"
    using jvalue_scalar [OF _ json_print_hd(1,2) assms(2), of st g len r found] a(1,2) assms(1,3)
    by simp
qed

lemma all_scan: "scans j"
proof (induction j)
  case (JNum n)
  show ?case
  proof (rule scalar_scans)
    fix len st r found
    assume "delim (r :: string)"
    obtain c cs where s: "show_int n = c # cs" using show_int_hd(1) [of n] by (cases "show_int n") auto
    then have d: "c = CHR ''-'' \<or> is_ascii_digit c" using show_int_hd(2) [of n] by simp
    then have "c \<noteq> CHR 0x22" "c \<noteq> CHR ''t''" "c \<noteq> CHR ''f''" "c \<noteq> CHR ''n''"
      by (auto simp: is_ascii_digit_def)
    then show "goes_to found (jscalar len st (json_print (JNum n) @ r) found) r (json_urls (JNum n) st)"
      using d s number_show_int [OF \<open>delim r\<close>, of n] by (simp add: jscalar_def goes_to_def)
  next
    show "hd (json_print (JNum n)) \<notin> {CHR ''['', CHR ''{''}"
      using show_int_hd(2) [of n] by (auto simp: is_ascii_digit_def)
  qed simp
next
  case (JStr v)
  have hd: "hd (json_string v @ r) = CHR 0x22" "hd (json_string v) = CHR 0x22" for r
    by (simp_all add: json_string_def)
  show ?case
    by (rule scalar_scans) (simp_all add: jscalar_def hd jstring_quote goes_to_def Let_def)
next
  case (JArr js)
  show ?case unfolding scans_def
  proof (intro allI impI)
    fix st :: "segment list" and found r fuel len
    assume a: "length st + json_depth (JArr js) \<le> MAX_DEPTH" "delim r"
      "2 * length (json_print (JArr js) @ r) + 1 \<le> fuel"
    obtain g where g: "fuel = Suc g" using a(3) by (cases fuel) auto
    let ?s = "join '','' (map json_print js) @ CHR '']'' # r"
    show "goes_to found (jvalue fuel len st (json_print (JArr js) @ r) found) r (json_urls (JArr js) st)"
    proof (cases js)
      case Nil
      then show ?thesis using a(1)
        by (simp add: g jvalue.simps(2) skip_ws_def json_ws_def goes_to_def)
    next
      case (Cons j ks)
      have hd: "?s \<noteq> []" "\<not> json_ws (hd ?s)" "hd ?s \<noteq> CHR '']''"
        using json_print_hd [of j] by (auto simp: Cons join_concat)
      have "goes_to found (array_loop g len 0 st ?s found) r (json_urls (JArr js) st)"
        unfolding json_urls.simps using JArr.IH a g json_depth_elem(1) [of _ js] Cons
        by (intro array_loop_prints) fastforce+
      then show ?thesis
        using jvalue_open(1) [OF _ hd, of st g len found] a(1) g by simp
    qed
  qed
next
  case (JObj kvs)
  show ?case unfolding scans_def
  proof (intro allI impI)
    fix st :: "segment list" and found r fuel len
    assume a: "length st + json_depth (JObj kvs) \<le> MAX_DEPTH" "delim r"
      "2 * length (json_print (JObj kvs) @ r) + 1 \<le> fuel"
    obtain g where g: "fuel = Suc g" using a(3) by (cases fuel) auto
    let ?s = "join '','' (map member_text kvs) @ CHR ''}'' # r"
    have urls: "json_urls (JObj kvs) st = concat (map (\<lambda>m. json_urls (snd m) (st @ [Key (fst m)])) kvs)"
      by (simp add: comp_def split_beta)
    show "goes_to found (jvalue fuel len st (json_print (JObj kvs) @ r) found) r (json_urls (JObj kvs) st)"
    proof (cases kvs)
      case Nil
      then show ?thesis using a(1)
        by (simp add: g jvalue.simps(2) skip_ws_def json_ws_def goes_to_def)
    next
      case (Cons m ms)
      have hd: "?s \<noteq> []" "\<not> json_ws (hd ?s)" "hd ?s \<noteq> CHR ''}''"
        by (auto simp: Cons join_concat member_text_def json_string_def json_ws_def)
      have "scans (snd m)" if "m \<in> set kvs" for m using JObj.IH [OF that, of "snd m"] by (cases m) auto
      then have "goes_to found (object_loop g len st ?s found) r (json_urls (JObj kvs) st)"
        unfolding urls using a g json_depth_elem(2) [of _ kvs] Cons
        by (intro object_loop_prints) (fastforce simp: json_print_obj simp del: json_print.simps)+
      then show ?thesis
        using jvalue_open(2) [OF _ hd, of st g len found] a(1) g
        by (simp add: json_print_obj del: json_print.simps)
    qed
  qed
qed (auto intro!: scalar_scans simp: jscalar_def literal_def strip_prefix_def goes_to_def
    split: if_splits)

lemma scan_finds_url_list:
  assumes "json_depth j \<le> MAX_DEPTH"
  shows "\<exists>found. scan (json_print j) = Some found
    \<and> map (\<lambda>f. (f_path f, f_value f)) found = json_urls j []"
proof -
  have "goes_to [] (jvalue (2 * length (json_print j) + 2) (length (json_print j)) []
      (json_print j @ []) []) [] (json_urls j [])"
    using all_scan [of j] assms unfolding scans_def by (simp add: delim_def)
  then show ?thesis by (auto simp: goes_to_def scan_def scan_fuel_def skip_ws_def)
qed

section \<open>Properties\<close>

lemma deep_arrays:
  assumes "length st + k = MAX_DEPTH + 1"
  shows "jvalue fuel len st (replicate (Suc k) (CHR ''['') @ r) found = None"
  using assms
proof (induction k arbitrary: st fuel)
  case 0
  then show ?case by (cases fuel) (simp_all add: jvalue.simps(2))
next
  case (Suc k)
  show ?case
  proof (cases fuel)
    case (Suc g)
    let ?s = "replicate (Suc k) (CHR ''['') @ r"
    have "jvalue fuel len st (CHR ''['' # ?s) found = array_loop g len 0 st ?s found"
      using Suc.prems jvalue_open(1) [of st ?s g len found] by (simp add: Suc json_ws_def)
    also have "\<dots> = None"
      using Suc.IH [of "st @ [Index 0]"] Suc.prems by (cases g) (simp_all add: array_loop.simps(2))
    finally show ?thesis by simp
  qed simp
qed

text \<open>
  Nesting is bounded. A text that opens 514 arrays in a row is rejected, whatever
  follows, so the recursion of the scanner never goes deeper than \<^verbatim>\<open>MAX_DEPTH\<close> allows.
\<close>

lemma scan_rejects_deep:
  "scan (replicate (MAX_DEPTH + 2) (CHR ''['') @ r) = None"
  using deep_arrays [of "[]" "MAX_DEPTH + 1"] by (simp add: scan_def scan_fuel_def)

text \<open>
  The scanner accepts some text that is not JSON: \<^verbatim>\<open>u32::from_str_radix\<close> takes a plus
  sign, so the string literal \<^verbatim>\<open>"\u+041"\<close> is read as the letter A.
\<close>

lemma scan_accepts_plus_escape:
  "jstring (CHR 0x22 # CHR 0x5C # ''u+041'' @ [CHR 0x22]) = Some (''A'', [])
   \<and> scan (CHR 0x22 # CHR 0x5C # ''u+041'' @ [CHR 0x22]) = Some []"
proof -
  have "unicode_escape (''+041'' @ [CHR 0x22]) = Some (''A'', [CHR 0x22])"
    by (simp add: unicode_escape_def hex4_def from_str_radix16_def hex_digit_def push_char_def
        is_scalar_def utf8_encode_def)
  then have j: "jstring (CHR 0x22 # CHR 0x5C # ''u+041'' @ [CHR 0x22]) = Some (''A'', [])"
    by (simp add: jstring_def plain_char_def string_slow.simps [of "[]"] string_slow.simps [of "''A''"])
  then show ?thesis
    by (simp add: scan_def scan_fuel_def jvalue.simps(2) skip_ws_def json_ws_def jscalar_def
        is_url_text_def Let_def numeral_eq_Suc)
qed

end
