(* ===== verification/Logging.thy ===== *)
theory Logging
  imports Json_Print
begin

text \<open>
  \<^verbatim>\<open>src/src/logging.rs\<close>: levels, the logging configuration, and the text of one log line in
  the text and the JSON format. The clock is an argument; writing the line to the sink is
  not modelled.
\<close>

section \<open>Configuration\<close>

datatype level = Debug | Info | Warn | Error

primrec level_rank :: "level \<Rightarrow> nat" where
  "level_rank Debug = 0" | "level_rank Info = 1" | "level_rank Warn = 2" | "level_rank Error = 3"

instantiation level :: linorder
begin

definition less_eq_level :: "level \<Rightarrow> level \<Rightarrow> bool" where
  "less_eq_level a b \<longleftrightarrow> level_rank a \<le> level_rank b"

definition less_level :: "level \<Rightarrow> level \<Rightarrow> bool" where
  "less_level a b \<longleftrightarrow> level_rank a < level_rank b"

instance
proof
  fix a b c :: level
  show "(a < b) = (a \<le> b \<and> \<not> b \<le> a)" by (auto simp: less_level_def less_eq_level_def)
  show "a \<le> a" by (simp add: less_eq_level_def)
  show "a \<le> b \<Longrightarrow> b \<le> c \<Longrightarrow> a \<le> c" by (simp add: less_eq_level_def)
  show "a \<le> b \<Longrightarrow> b \<le> a \<Longrightarrow> a = b" by (cases a; cases b) (simp_all add: less_eq_level_def)
  show "a \<le> b \<or> b \<le> a" by (auto simp: less_eq_level_def)
qed

end

primrec level_str :: "level \<Rightarrow> string" where
  "level_str Debug = ''DEBUG''"
| "level_str Info = ''INFO''"
| "level_str Warn = ''WARN''"
| "level_str Error = ''ERROR''"

datatype log_format = Text | Json

record log_config =
  l_level :: level
  l_format :: log_format
  l_time :: bool

definition log_config_default :: log_config where
  "log_config_default = \<lparr>l_level = Info, l_format = Text, l_time = True\<rparr>"

definition DEFAULT_LEVEL :: string where "DEFAULT_LEVEL = ''info''"

definition DEFAULT_FORMAT :: string where "DEFAULT_FORMAT = ''text''"

datatype log_error = BadLogLevel | BadLogFormat

definition log_parse_config :: "string \<Rightarrow> string \<Rightarrow> bool \<Rightarrow> (log_error, log_config) res" where
  "log_parse_config level format time =
     (let level = to_ascii_lowercase (trim level); format = to_ascii_lowercase (trim format) in
      bind_res
        (if level = ''debug'' then Inr Debug
         else if level = ''info'' then Inr Info
         else if level = ''warn'' \<or> level = ''warning'' then Inr Warn
         else if level = ''error'' then Inr Error
         else Inl BadLogLevel) (\<lambda>level.
      bind_res
        (if format = ''text'' then Inr Text
         else if format = ''json'' then Inr Json
         else Inl BadLogFormat) (\<lambda>format.
      Inr \<lparr>l_level = level, l_format = format, l_time = time\<rparr>)))"

section \<open>Values\<close>

text \<open>A duration is its length in nanoseconds.\<close>

datatype log_value = VStr string | VInt int | VBool bool | VList "string list" | VDuration nat

definition show_bool :: "bool \<Rightarrow> string" where
  "show_bool b = (if b then ''true'' else ''false'')"

text \<open>Zero-padded numbers, \<^verbatim>\<open>{:0w}\<close>.\<close>

definition pad :: "nat \<Rightarrow> string \<Rightarrow> string" where
  "pad w s = replicate (w - length s) (CHR ''0'') @ s"

text \<open>
  The control characters above ASCII, U+0080 to U+009F, are the two bytes \<^verbatim>\<open>C2\<close> and
  \<^verbatim>\<open>80\<close> to \<^verbatim>\<open>9F\<close>; U+FFFD is \<^verbatim>\<open>EF BF BD\<close>.
\<close>

definition needs_quoting :: "string \<Rightarrow> bool" where
  "needs_quoting s \<longleftrightarrow> s = [] \<or> CHR '' '' \<in> set s \<or> CHR ''='' \<in> set s \<or> CHR 0x22 \<in> set s
     \<or> has_control s \<or> contains_str replacement_char s"

fun text_chars :: "string \<Rightarrow> string" where
  "text_chars [] = []"
| "text_chars (c # s) =
     (if c = CHR 0x22 then CHR 0x5C # CHR 0x22 # text_chars s
      else if c = CHR 0x5C then CHR 0x5C # CHR 0x5C # text_chars s
      else if c = CHR 0x0A then CHR 0x5C # CHR ''n'' # text_chars s
      else if c = CHR 0x0D then CHR 0x5C # CHR ''r'' # text_chars s
      else if c = CHR 0x09 then CHR 0x5C # CHR ''t'' # text_chars s
      else if byte c < 0x20 \<or> byte c = 0x7F then CHR 0x5C # CHR ''x'' # hex2 (byte c) @ text_chars s
      else if byte c = 0xC2 \<and> s \<noteq> [] \<and> 0x80 \<le> byte (hd s) \<and> byte (hd s) < 0xA0
        then CHR 0x5C # CHR ''x'' # hex2 (byte (hd s)) @ text_chars (tl s)
      else c # text_chars s)"

definition text_string :: "string \<Rightarrow> string" where
  "text_string s = (if \<not> needs_quoting s then s else CHR 0x22 # text_chars s @ [CHR 0x22])"

text \<open>\<open>n\<close> nanoseconds; \<open>as_micros\<close> drops what is below a microsecond.\<close>

definition trim_end_zeros :: "string \<Rightarrow> string" where
  "trim_end_zeros s = rev (dropWhile (\<lambda>c. c = CHR ''0'') (rev s))"

definition format_duration :: "nat \<Rightarrow> string" where
  "format_duration d =
     (let ms = (d div 1000 + 500) div 1000 in
      if ms = 0 then ''0s''
      else if ms < 1000 then show_nat ms @ ''ms''
      else
        (let total_secs = ms div 1000; frac = ms mod 1000;
             hours = total_secs div 3600; minutes = total_secs mod 3600 div 60;
             secs = total_secs mod 60 in
         (if 0 < hours then show_nat hours @ ''h'' else [])
         @ (if 0 < hours \<or> 0 < minutes then show_nat minutes @ ''m'' else [])
         @ (if frac = 0 then show_nat secs @ ''s''
            else show_nat secs @ ''.'' @ trim_end_zeros (pad 3 (show_nat frac)) @ ''s'')))"

section \<open>Time\<close>

text \<open>
  \<open>div\<close> and \<open>mod\<close> on \<open>int\<close> with a positive divisor are \<^verbatim>\<open>div_euclid\<close> and \<^verbatim>\<open>rem_euclid\<close>;
  the plain divisions of the source have non-negative operands.
\<close>

definition civil_from_days :: "int \<Rightarrow> int \<times> int \<times> int" where
  "civil_from_days days =
     (let z = days + 719468;
          era = z div 146097;
          doe = z mod 146097;
          yoe = (doe - doe div 1460 + doe div 36524 - doe div 146096) div 365;
          y = yoe + era * 400;
          doy = doe - (365 * yoe + yoe div 4 - yoe div 100);
          mp = (5 * doy + 2) div 153;
          d = doy - (153 * mp + 2) div 5 + 1;
          m = (if mp < 10 then mp + 3 else mp - 9) in
      (if m \<le> 2 then y + 1 else y, m, d))"

text \<open>\<open>millis\<close> is the time since the epoch in milliseconds, zero for a clock before it.\<close>

definition format_time :: "nat \<Rightarrow> string" where
  "format_time millis =
     (let secs = millis div 1000;
          rem = secs mod 86400;
          (year, month, day) = civil_from_days (int (secs div 86400)) in
      pad 4 (show_int year) @ ''-'' @ pad 2 (show_int month) @ ''-'' @ pad 2 (show_int day) @ ''T''
      @ pad 2 (show_nat (rem div 3600)) @ '':'' @ pad 2 (show_nat (rem mod 3600 div 60)) @ '':''
      @ pad 2 (show_nat (rem mod 60)) @ ''.'' @ pad 3 (show_nat (millis mod 1000)) @ ''Z'')"

section \<open>Lines\<close>

primrec text_value :: "log_value \<Rightarrow> string" where
  "text_value (VStr s) = text_string s"
| "text_value (VInt i) = show_int i"
| "text_value (VBool b) = show_bool b"
| "text_value (VList items) = text_string (''['' @ join '' '' items @ '']'')"
| "text_value (VDuration d) = format_duration d"

primrec json_value :: "log_value \<Rightarrow> string" where
  "json_value (VStr s) = json_string s"
| "json_value (VInt i) = show_int i"
| "json_value (VBool b) = show_bool b"
| "json_value (VList items) = ''['' @ join '','' (map json_string items) @ '']''"
| "json_value (VDuration d) = show_nat d"

record logger =
  lg_config :: log_config
  lg_attrs :: "(string \<times> log_value) list"

definition log_with :: "logger \<Rightarrow> (string \<times> log_value) list \<Rightarrow> logger" where
  "log_with lg attrs = lg\<lparr>lg_attrs := lg_attrs lg @ attrs\<rparr>"

definition log_enabled :: "logger \<Rightarrow> level \<Rightarrow> bool" where
  "log_enabled lg level \<longleftrightarrow> l_level (lg_config lg) \<le> level"

definition text_line :: "string option \<Rightarrow> level \<Rightarrow> string \<Rightarrow> (string \<times> log_value) list \<Rightarrow> string" where
  "text_line time level msg attrs =
     (case time of Some t \<Rightarrow> ''time='' @ t @ '' '' | None \<Rightarrow> [])
     @ ''level='' @ level_str level @ '' msg='' @ text_string msg
     @ concat (map (\<lambda>(key, v). '' '' @ key @ ''='' @ text_value v) attrs)"

definition json_line :: "string option \<Rightarrow> level \<Rightarrow> string \<Rightarrow> (string \<times> log_value) list \<Rightarrow> string" where
  "json_line time level msg attrs =
     ''{''
     @ (case time of Some t \<Rightarrow> CHR 0x22 # ''time'' @ CHR 0x22 # '':'' @ json_string t @ '','' | None \<Rightarrow> [])
     @ CHR 0x22 # ''level'' @ CHR 0x22 # '':'' @ json_string (level_str level)
     @ '','' @ CHR 0x22 # ''msg'' @ CHR 0x22 # '':'' @ json_string msg
     @ concat (map (\<lambda>(key, v). '','' @ json_string key @ '':'' @ json_value v) attrs)
     @ ''}''"

text \<open>The line written for a call, \<open>None\<close> when the level is off. \<open>now\<close> is the clock.\<close>

definition log_line ::
  "logger \<Rightarrow> nat \<Rightarrow> level \<Rightarrow> string \<Rightarrow> (string \<times> log_value) list \<Rightarrow> string option" where
  "log_line lg now level msg attrs =
     (if \<not> log_enabled lg level then None
      else
        (let time = (if l_time (lg_config lg) then Some (format_time now) else None);
             attrs = lg_attrs lg @ attrs in
         Some ((case l_format (lg_config lg) of
                  Text \<Rightarrow> text_line time level msg attrs
                | Json \<Rightarrow> json_line time level msg attrs) @ [CHR 0x0A])))"

section \<open>No line breaks inside a line\<close>

definition one_line :: "string \<Rightarrow> bool" where
  "one_line s \<longleftrightarrow> CHR 0x0A \<notin> set s"

lemma one_line_simps [simp]:
  "one_line []" "one_line (c # s) \<longleftrightarrow> c \<noteq> CHR 0x0A \<and> one_line s"
  "one_line (s @ t) \<longleftrightarrow> one_line s \<and> one_line t"
  by (auto simp: one_line_def)

lemma one_line_concat: "\<forall>s\<in>set ss. one_line s \<Longrightarrow> one_line (concat ss)"
  by (auto simp: one_line_def)

lemma one_line_hex2: "n < 256 \<Longrightarrow> one_line (hex2 n)"
proof -
  assume n: "n < 256"
  have nl: "hex_nibble d \<noteq> CHR 0x0A" if "d < 16" for d
  proof
    assume "hex_nibble d = CHR 0x0A"
    then have "byte (hex_nibble d) = 10" by simp
    then show False using that by (simp add: hex_nibble_def byte_char_of split: if_splits)
  qed
  from nl [of "n div 16"] nl [of "n mod 16"] n show ?thesis by (simp add: hex2_def)
qed

lemma one_line_show_nat: "one_line (show_nat n)"
  using show_nat_all_digits by (force simp: one_line_def is_ascii_digit_def)

lemma one_line_show_int: "one_line (show_int i)"
  by (simp add: show_int_def one_line_show_nat)

lemma one_line_pad: "one_line s \<Longrightarrow> one_line (pad w s)"
  by (auto simp: pad_def one_line_def)

lemma has_control_newline: "CHR 0x0A \<in> set s \<Longrightarrow> has_control s"
  by (induction s rule: has_control.induct) auto

lemma one_line_text_chars: "one_line (text_chars s)"
  by (induction s rule: text_chars.induct) (auto simp: one_line_hex2)

lemma one_line_text_string: "one_line (text_string s)"
  using has_control_newline [of s]
  by (auto simp: text_string_def needs_quoting_def one_line_text_chars) (auto simp: one_line_def)

lemma one_line_json_char: "one_line (json_char c)"
  by (auto simp: json_char_def one_line_hex2)

lemma one_line_json_string: "one_line (json_string s)"
  by (auto simp: json_string_def one_line_json_char intro!: one_line_concat)

lemma one_line_trim_end_zeros: "one_line s \<Longrightarrow> one_line (trim_end_zeros s)"
  unfolding one_line_def trim_end_zeros_def by (auto dest: set_dropWhileD)

lemmas one_line_numbers = one_line_show_nat one_line_show_int one_line_pad one_line_trim_end_zeros

lemma one_line_format_duration: "one_line (format_duration d)"
  by (simp add: format_duration_def Let_def one_line_numbers)

lemma one_line_format_time: "one_line (format_time t)"
  by (simp add: format_time_def Let_def one_line_numbers split: prod.split)

lemma one_line_join: "\<forall>s\<in>set ss. one_line s \<Longrightarrow> one_line sep \<Longrightarrow> one_line (join sep ss)"
  by (induction sep ss rule: join.induct) auto

lemma one_line_level: "one_line (level_str l)"
  by (cases l) simp_all

lemma one_line_text_value: "one_line (text_value v)"
  by (cases v) (simp_all add: one_line_text_string one_line_numbers one_line_format_duration show_bool_def)

lemma one_line_json_value: "one_line (json_value v)"
  by (cases v) (auto simp: one_line_json_string one_line_numbers show_bool_def intro!: one_line_join)

section \<open>Properties\<close>

text \<open>
  C30: No log injection. Whatever the message and the attribute values are, a log record
  with attribute names free of line breaks is exactly one line: the only newline of the
  written text is its last byte, in both formats.
\<close>

theorem log_line_is_one_line:
  assumes "log_line lg now level msg attrs = Some line"
    and "\<forall>kv\<in>set (lg_attrs lg @ attrs). one_line (fst kv)"
  shows "\<exists>s. line = s @ [CHR 0x0A] \<and> one_line s"
proof -
  let ?a = "lg_attrs lg @ attrs"
  have t: "one_line (text_line t level msg ?a)" if "t = None \<or> t = Some (format_time now)" for t
  proof -
    have "one_line (concat (map (\<lambda>(key, v). '' '' @ key @ ''='' @ text_value v) ?a))"
      using assms(2) by (intro one_line_concat) (force simp: one_line_text_value)
    then show ?thesis using that
      by (auto simp: text_line_def one_line_level one_line_text_string one_line_format_time)
  qed
  have j: "one_line (json_line t level msg ?a)" for t
    by (auto simp: json_line_def one_line_json_string one_line_json_value
        intro!: one_line_concat split: option.splits)
  show ?thesis using assms(1) t j
    by (auto simp: log_line_def Let_def split: if_splits log_format.splits)
qed

theorem log_line_is_one_line_witness:
  "\<exists>s. the (log_line \<lparr>lg_config = log_config_default\<lparr>l_time := False\<rparr>, lg_attrs = []\<rparr> 0 Warn
        (''a'' @ [CHR 0x0A] @ ''level=INFO'') [(''path'', VStr [CHR 0x0A])]) = s @ [CHR 0x0A]
      \<and> one_line s"
  using log_line_is_one_line
    [of "\<lparr>lg_config = log_config_default\<lparr>l_time := False\<rparr>, lg_attrs = []\<rparr>" 0 Warn
      "''a'' @ [CHR 0x0A] @ ''level=INFO''" "[(''path'', VStr [CHR 0x0A])]"]
  by (simp add: log_line_def log_enabled_def log_config_default_def less_eq_level_def)

text \<open>The record a JSON line stands for.\<close>

primrec value_json :: "log_value \<Rightarrow> json" where
  "value_json (VStr s) = JStr s"
| "value_json (VInt i) = JNum i"
| "value_json (VBool b) = JBool b"
| "value_json (VList items) = JArr (map JStr items)"
| "value_json (VDuration d) = JNum (int d)"

definition record_json :: "string option \<Rightarrow> level \<Rightarrow> string \<Rightarrow> (string \<times> log_value) list \<Rightarrow> json" where
  "record_json time level msg attrs =
     JObj ((case time of Some t \<Rightarrow> [(''time'', JStr t)] | None \<Rightarrow> [])
       @ [(''level'', JStr (level_str level)), (''msg'', JStr msg)]
       @ map (\<lambda>(k, v). (k, value_json v)) attrs)"

lemma json_print_value: "json_print (value_json v) = json_value v"
  by (cases v) (simp_all add: show_bool_def show_int_def comp_def)

lemma json_depth_value: "json_depth (value_json v) \<le> 1"
proof -
  have "foldr max (map Suc (map json_depth (map JStr xs))) 0 \<le> 1" for xs by (induction xs) auto
  then show ?thesis by (cases v) auto
qed

lemma foldr_max_le: "\<forall>x\<in>set xs. x \<le> n \<Longrightarrow> foldr max xs 0 \<le> (n :: nat)"
  by (induction xs) auto

lemma record_depth: "json_depth (record_json time level msg attrs) \<le> MAX_DEPTH"
proof -
  have "Suc (json_depth (value_json v)) \<le> MAX_DEPTH" for v
    using json_depth_value [of v] by (simp add: MAX_DEPTH_def)
  then show ?thesis unfolding record_json_def json_depth.simps
    by (intro foldr_max_le) (auto simp: MAX_DEPTH_def split: option.splits)
qed

lemma record_print: "json_print (record_json time level msg attrs) = json_line time level msg attrs"
proof -
  have lit: "json_string ''time'' = CHR 0x22 # ''time'' @ [CHR 0x22]"
    "json_string ''level'' = CHR 0x22 # ''level'' @ [CHR 0x22]"
    "json_string ''msg'' = CHR 0x22 # ''msg'' @ [CHR 0x22]"
    by (simp_all add: json_string_def json_char_def)
  have "(\<lambda>(key, v). CHR '','' # json_string key @ CHR '':'' # json_value v)
      = (\<lambda>x. CHR '','' # json_string (fst x) @ CHR '':'' # json_value (snd x))" by auto
  then show ?thesis
    unfolding record_json_def json_print_obj json_line_def
    by (cases time) (simp_all add: join_concat member_text_def lit comp_def split_beta json_print_value
        del: json_print.simps(6))
qed

text \<open>
  A log line in the JSON format is JSON. Whatever the strings are, the written line is
  the text of the object with the members time, level, message and the attributes in
  order, and the scanner accepts it.
\<close>

lemma json_log_line_is_json:
  "json_line time level msg attrs = json_print (record_json time level msg attrs)
   \<and> scan (json_line time level msg attrs) \<noteq> None"
  using scan_finds_url_list [OF record_depth [of time level msg attrs]] record_print [of time level msg attrs]
  by auto

end
