(* ===== verification/Stats.thy ===== *)
theory Stats
  imports Auth_Store Logging "HOL-Library.List_Lexorder" "HOL-Library.Char_ord"
begin

text \<open>
  \<^verbatim>\<open>src/src/stats.rs\<close>: the kind of a request, the sharded counters, and the history of
  totals per day that a flush updates and saves. The atomic counters are 64-bit words; a
  \<^verbatim>\<open>BTreeMap\<close> is a list of pairs with increasing keys. The date, the clock and the file
  system are arguments.
\<close>

section \<open>Kinds\<close>

datatype kind = Api | Media | Image

definition KINDS :: "kind list" where
  "KINDS = [Api, Media, Image]"

primrec kind_name :: "kind \<Rightarrow> string" where
  "kind_name Api = ''api''"
| "kind_name Media = ''media''"
| "kind_name Image = ''image''"

text \<open>The loop over the segments after the first.\<close>

fun classify_rest :: "string list \<Rightarrow> kind" where
  "classify_rest [] = Api"
| "classify_rest (segment # rest) =
     (if eq_ignore_ascii_case segment ''images'' then Image
      else if eq_ignore_ascii_case segment ''download'' then Media
      else classify_rest rest)"

definition classify :: "string \<Rightarrow> kind" where
  "classify path =
     (if prefix ''/_proxy/'' path then Media
      else
        (let segments = filter (\<lambda>s. s \<noteq> []) (split_on (CHR ''/'') path);
             segments = (case segments of
                 s # rest \<Rightarrow> if eq_ignore_ascii_case s ''emby'' \<or> eq_ignore_ascii_case s ''mediabrowser''
                             then rest else segments
               | [] \<Rightarrow> []) in
         case segments of
           [] \<Rightarrow> Api
         | first # rest \<Rightarrow>
             if eq_ignore_ascii_case first ''videos'' \<or> eq_ignore_ascii_case first ''audio'' then Media
             else classify_rest rest))"

section \<open>Counters\<close>

record totals =
  t_requests :: "64 word"
  t_bytes_out :: "64 word"
  t_bytes_in :: "64 word"

definition no_totals :: totals where
  "no_totals = \<lparr>t_requests = 0, t_bytes_out = 0, t_bytes_in = 0\<rparr>"

definition totals_add :: "totals \<Rightarrow> totals \<Rightarrow> totals" where
  "totals_add a b =
     \<lparr>t_requests = t_requests a + t_requests b, t_bytes_out = t_bytes_out a + t_bytes_out b,
      t_bytes_in = t_bytes_in a + t_bytes_in b\<rparr>"

definition saturating_sub :: "64 word \<Rightarrow> 64 word \<Rightarrow> 64 word" where
  "saturating_sub a b = (if b \<le> a then a - b else 0)"

definition totals_minus :: "totals \<Rightarrow> totals \<Rightarrow> totals" where
  "totals_minus a b =
     \<lparr>t_requests = saturating_sub (t_requests a) (t_requests b),
      t_bytes_out = saturating_sub (t_bytes_out a) (t_bytes_out b),
      t_bytes_in = saturating_sub (t_bytes_in a) (t_bytes_in b)\<rparr>"

definition SHARDS :: nat where
  "SHARDS = 16"

text \<open>\<open>sh_active\<close> is an \<^verbatim>\<open>AtomicI64\<close>, read as signed.\<close>

record shard =
  sh_requests :: "64 word"
  sh_bytes_out :: "64 word"
  sh_bytes_in :: "64 word"
  sh_active :: "64 word"

definition shard_default :: shard where
  "shard_default = \<lparr>sh_requests = 0, sh_bytes_out = 0, sh_bytes_in = 0, sh_active = 0\<rparr>"

type_synonym counters = "shard list"

definition counters_default :: counters where
  "counters_default = replicate SHARDS shard_default"

text \<open>The shard of the \<open>n\<close>-th thread that touches any counter.\<close>

definition shard_index :: "nat \<Rightarrow> nat" where
  "shard_index n = n mod SHARDS"

definition update_shard :: "(shard \<Rightarrow> shard) \<Rightarrow> nat \<Rightarrow> counters \<Rightarrow> counters" where
  "update_shard f thread cs = cs[shard_index thread := f (cs ! shard_index thread)]"

definition add_request :: "nat \<Rightarrow> counters \<Rightarrow> counters" where
  "add_request thread = update_shard (\<lambda>s. s\<lparr>sh_requests := sh_requests s + 1\<rparr>) thread"

definition add_bytes_out :: "64 word \<Rightarrow> nat \<Rightarrow> counters \<Rightarrow> counters" where
  "add_bytes_out n thread = update_shard (\<lambda>s. s\<lparr>sh_bytes_out := sh_bytes_out s + n\<rparr>) thread"

definition add_bytes_in :: "64 word \<Rightarrow> nat \<Rightarrow> counters \<Rightarrow> counters" where
  "add_bytes_in n thread = update_shard (\<lambda>s. s\<lparr>sh_bytes_in := sh_bytes_in s + n\<rparr>) thread"

definition stream_started :: "nat \<Rightarrow> counters \<Rightarrow> counters" where
  "stream_started thread = update_shard (\<lambda>s. s\<lparr>sh_active := sh_active s + 1\<rparr>) thread"

definition stream_finished :: "nat \<Rightarrow> counters \<Rightarrow> counters" where
  "stream_finished thread = update_shard (\<lambda>s. s\<lparr>sh_active := sh_active s - 1\<rparr>) thread"

definition counters_totals :: "counters \<Rightarrow> totals" where
  "counters_totals cs =
     foldl (\<lambda>t s. \<lparr>t_requests = t_requests t + sh_requests s,
                   t_bytes_out = t_bytes_out t + sh_bytes_out s,
                   t_bytes_in = t_bytes_in t + sh_bytes_in s\<rparr>) no_totals cs"

definition counters_active :: "counters \<Rightarrow> 64 word" where
  "counters_active cs =
     (let active = foldl (\<lambda>a s. a + sh_active s) 0 cs in if sint active < 0 then 0 else active)"

section \<open>Ordered maps\<close>

text \<open>\<^verbatim>\<open>entry(k).or_default()\<close> followed by an update in place.\<close>

fun entry_update :: "'k::linorder \<Rightarrow> 'v \<Rightarrow> ('v \<Rightarrow> 'v) \<Rightarrow> ('k \<times> 'v) list \<Rightarrow> ('k \<times> 'v) list" where
  "entry_update k d f [] = [(k, f d)]"
| "entry_update k d f ((k', v) # xs) =
     (if k < k' then (k, f d) # (k', v) # xs
      else if k = k' then (k', f v) # xs
      else (k', v) # entry_update k d f xs)"

definition ordered :: "('k::linorder \<times> 'v) list \<Rightarrow> bool" where
  "ordered xs \<longleftrightarrow> sorted_wrt (<) (map fst xs)"

section \<open>History\<close>

type_synonym kinds_map = "(string \<times> totals) list"
type_synonym days = "(string \<times> (string \<times> kinds_map) list) list"

definition KEEP_DAYS :: nat where
  "KEEP_DAYS = 400"

record route_stats =
  rt_name :: string
  rt_kinds :: "kind \<Rightarrow> counters"

record stats =
  ss_routes :: "route_stats list"
  ss_path :: "string option"
  ss_days :: days
  ss_flushed :: "(kind \<Rightarrow> totals) list"
  ss_started_at :: string

datatype stats_error = StatsLoad | StatsSave

record stats_crate =
  days_to_json :: "days \<Rightarrow> bytes"
  days_from_json :: "bytes \<Rightarrow> days option"

definition stats_open ::
  "stats_crate \<Rightarrow> bool \<Rightarrow> string \<Rightarrow> string list \<Rightarrow> string option \<Rightarrow> files \<Rightarrow> (stats_error, stats) res" where
  "stats_open X read_ok now routes path fs =
     (let loaded =
            (case path of
               None \<Rightarrow> Inr []
             | Some p \<Rightarrow>
                 if \<not> read_ok then Inl StatsLoad
                 else case fs p of
                   None \<Rightarrow> Inr []
                 | Some (_, data) \<Rightarrow> ok_or StatsLoad (days_from_json X data)) in
      bind_res loaded (\<lambda>days.
        Inr \<lparr>ss_routes = map (\<lambda>name. \<lparr>rt_name = name, rt_kinds = (\<lambda>_. counters_default)\<rparr>) routes,
             ss_path = path, ss_days = days,
             ss_flushed = replicate (length routes) (\<lambda>_. no_totals),
             ss_started_at = now\<rparr>))"

definition stats_route :: "stats \<Rightarrow> string \<Rightarrow> route_stats option" where
  "stats_route st name = find (\<lambda>r. rt_name r = name) (ss_routes st)"

definition add_delta :: "string \<Rightarrow> string \<Rightarrow> string \<Rightarrow> totals \<Rightarrow> days \<Rightarrow> days" where
  "add_delta today route kind delta =
     entry_update today [] (entry_update route [] (entry_update kind no_totals (\<lambda>t. totals_add t delta)))"

text \<open>The inner loop over the kinds, for one route and what was flushed of it.\<close>

fun flush_kinds ::
  "string \<Rightarrow> route_stats \<Rightarrow> kind list \<Rightarrow> days \<times> (kind \<Rightarrow> totals) \<Rightarrow> days \<times> (kind \<Rightarrow> totals)" where
  "flush_kinds today route [] (days, flushed) = (days, flushed)"
| "flush_kinds today route (kind # kinds) (days, flushed) =
     (let current = counters_totals (rt_kinds route kind);
          delta = totals_minus current (flushed kind);
          flushed = flushed(kind := current);
          days = (if delta = no_totals then days
                  else add_delta today (rt_name route) (kind_name kind) delta days) in
      flush_kinds today route kinds (days, flushed))"

fun flush_routes ::
  "string \<Rightarrow> (route_stats \<times> (kind \<Rightarrow> totals)) list \<Rightarrow> days \<Rightarrow> days \<times> (kind \<Rightarrow> totals) list" where
  "flush_routes today [] days = (days, [])"
| "flush_routes today ((route, flushed) # rest) days =
     (let (days, flushed) = flush_kinds today route KINDS (days, flushed);
          (days, others) = flush_routes today rest days in
      (days, flushed # others))"

fun prune :: "days \<Rightarrow> days" where
  "prune [] = []"
| "prune (d # days) = (if KEEP_DAYS < length (d # days) then prune days else d # days)"

definition flush_on ::
  "stats_crate \<Rightarrow> write_io \<Rightarrow> string \<Rightarrow> stats \<Rightarrow> files \<Rightarrow> (stats_error, unit) res \<times> stats \<times> files" where
  "flush_on X io today st fs =
     (let (days, flushed) = flush_routes today (zip (ss_routes st) (ss_flushed st)) (ss_days st);
          days = prune days;
          st = st\<lparr>ss_days := days, ss_flushed := flushed @ drop (length flushed) (ss_flushed st)\<rparr> in
      case ss_path st of
        None \<Rightarrow> (Inr (), st, fs)
      | Some path \<Rightarrow>
          (let (ok, trace) = write_private_file io path (days_to_json X days) fs in
           (if ok then Inr () else Inl StatsSave, st, last trace)))"

section \<open>Reports\<close>

record kind_report =
  kr_today :: totals
  kr_month :: totals
  kr_since_start :: totals
  kr_active :: "64 word"

definition stored :: "days \<Rightarrow> string \<Rightarrow> string \<Rightarrow> string \<Rightarrow> totals" where
  "stored days date route kind =
     (case Option.bind (Option.bind (map_of days date) (\<lambda>routes. map_of routes route))
             (\<lambda>kinds. map_of kinds kind) of
        Some t \<Rightarrow> t | None \<Rightarrow> no_totals)"

definition kind_report_on ::
  "days \<Rightarrow> string \<Rightarrow> route_stats \<Rightarrow> (kind \<Rightarrow> totals) \<Rightarrow> kind \<Rightarrow> kind_report" where
  "kind_report_on days today route flushed kind =
     (let month = take 7 today;
          counters = rt_kinds route kind;
          since_start = counters_totals counters;
          pending = totals_minus since_start (flushed kind) in
      \<lparr>kr_today = totals_add (stored days today (rt_name route) (kind_name kind)) pending,
       kr_month = foldl (\<lambda>t date. totals_add t (stored days date (rt_name route) (kind_name kind)))
                    pending (filter (prefix month) (map fst days)),
       kr_since_start = since_start,
       kr_active = counters_active counters\<rparr>)"

text \<open>A report; the kinds of a route are a map from the kind's name.\<close>

record route_report =
  rr_route :: string
  rr_kinds :: "(string \<times> kind_report) list"

record report =
  re_version :: string
  re_started_at :: string
  re_today :: string
  re_routes :: "route_report list"

definition report_on :: "string \<Rightarrow> string \<Rightarrow> stats \<Rightarrow> report" where
  "report_on version today st =
     \<lparr>re_version = version, re_started_at = ss_started_at st, re_today = today,
      re_routes =
        map (\<lambda>(route, flushed).
            \<lparr>rr_route = rt_name route,
             rr_kinds = map (\<lambda>kind. (kind_name kind,
                 kind_report_on (ss_days st) today route flushed kind)) KINDS\<rparr>)
          (zip (ss_routes st) (ss_flushed st))\<rparr>"

definition METRICS :: "(string \<times> string \<times> string \<times> (counters \<Rightarrow> 64 word)) list" where
  "METRICS =
     [(''proxemby_requests_total'', ''counter'', ''Requests handled.'',
       (\<lambda>c. t_requests (counters_totals c))),
      (''proxemby_response_bytes_total'', ''counter'', ''Bytes sent to clients.'',
       (\<lambda>c. t_bytes_out (counters_totals c))),
      (''proxemby_request_bytes_total'', ''counter'', ''Bytes received from clients.'',
       (\<lambda>c. t_bytes_in (counters_totals c))),
      (''proxemby_active_streams'', ''gauge'', ''Responses currently streaming to clients.'',
       counters_active)]"

definition metric_line :: "string \<Rightarrow> string \<Rightarrow> kind \<Rightarrow> 64 word \<Rightarrow> string" where
  "metric_line name route kind n =
     name @ ''{route='' @ [CHR 0x22] @ route @ [CHR 0x22] @ '',kind='' @ [CHR 0x22] @ kind_name kind
     @ [CHR 0x22] @ ''} '' @ show_nat (unat n) @ [CHR 0x0A]"

definition prometheus :: "string \<Rightarrow> stats \<Rightarrow> string" where
  "prometheus version st =
     concat (map (\<lambda>(name, metric_type, help, metric).
         ''# HELP '' @ name @ '' '' @ help @ [CHR 0x0A]
         @ ''# TYPE '' @ name @ '' '' @ metric_type @ [CHR 0x0A]
         @ concat (map (\<lambda>route. concat (map (\<lambda>kind.
               metric_line name (rt_name route) kind (metric (rt_kinds route kind))) KINDS)) (ss_routes st)))
       METRICS)
     @ ''# HELP proxemby_build_info Build information.'' @ [CHR 0x0A]
     @ ''# TYPE proxemby_build_info gauge'' @ [CHR 0x0A]
     @ ''proxemby_build_info{version='' @ [CHR 0x22] @ version @ [CHR 0x22] @ ''} 1'' @ [CHR 0x0A]"

definition admin_connect_addr :: "string \<Rightarrow> string" where
  "admin_connect_addr listen =
     (case strip_prefix '':'' listen of
        Some port \<Rightarrow> ''127.0.0.1:'' @ port
      | None \<Rightarrow>
          (case strip_prefix ''0.0.0.0:'' listen of
             Some port \<Rightarrow> ''127.0.0.1:'' @ port
           | None \<Rightarrow>
               (case strip_prefix ''[::]:'' listen of
                  Some port \<Rightarrow> ''[::1]:'' @ port
                | None \<Rightarrow> listen)))"

section \<open>Shards do not matter\<close>

lemma counters_totals_sums:
  "counters_totals cs = \<lparr>t_requests = sum_list (map sh_requests cs),
     t_bytes_out = sum_list (map sh_bytes_out cs), t_bytes_in = sum_list (map sh_bytes_in cs)\<rparr>"
proof -
  have "foldl (\<lambda>t s. \<lparr>t_requests = t_requests t + sh_requests s,
          t_bytes_out = t_bytes_out t + sh_bytes_out s, t_bytes_in = t_bytes_in t + sh_bytes_in s\<rparr>) t cs
      = \<lparr>t_requests = t_requests t + sum_list (map sh_requests cs),
         t_bytes_out = t_bytes_out t + sum_list (map sh_bytes_out cs),
         t_bytes_in = t_bytes_in t + sum_list (map sh_bytes_in cs)\<rparr>" for t
    by (induction cs arbitrary: t) (simp_all add: add.assoc)
  then show ?thesis by (simp add: counters_totals_def no_totals_def)
qed

lemma counters_active_sum:
  "counters_active cs = (let a = sum_list (map sh_active cs) in if sint a < 0 then 0 else a)"
proof -
  have "foldl (\<lambda>a s. a + sh_active s) b cs = b + sum_list (map sh_active cs)" for b
    by (induction cs arbitrary: b) (simp_all add: add.assoc)
  then show ?thesis by (simp add: counters_active_def)
qed

lemma sum_list_update_word:
  "i < length xs \<Longrightarrow> sum_list (xs[i := x]) = sum_list xs + (x - xs ! i :: 64 word)"
proof (induction xs arbitrary: i)
  case (Cons y ys)
  then show ?case by (cases i) (simp_all add: algebra_simps)
qed simp

lemma shard_index_less: "length cs = SHARDS \<Longrightarrow> shard_index n < length cs"
  by (simp add: shard_index_def SHARDS_def)

lemma update_shard_length [simp]: "length (update_shard f n cs) = length cs"
  by (simp add: update_shard_def)

lemma update_shard_sum:
  assumes "length cs = SHARDS"
  shows "sum_list (map g (update_shard f n cs)) = sum_list (map g cs)
     + (g (f (cs ! shard_index n)) - g (cs ! shard_index n) :: 64 word)"
  using shard_index_less [OF assms, of n]
  by (simp add: update_shard_def map_update sum_list_update_word)

datatype counter_op = Request | BytesOut "64 word" | BytesIn "64 word" | Started | Finished

primrec run_op :: "counter_op \<Rightarrow> nat \<Rightarrow> counters \<Rightarrow> counters" where
  "run_op Request = add_request"
| "run_op (BytesOut n) = add_bytes_out n"
| "run_op (BytesIn n) = add_bytes_in n"
| "run_op Started = stream_started"
| "run_op Finished = stream_finished"

primrec op_totals :: "counter_op \<Rightarrow> totals" where
  "op_totals Request = \<lparr>t_requests = 1, t_bytes_out = 0, t_bytes_in = 0\<rparr>"
| "op_totals (BytesOut n) = \<lparr>t_requests = 0, t_bytes_out = n, t_bytes_in = 0\<rparr>"
| "op_totals (BytesIn n) = \<lparr>t_requests = 0, t_bytes_out = 0, t_bytes_in = n\<rparr>"
| "op_totals Started = no_totals"
| "op_totals Finished = no_totals"

primrec op_active :: "counter_op \<Rightarrow> int" where
  "op_active Request = 0"
| "op_active (BytesOut n) = 0"
| "op_active (BytesIn n) = 0"
| "op_active Started = 1"
| "op_active Finished = - 1"

lemmas counter_defs = add_request_def add_bytes_out_def add_bytes_in_def stream_started_def
  stream_finished_def

lemma run_op_length [simp]: "length (run_op x n cs) = length cs"
  by (cases x) (simp_all add: counter_defs)

lemma run_op_totals:
  "length cs = SHARDS \<Longrightarrow> counters_totals (run_op x n cs) = totals_add (counters_totals cs) (op_totals x)"
  by (cases x) (simp_all add: counters_totals_sums counter_defs update_shard_sum totals_add_def
      no_totals_def)

lemma run_op_active:
  "length cs = SHARDS \<Longrightarrow> sum_list (map sh_active (run_op x n cs))
     = sum_list (map sh_active cs) + of_int (op_active x)"
  by (cases x) (simp_all add: counter_defs update_shard_sum)

definition run_ops :: "(nat \<times> counter_op) list \<Rightarrow> counters \<Rightarrow> counters" where
  "run_ops ops cs = foldl (\<lambda>cs (n, x). run_op x n cs) cs ops"

lemma run_ops_effect:
  assumes "length cs = SHARDS"
  shows "counters_totals (run_ops ops cs) = foldl totals_add (counters_totals cs) (map (op_totals \<circ> snd) ops)"
    and "sum_list (map sh_active (run_ops ops cs))
      = sum_list (map sh_active cs) + of_int (sum_list (map (op_active \<circ> snd) ops))"
  using assms
proof (induction ops arbitrary: cs)
  case (Cons p ops)
  obtain n x where p: "p = (n, x)" by (cases p)
  { case 1
    with Cons.IH(1) [of "run_op x n cs"] show ?case by (simp add: run_ops_def p run_op_totals)
  next
    case 2
    with Cons.IH(2) [of "run_op x n cs"] show ?case by (simp add: run_ops_def p run_op_active) }
qed (simp_all add: run_ops_def)

lemma op_active_bound: "\<bar>sum_list (map (op_active \<circ> snd) ops)\<bar> \<le> int (length ops)"
proof (induction ops)
  case (Cons p ops)
  have "\<bar>op_active (snd p)\<bar> \<le> 1" by (cases "snd p") auto
  with Cons show ?case by auto
qed simp

lemma sint_of_int_small: "\<bar>i\<bar> < 2 ^ 63 \<Longrightarrow> sint (of_int i :: 64 word) = i"
  by (simp add: signed_of_int signed_take_bit_int_eq_self)

section \<open>Ordered maps\<close>

text \<open>
  What the history relies on: updating an entry in place gives the default or the old value
  to the update, leaves the other keys alone, and keeps the keys in order.
\<close>

locale entry_map =
  fixes get :: "'m \<Rightarrow> 'k \<Rightarrow> 'v option"
    and upd :: "'k \<Rightarrow> 'v \<Rightarrow> ('v \<Rightarrow> 'v) \<Rightarrow> 'm \<Rightarrow> 'm"
    and ok :: "'m \<Rightarrow> bool"
  assumes get_upd: "ok m \<Longrightarrow> get (upd k d f m) k' =
      (if k' = k then Some (f (case get m k of Some v \<Rightarrow> v | None \<Rightarrow> d)) else get m k')"
    and ok_upd: "ok m \<Longrightarrow> ok (upd k d f m)"
begin

definition value_at :: "'v \<Rightarrow> 'm \<Rightarrow> 'k \<Rightarrow> 'v" where
  "value_at d m k = (case get m k of Some v \<Rightarrow> v | None \<Rightarrow> d)"

lemma value_upd: "ok m \<Longrightarrow> value_at d (upd k d f m) k' = (if k' = k then f (value_at d m k) else value_at d m k')"
  by (simp add: value_at_def get_upd)

lemma value_upd_id: "ok m \<Longrightarrow> f (value_at d m k) = value_at d m k \<Longrightarrow> value_at d (upd k d f m) = value_at d m"
  by (auto simp: value_upd)

end

lemma entry_update_keys: "set (map fst (entry_update k d f xs)) = insert k (set (map fst xs))"
  by (induction k d f xs rule: entry_update.induct) auto

lemma ordered_Nil [simp]: "ordered []"
  by (simp add: ordered_def)

lemma ordered_Cons: "ordered ((k, v) # xs) \<longleftrightarrow> (\<forall>k'\<in>set (map fst xs). k < k') \<and> ordered xs"
  by (simp add: ordered_def)

lemma ordered_entry_update: "ordered xs \<Longrightarrow> ordered (entry_update k d f xs)"
proof (induction k d f xs rule: entry_update.induct)
  case (2 k d f k' v xs)
  have "\<forall>k''\<in>set (map fst (entry_update k d f xs)). k' < k''" if "\<not> k < k'" "k \<noteq> k'"
    using that 2(2) unfolding entry_update_keys by (auto simp: ordered_Cons)
  with 2 show ?case by (auto simp: ordered_Cons)
qed (simp add: ordered_def)

lemma map_of_entry_update:
  "ordered xs \<Longrightarrow> map_of (entry_update k d f xs) k' =
     (if k' = k then Some (f (case map_of xs k of Some v \<Rightarrow> v | None \<Rightarrow> d)) else map_of xs k')"
proof (induction k d f xs rule: entry_update.induct)
  case (2 k d f k0 v xs)
  have "map_of xs k = None" if "k < k0"
    using that 2(2) by (force simp: ordered_Cons map_of_eq_None_iff)
  with 2 show ?case by (auto simp: ordered_Cons)
qed simp

interpretation btree: entry_map "map_of :: ('k::linorder \<times> 'v) list \<Rightarrow> 'k \<Rightarrow> 'v option" entry_update ordered
  by unfold_locales (simp_all add: map_of_entry_update ordered_entry_update)

section \<open>Stored totals\<close>

definition days_ok :: "days \<Rightarrow> bool" where
  "days_ok days \<longleftrightarrow> ordered days \<and>
     (\<forall>(_, routes)\<in>set days. ordered routes \<and> (\<forall>(_, kinds)\<in>set routes. ordered kinds))"

lemma entry_update_set:
  "(k', v') \<in> set (entry_update k d f xs) \<Longrightarrow> (k', v') \<in> set xs \<or> k' = k \<and> (v' = f d \<or> (\<exists>v. (k, v) \<in> set xs \<and> v' = f v))"
  by (induction k d f xs rule: entry_update.induct) (auto split: if_splits)

lemma entry_update_all:
  assumes "\<forall>(_, v)\<in>set xs. P v" "P (f d)" "\<And>v. P v \<Longrightarrow> P (f v)"
  shows "\<forall>(_, v)\<in>set (entry_update k d f xs). P v"
  using assms by (fastforce dest: entry_update_set)

definition routes_map_ok :: "(string \<times> kinds_map) list \<Rightarrow> bool" where
  "routes_map_ok rs \<longleftrightarrow> ordered rs \<and> (\<forall>(_, ks)\<in>set rs. ordered ks)"

lemma days_ok_routes: "days_ok days \<longleftrightarrow> ordered days \<and> (\<forall>(_, rs)\<in>set days. routes_map_ok rs)"
  by (simp add: days_ok_def routes_map_ok_def)

lemma days_ok_add: "days_ok days \<Longrightarrow> days_ok (add_delta t r k x days)"
proof -
  assume ok: "days_ok days"
  let ?f = "entry_update r [] (entry_update k no_totals (\<lambda>t. totals_add t x))"
  have inner: "routes_map_ok (?f rs)" if "routes_map_ok rs" for rs
  proof -
    have "\<forall>(_, ks)\<in>set (?f rs). ordered ks"
      using that by (intro entry_update_all)
        (auto simp: routes_map_ok_def ordered_entry_update ordered_Cons)
    then show ?thesis using that by (simp add: routes_map_ok_def ordered_entry_update)
  qed
  have "routes_map_ok (?f [])" by (rule inner) (simp add: routes_map_ok_def)
  with ok inner have "\<forall>(_, rs)\<in>set (entry_update t [] ?f days). routes_map_ok rs"
    by (intro entry_update_all) (auto simp: days_ok_routes)
  with ok show ?thesis by (simp add: days_ok_routes add_delta_def ordered_entry_update)
qed

lemma stored_values:
  "stored days date r k =
     btree.value_at no_totals (btree.value_at [] (btree.value_at [] days date) r) k"
  by (auto simp: stored_def btree.value_at_def split: option.split)

lemma days_ok_inner:
  assumes "days_ok days"
  shows "ordered (btree.value_at [] days date)"
    and "ordered (btree.value_at [] (btree.value_at [] days date) r)"
proof -
  have "routes_map_ok (btree.value_at [] days date)"
    using assms by (auto simp: btree.value_at_def days_ok_routes routes_map_ok_def dest!: map_of_SomeD
        split: option.split)
  then show "ordered (btree.value_at [] days date)"
    "ordered (btree.value_at [] (btree.value_at [] days date) r)"
    unfolding routes_map_ok_def btree.value_at_def [of _ "btree.value_at [] days date"]
    by (auto dest!: map_of_SomeD split: option.split)
qed

lemma stored_add:
  assumes "days_ok days"
  shows "stored (add_delta t r k x days) date r' k' =
    (if date = t \<and> r' = r \<and> k' = k then totals_add (stored days t r k) x else stored days date r' k')"
  using assms days_ok_inner [OF assms]
  by (auto simp: stored_values add_delta_def btree.value_upd days_ok_def)

lemma add_delta_keys: "set (map fst (add_delta t r k x days)) = insert t (set (map fst days))"
  unfolding add_delta_def by (rule entry_update_keys)

lemma totals_add_zero [simp]: "totals_add t no_totals = t" "totals_add no_totals t = t"
  by (simp_all add: totals_add_def no_totals_def)

lemma totals_minus_self [simp]: "totals_minus t t = no_totals"
  by (simp add: totals_minus_def no_totals_def saturating_sub_def)

lemma kind_name_inj: "kind_name a = kind_name b \<longleftrightarrow> a = b"
  by (cases a; cases b) simp_all

section \<open>One flush\<close>

definition pending :: "route_stats \<Rightarrow> (kind \<Rightarrow> totals) \<Rightarrow> kind \<Rightarrow> totals" where
  "pending route flushed k = totals_minus (counters_totals (rt_kinds route k)) (flushed k)"

text \<open>
  How a flush changes the days: the totals it adds (\<open>no_totals\<close> where it adds nothing) and
  which dates exist afterwards.
\<close>

definition days_gain :: "string \<Rightarrow> (string \<Rightarrow> kind \<Rightarrow> totals) \<Rightarrow> days \<Rightarrow> days \<Rightarrow> bool" where
  "days_gain today gain days days' \<longleftrightarrow> days_ok days'
     \<and> (\<forall>date r k. stored days' date r (kind_name k) =
          (if date = today then totals_add (stored days today r (kind_name k)) (gain r k)
           else stored days date r (kind_name k)))
     \<and> (set (map fst days') = set (map fst days) \<or> set (map fst days') = insert today (set (map fst days)))
     \<and> (today \<in> set (map fst days') \<or> (\<forall>r k. gain r k = no_totals))"

lemma totals_add_assoc: "totals_add (totals_add a b) c = totals_add a (totals_add b c)"
  by (simp add: totals_add_def add.assoc)

lemma days_gain_none: "days_ok days \<Longrightarrow> days_gain today (\<lambda>_ _. no_totals) days days"
  by (auto simp: days_gain_def)

lemma days_gain_trans:
  assumes "days_gain today g days days'" "days_gain today h days' days''"
  shows "days_gain today (\<lambda>r k. totals_add (g r k) (h r k)) days days''"
proof -
  have "stored days'' date r (kind_name k) =
      (if date = today then totals_add (stored days today r (kind_name k)) (totals_add (g r k) (h r k))
       else stored days date r (kind_name k))" for date r k
    using assms by (simp add: days_gain_def totals_add_assoc)
  moreover have "set (map fst days'') = set (map fst days) \<or> set (map fst days'') = insert today (set (map fst days))"
    using assms unfolding days_gain_def by (metis insert_absorb2)
  moreover have "today \<in> set (map fst days'') \<or> (\<forall>r k. totals_add (g r k) (h r k) = no_totals)"
    using assms unfolding days_gain_def by (metis insertI1 totals_add_zero(1))
  ultimately show ?thesis using assms(2) by (simp add: days_gain_def)
qed

lemma days_gain_one:
  assumes "days_ok days"
  shows "days_gain today (\<lambda>r k. if r = name \<and> k = kind then x else no_totals) days
    (if x = no_totals then days else add_delta today name (kind_name kind) x days)"
  using assms add_delta_keys [of today name "kind_name kind" x days]
  by (auto simp: days_gain_def stored_add days_ok_add kind_name_inj)

lemma flush_kinds_effect:
  assumes "flush_kinds today route ks (days, flushed) = (days', flushed')" "days_ok days" "distinct ks"
  shows "flushed' = (\<lambda>k. if k \<in> set ks then counters_totals (rt_kinds route k) else flushed k)
    \<and> days_gain today (\<lambda>r k. if r = rt_name route \<and> k \<in> set ks then pending route flushed k else no_totals)
        days days'"
  using assms
proof (induction ks arbitrary: days flushed)
  case Nil
  then show ?case by (auto simp: days_gain_none)
next
  case (Cons kd ks)
  let ?x = "pending route flushed kd"
  let ?mid = "if ?x = no_totals then days else add_delta today (rt_name route) (kind_name kd) ?x days"
  let ?fl = "flushed(kd := counters_totals (rt_kinds route kd))"
  have run: "flush_kinds today route ks (?mid, ?fl) = (days', flushed')"
    using Cons.prems(1) unfolding flush_kinds.simps Let_def pending_def .
  note one = days_gain_one [OF Cons.prems(2), of today "rt_name route" kd ?x]
  have ok: "days_ok ?mid" using one by (simp add: days_gain_def)
  have ih: "flushed' = (\<lambda>k. if k \<in> set ks then counters_totals (rt_kinds route k) else ?fl k)"
    "days_gain today (\<lambda>r k. if r = rt_name route \<and> k \<in> set ks then pending route ?fl k else no_totals)
        ?mid days'"
    using Cons.IH [OF run ok] Cons.prems(3) by auto
  have "kd \<notin> set ks" using Cons.prems(3) by simp
  then have eq: "(\<lambda>r k. totals_add (if r = rt_name route \<and> k = kd then ?x else no_totals)
       (if r = rt_name route \<and> k \<in> set ks then pending route ?fl k else no_totals))
     = (\<lambda>r k. if r = rt_name route \<and> k \<in> set (kd # ks) then pending route flushed k else no_totals)"
    by (auto simp: fun_eq_iff pending_def)
  show ?case using days_gain_trans [OF one ih(2)] ih(1) unfolding eq by (auto simp: fun_eq_iff)
qed

lemma kinds_all: "k \<in> set KINDS" by (cases k) (simp_all add: KINDS_def)

lemma flush_routes_effect:
  assumes "flush_routes today rs days = (days', fl')" "days_ok days" "distinct (map (rt_name \<circ> fst) rs)"
  shows "fl' = map (\<lambda>(route, _). \<lambda>k. counters_totals (rt_kinds route k)) rs
    \<and> days_gain today (\<lambda>r k. case map_of (map (\<lambda>p. (rt_name (fst p), p)) rs) r of
           None \<Rightarrow> no_totals | Some (route, flushed) \<Rightarrow> pending route flushed k) days days'"
  using assms
proof (induction rs arbitrary: days fl')
  case Nil
  then show ?case by (auto simp: days_gain_none)
next
  case (Cons p rs)
  obtain route flushed where p: "p = (route, flushed)" by (cases p)
  obtain mid fl where k: "flush_kinds today route KINDS (days, flushed) = (mid, fl)" by fastforce
  obtain fl2 where r: "flush_routes today rs mid = (days', fl2)" and fl': "fl' = fl # fl2"
    using Cons.prems(1) p k by (auto split: prod.splits)
  have "distinct KINDS" by (simp add: KINDS_def)
  from flush_kinds_effect [OF k Cons.prems(2) this]
  have one: "fl = (\<lambda>k. counters_totals (rt_kinds route k))"
    "days_gain today (\<lambda>r k. if r = rt_name route then pending route flushed k else no_totals) days mid"
    by (auto simp: kinds_all)
  have ok: "days_ok mid" using one(2) by (simp add: days_gain_def)
  have ih: "fl2 = map (\<lambda>(route, _). \<lambda>k. counters_totals (rt_kinds route k)) rs"
    "days_gain today (\<lambda>r k. case map_of (map (\<lambda>p. (rt_name (fst p), p)) rs) r of
           None \<Rightarrow> no_totals | Some (route, flushed) \<Rightarrow> pending route flushed k) mid days'"
    using Cons.IH [OF r ok] Cons.prems(3) by auto
  have new: "map_of (map (\<lambda>p. (rt_name (fst p), p)) rs) (rt_name route) = None"
    using Cons.prems(3) p by (force simp: map_of_eq_None_iff)
  have eq: "(\<lambda>r k. totals_add (if r = rt_name route then pending route flushed k else no_totals)
        (case map_of (map (\<lambda>p. (rt_name (fst p), p)) rs) r of
           None \<Rightarrow> no_totals | Some (route, flushed) \<Rightarrow> pending route flushed k))
     = (\<lambda>r k. case map_of (map (\<lambda>p. (rt_name (fst p), p)) (p # rs)) r of
           None \<Rightarrow> no_totals | Some (route, flushed) \<Rightarrow> pending route flushed k)"
    using new by (auto simp: fun_eq_iff p split: option.split)
  show ?case using days_gain_trans [OF one(2) ih(2)] one(1) ih(1) fl' p unfolding eq by simp
qed

section \<open>The month\<close>

text \<open>
  A sum of one component over the dates of a month, before and after a flush. \<open>pr\<close> is any
  of the three components.
\<close>

definition component :: "(totals \<Rightarrow> 64 word) \<Rightarrow> bool" where
  "component pr \<longleftrightarrow> pr \<in> {t_requests, t_bytes_out, t_bytes_in}"

lemma component_simps:
  "component pr \<Longrightarrow> pr (totals_add a b) = pr a + pr b" "component pr \<Longrightarrow> pr no_totals = 0"
  by (auto simp: component_def totals_add_def no_totals_def)

lemma totals_eqI:
  assumes "\<And>pr. component pr \<Longrightarrow> pr a = pr b"
  shows "(a :: totals) = b"
proof -
  have "t_requests a = t_requests b" "t_bytes_out a = t_bytes_out b" "t_bytes_in a = t_bytes_in b"
    using assms by (auto simp: component_def)
  then show ?thesis by simp
qed

lemma month_fold:
  assumes "component pr" "ordered days"
  shows "pr (foldl (\<lambda>t date. totals_add t (g date)) p (filter P (map fst days)))
    = pr p + (\<Sum>date\<in>{d\<in>set (map fst days). P d}. pr (g date))"
proof -
  have "pr (foldl (\<lambda>t date. totals_add t (g date)) p ds) = pr p + sum_list (map (\<lambda>d. pr (g d)) ds)" for ds
  proof (induction ds arbitrary: p)
    case (Cons d ds)
    show ?case using Cons.IH [of "totals_add p (g d)"] component_simps(1) [OF assms(1)]
      by (simp add: add.assoc)
  qed simp
  moreover have "distinct (filter P (map fst days))"
    using assms(2) by (intro distinct_filter) (simp add: ordered_def strict_sorted_iff)
  ultimately show ?thesis by (simp only: sum_list_distinct_conv_sum_set set_filter)
qed

lemma month_gain:
  assumes gain: "days_gain today gain days days'" and pr: "component pr" and t: "P today"
    and fresh: "today \<notin> set (map fst days) \<Longrightarrow> stored days today r (kind_name k) = no_totals"
  shows "(\<Sum>d\<in>{d\<in>set (map fst days'). P d}. pr (stored days' d r (kind_name k)))
    = pr (gain r k) + (\<Sum>d\<in>{d\<in>set (map fst days). P d}. pr (stored days d r (kind_name k)))"
proof -
  let ?S = "{d\<in>set (map fst days). P d} - {today}"
  let ?g = "\<lambda>d. pr (stored days d r (kind_name k))"
  let ?h = "\<lambda>d. pr (stored days' d r (kind_name k))"
  have h: "?h d = (if d = today then ?g today + pr (gain r k) else ?g d)" for d
    using gain by (simp add: days_gain_def component_simps [OF pr])
  have rest: "(\<Sum>d\<in>?S. ?h d) = (\<Sum>d\<in>?S. ?g d)" by (rule sum.cong) (auto simp: h)
  have g: "(\<Sum>d\<in>{d\<in>set (map fst days). P d}. ?g d) = ?g today + (\<Sum>d\<in>?S. ?g d)"
  proof (cases "today \<in> set (map fst days)")
    case True
    then show ?thesis using t by (simp add: sum.remove [of _ today])
  next
    case False
    then have "{d\<in>set (map fst days). P d} - {today} = {d\<in>set (map fst days). P d}" by auto
    with fresh [OF False] show ?thesis by (simp add: component_simps [OF pr])
  qed
  show ?thesis
  proof (cases "today \<in> set (map fst days')")
    case True
    have "{d\<in>set (map fst days'). P d} = insert today ?S"
      using True gain t unfolding days_gain_def by auto
    moreover have "sum ?h (insert today ?S) = ?h today + sum ?h ?S" by (rule sum.insert) auto
    ultimately have "(\<Sum>d\<in>{d\<in>set (map fst days'). P d}. ?h d) = ?h today + (\<Sum>d\<in>?S. ?h d)"
      by (simp only:)
    with rest g h [of today] show ?thesis by (simp add: add.assoc add.left_commute)
  next
    case False
    then have "gain r k = no_totals" "set (map fst days') = set (map fst days)"
      using gain unfolding days_gain_def by auto
    moreover have "?h d = ?g d" for d using h [of d] calculation(1) by (simp add: component_simps [OF pr])
    ultimately show ?thesis by (simp add: component_simps [OF pr])
  qed
qed

section \<open>Pruning and reports\<close>

lemma prune_drop: "prune days = drop (length days - KEEP_DAYS) days"
  by (induction days) (auto simp: Suc_diff_le)

lemma ordered_drop: "ordered xs \<Longrightarrow> ordered (drop n xs)"
  by (simp add: ordered_def sorted_wrt_drop flip: drop_map)

lemma days_ok_prune: "days_ok days \<Longrightarrow> days_ok (prune days)"
  unfolding prune_drop days_ok_routes
  by (auto simp: ordered_drop dest!: in_set_dropD)

lemma ordered_length: "ordered xs \<Longrightarrow> length xs = card (set (map fst xs))"
  using distinct_card [of "map fst xs"] by (simp add: ordered_def strict_sorted_iff)

lemma days_gain_length: "days_gain today gain days days' \<Longrightarrow> ordered days \<Longrightarrow> length days' \<le> Suc (length days)"
  using card_insert_le_m1 [of _ "set (map fst days)" today]
  by (auto simp: days_gain_def days_ok_def ordered_length card_insert_if)

lemma flush_days:
  assumes "flush_on X io today st fs = (r, st', fs')" "days_ok (ss_days st)"
    and "distinct (map rt_name (ss_routes st))" "length (ss_flushed st) = length (ss_routes st)"
  obtains days where "st' = st\<lparr>ss_days := prune days,
      ss_flushed := map (\<lambda>route k. counters_totals (rt_kinds route k)) (ss_routes st)\<rparr>"
    "days_gain today (\<lambda>r k. case map_of (map (\<lambda>p. (rt_name (fst p), p)) (zip (ss_routes st) (ss_flushed st))) r of
           None \<Rightarrow> no_totals | Some (route, flushed) \<Rightarrow> pending route flushed k) (ss_days st) days"
proof -
  let ?z = "zip (ss_routes st) (ss_flushed st)"
  obtain days fl where f: "flush_routes today ?z (ss_days st) = (days, fl)" by fastforce
  have names: "map (rt_name \<circ> fst) ?z = map rt_name (ss_routes st)"
    using assms(4) by (metis map_fst_zip map_map)
  note e = flush_routes_effect [OF f assms(2)]
  have fl: "fl = map (\<lambda>route k. counters_totals (rt_kinds route k)) (ss_routes st)"
  proof -
    have "fl = map (\<lambda>p k. counters_totals (rt_kinds (fst p) k)) ?z"
      using e assms(3) names by (simp add: split_beta)
    also have "\<dots> = map (\<lambda>route k. counters_totals (rt_kinds route k)) (map fst ?z)" by simp
    finally show ?thesis using assms(4) by simp
  qed
  have "st' = st\<lparr>ss_days := prune days, ss_flushed := fl @ drop (length fl) (ss_flushed st)\<rparr>"
    using assms(1) f by (auto simp: flush_on_def Let_def split: option.splits prod.splits)
  with that e fl assms(3,4) names show thesis by simp
qed

lemma stored_fresh: "today \<notin> set (map fst days) \<Longrightarrow> stored days today r k = no_totals"
proof -
  assume "today \<notin> set (map fst days)"
  then have "map_of days today = None" by (simp add: map_of_eq_None_iff)
  then show ?thesis by (simp add: stored_def)
qed

lemma kind_report_gain:
  assumes "days_gain today gain days days'" "ordered days" "gain (rt_name route) k = pending route flushed k"
  shows "kind_report_on days' today route (\<lambda>k. counters_totals (rt_kinds route k)) k
    = kind_report_on days today route flushed k"
proof -
  let ?n = "rt_name route" and ?P = "prefix (take 7 today)"
  have od: "ordered days'" using assms(1) by (simp add: days_gain_def days_ok_def)
  have "stored days' today ?n (kind_name k)
      = totals_add (stored days today ?n (kind_name k)) (pending route flushed k)"
    using assms(1,3) by (simp add: days_gain_def)
  moreover have "foldl (\<lambda>t d. totals_add t (stored days' d ?n (kind_name k))) no_totals
        (filter ?P (map fst days'))
      = foldl (\<lambda>t d. totals_add t (stored days d ?n (kind_name k))) (pending route flushed k)
        (filter ?P (map fst days))"
  proof (rule totals_eqI)
    fix pr
    assume pr: "component pr"
    show "pr (foldl (\<lambda>t d. totals_add t (stored days' d ?n (kind_name k))) no_totals
          (filter ?P (map fst days')))
        = pr (foldl (\<lambda>t d. totals_add t (stored days d ?n (kind_name k))) (pending route flushed k)
          (filter ?P (map fst days)))"
      unfolding month_fold [OF pr od] month_fold [OF pr assms(2)]
      using month_gain [OF assms(1) pr, of ?P ?n k] stored_fresh [of today days ?n "kind_name k"] assms(3)
      by (simp add: take_is_prefix component_simps [OF pr])
  qed
  ultimately show ?thesis
    by (simp add: kind_report_on_def pending_def Let_def)
qed

text \<open>
  A flush does not change what is reported. With distinct route names and fewer than
  400 stored days, the report of the day (today, month, since start, active, for every route
  and kind) is the same before and after a flush, whether the file could be written or not:
  nothing is lost and nothing is counted twice.
\<close>

lemma flush_report:
  assumes "flush_on X io today st fs = (r, st', fs')" "days_ok (ss_days st)"
    and "distinct (map rt_name (ss_routes st))" "length (ss_flushed st) = length (ss_routes st)"
    and "length (ss_days st) < KEEP_DAYS"
  shows "report_on version today st' = report_on version today st"
proof -
  let ?z = "zip (ss_routes st) (ss_flushed st)"
  let ?gain = "\<lambda>r k. case map_of (map (\<lambda>p. (rt_name (fst p), p)) ?z) r of
           None \<Rightarrow> no_totals | Some (route, flushed) \<Rightarrow> pending route flushed k"
  obtain days where st': "st' = st\<lparr>ss_days := prune days,
      ss_flushed := map (\<lambda>route k. counters_totals (rt_kinds route k)) (ss_routes st)\<rparr>"
    and g: "days_gain today ?gain (ss_days st) days"
    using flush_days [OF assms(1-4)] by blast
  have od: "ordered (ss_days st)" using assms(2) by (simp add: days_ok_def)
  have keep: "prune days = days"
    using days_gain_length [OF g od] assms(5) by (simp add: prune_drop)
  have dist: "distinct (map fst (map (\<lambda>p. (rt_name (fst p), p)) ?z))"
  proof -
    have "map fst (map (\<lambda>p. (rt_name (fst p), p)) ?z) = map rt_name (map fst ?z)" by simp
    then show ?thesis using assms(3,4) by (simp only: map_fst_zip)
  qed
  have "kind_report_on days today route (\<lambda>k. counters_totals (rt_kinds route k)) k
      = kind_report_on (ss_days st) today route flushed k" if "(route, flushed) \<in> set ?z" for route flushed k
  proof (rule kind_report_gain [OF g od])
    have "map_of (map (\<lambda>p. (rt_name (fst p), p)) ?z) (rt_name route) = Some (route, flushed)"
      using that by (intro map_of_is_SomeI [OF dist]) force
    then show "?gain (rt_name route) k = pending route flushed k" by simp
  qed
  moreover have "zip (ss_routes st) (map (\<lambda>route k. counters_totals (rt_kinds route k)) (ss_routes st))
      = map (\<lambda>(route, _). (route, \<lambda>k. counters_totals (rt_kinds route k))) ?z"
    using assms(4) by (intro nth_equalityI) auto
  ultimately show ?thesis
    unfolding st' report_on_def keep by (auto simp: split_beta)
qed

section \<open>Properties\<close>

text \<open>
  The shards are invisible. After any sequence of counter operations, by any threads in
  any order, starting from zero, the totals are the sums of what the operations added
  (modulo two to the 64), and with fewer than two to the 63 operations the number of active
  streams is the number started less the number finished, also when a stream starts on one
  thread and ends on another.
\<close>

lemma counters_exact:
  assumes "length ops < 2 ^ 63"
  shows "counters_totals (run_ops ops counters_default)
      = foldl totals_add no_totals (map (op_totals \<circ> snd) ops)
    \<and> uint (counters_active (run_ops ops counters_default))
      = max 0 (sum_list (map (op_active \<circ> snd) ops))"
proof -
  let ?n = "sum_list (map (op_active \<circ> snd) ops)"
  have len: "length counters_default = SHARDS" by (simp add: counters_default_def)
  have zero: "counters_totals counters_default = no_totals" "sum_list (map sh_active counters_default) = 0"
    by (simp_all add: counters_totals_sums counters_default_def shard_default_def no_totals_def
        sum_list_replicate)
  have small: "\<bar>?n\<bar> < 2 ^ 63"
  proof -
    have "int (length ops) < 2 ^ 63" using assms by simp
    then show ?thesis using op_active_bound [of ops] by (rule le_less_trans [rotated])
  qed
  have "uint (of_int ?n :: 64 word) = ?n" if "0 \<le> ?n"
    using small that by (simp add: unsigned_of_int take_bit_int_eq_self)
  then show ?thesis
    using run_ops_effect [OF len, of ops] zero sint_of_int_small [OF small]
    by (auto simp: counters_active_sum Let_def)
qed

text \<open>
  C28: The history stays bounded and sorted. After a flush there are at most 400 days, in
  increasing order of their date, with the maps inside ordered as well, and the days that
  were dropped are older than every day that is kept.
\<close>

theorem flush_bounds_history:
  assumes "flush_on X io today st fs = (r, st', fs')" "days_ok (ss_days st)"
    and "distinct (map rt_name (ss_routes st))" "length (ss_flushed st) = length (ss_routes st)"
  shows "length (ss_days st') \<le> KEEP_DAYS \<and> days_ok (ss_days st')
    \<and> (\<forall>old\<in>set (map fst (ss_days st)) - set (map fst (ss_days st')).
         \<forall>kept\<in>set (map fst (ss_days st')). old < kept)"
proof -
  obtain days gain where st': "ss_days st' = prune days" and g: "days_gain today gain (ss_days st) days"
    using flush_days [OF assms] by (metis (no_types, lifting) stats.select_convs(3) stats.surjective
        stats.update_convs(3) stats.update_convs(4))
  have ok: "days_ok days" "set (map fst (ss_days st)) \<subseteq> set (map fst days)"
    using g unfolding days_gain_def by auto
  have "old < kept" if "old \<in> set (map fst days) - set (map fst (prune days))"
    "kept \<in> set (map fst (prune days))" for old kept
  proof -
    let ?n = "length days - KEEP_DAYS" and ?ks = "map fst days"
    have "sorted_wrt (<) (take ?n ?ks @ drop ?n ?ks)" using ok(1) by (simp add: days_ok_def ordered_def)
    moreover have "map fst (prune days) = drop ?n ?ks" by (simp add: prune_drop drop_map)
    then have "old \<in> set (take ?n ?ks @ drop ?n ?ks) - set (drop ?n ?ks)" "kept \<in> set (drop ?n ?ks)"
      using that by (simp_all only: append_take_drop_id)
    then have "old \<in> set (take ?n ?ks)" "kept \<in> set (drop ?n ?ks)"
      by (simp_all only: set_append) blast
    ultimately show ?thesis unfolding sorted_wrt_append by blast
  qed
  then have "\<forall>old\<in>set (map fst (ss_days st)) - set (map fst (prune days)).
      \<forall>kept\<in>set (map fst (prune days)). old < kept"
    using ok(2) by blast
  moreover have "length (prune days) \<le> KEEP_DAYS" by (simp add: prune_drop)
  ultimately show ?thesis using days_ok_prune [OF ok(1)] unfolding st' by blast
qed

definition stats_sample :: stats where
  "stats_sample =
     \<lparr>ss_routes = [\<lparr>rt_name = ''p.io'', rt_kinds = (\<lambda>_. add_request 3 counters_default)\<rparr>],
      ss_path = None, ss_days = [(''2024-01-31'', [])], ss_flushed = [\<lambda>_. no_totals],
      ss_started_at = []\<rparr>"

definition stats_crate_sample :: stats_crate where
  "stats_crate_sample = \<lparr>days_to_json = (\<lambda>_. []), days_from_json = (\<lambda>_. Some [])\<rparr>"

lemma stats_sample_ok:
  "days_ok (ss_days stats_sample)" "distinct (map rt_name (ss_routes stats_sample))"
  "length (ss_flushed stats_sample) = length (ss_routes stats_sample)"
  "length (ss_days stats_sample) < KEEP_DAYS"
  by (simp_all add: stats_sample_def days_ok_def ordered_Cons KEEP_DAYS_def)

lemma stats_sample_flush:
  "flush_on stats_crate_sample io_sample ''2024-02-01'' stats_sample Map.empty
     = (Inr (), fst (snd (flush_on stats_crate_sample io_sample ''2024-02-01'' stats_sample Map.empty)),
        Map.empty)"
  by (auto simp: flush_on_def Let_def stats_sample_def split: prod.split)

theorem flush_bounds_history_witness:
  "length (ss_days (fst (snd (flush_on stats_crate_sample io_sample ''2024-02-01'' stats_sample Map.empty))))
     \<le> KEEP_DAYS"
  using flush_bounds_history [OF stats_sample_flush stats_sample_ok(1-3)] by blast

end
