(* ===== verification/Body.thy ===== *)
theory Body
  imports Stats
begin

text \<open>
  \<^verbatim>\<open>src/src/server/body.rs\<close>: the bodies of proxied messages, which count what they stream.
  The frames that arrive from the other side are a list; a poll that would wait is not a
  step. What a body does to the counters of its route is a list of effects: counter
  operations for a kind, and the call of \<^verbatim>\<open>on_done\<close> with the number of bytes.
\<close>

section \<open>Definitions\<close>

datatype frame = Data bytes | Trailers | Failed

record meter =
  m_kind :: kind
  m_response :: bool

datatype proxy_body =
    Incoming "frame list"
  | Metered "frame list" meter
  | Full "bytes option"
  | Empty
  | Counted proxy_body "64 word" bool

datatype effect = Count kind counter_op | Done "64 word"

definition body_full :: "bytes \<Rightarrow> proxy_body" where
  "body_full data = Full (Some data)"

definition body_counted :: "proxy_body \<Rightarrow> proxy_body" where
  "body_counted inner = Counted inner 0 True"

definition meter_request :: "kind \<Rightarrow> meter" where
  "meter_request k = \<lparr>m_kind = k, m_response = False\<rparr>"

definition meter_response :: "kind \<Rightarrow> meter \<times> effect list" where
  "meter_response k = (\<lparr>m_kind = k, m_response = True\<rparr>, [Count k Started])"

definition meter_add :: "meter \<Rightarrow> nat \<Rightarrow> effect" where
  "meter_add m n =
     (if m_response m then Count (m_kind m) (BytesOut (of_nat n))
      else Count (m_kind m) (BytesIn (of_nat n)))"

definition meter_drop :: "meter \<Rightarrow> effect list" where
  "meter_drop m = (if m_response m then [Count (m_kind m) Finished] else [])"

definition data_len :: "frame option \<Rightarrow> nat option" where
  "data_len f = (case f of Some (Data d) \<Rightarrow> Some (length d) | _ \<Rightarrow> None)"

fun poll_frame :: "proxy_body \<Rightarrow> frame option \<times> proxy_body \<times> effect list" where
  "poll_frame (Incoming fs) = (case fs of [] \<Rightarrow> (None, Incoming [], []) | f # fs \<Rightarrow> (Some f, Incoming fs, []))"
| "poll_frame (Metered fs m) =
     (case fs of
        [] \<Rightarrow> (None, Metered [] m, [])
      | f # fs \<Rightarrow> (Some f, Metered fs m,
          case data_len (Some f) of Some n \<Rightarrow> [meter_add m n] | None \<Rightarrow> []))"
| "poll_frame (Full d) =
     ((case d of Some d \<Rightarrow> if d \<noteq> [] then Some (Data d) else None | None \<Rightarrow> None), Full None, [])"
| "poll_frame Empty = (None, Empty, [])"
| "poll_frame (Counted inner n armed) =
     (let (f, inner, effs) = poll_frame inner in
      (f, Counted inner (case data_len f of Some k \<Rightarrow> n + of_nat k | None \<Rightarrow> n) armed, effs))"

text \<open>Dropping a body: first its own \<^verbatim>\<open>Drop\<close>, then the fields.\<close>

fun body_drop :: "proxy_body \<Rightarrow> effect list" where
  "body_drop (Metered fs m) = meter_drop m"
| "body_drop (Counted inner n armed) = (if armed then [Done n] else []) @ body_drop inner"
| "body_drop _ = []"

text \<open>\<open>ended\<close> and \<open>hint\<close> are hyper's answers for an incoming body.\<close>

fun is_end_stream :: "(frame list \<Rightarrow> bool) \<Rightarrow> proxy_body \<Rightarrow> bool" where
  "is_end_stream ended (Incoming fs) = ended fs"
| "is_end_stream ended (Metered fs m) = ended fs"
| "is_end_stream ended (Full d) = (case d of Some d \<Rightarrow> d = [] | None \<Rightarrow> True)"
| "is_end_stream ended Empty = True"
| "is_end_stream ended (Counted inner n p) = is_end_stream ended inner"

fun size_hint :: "(frame list \<Rightarrow> nat \<times> nat option) \<Rightarrow> proxy_body \<Rightarrow> nat \<times> nat option" where
  "size_hint hint (Incoming fs) = hint fs"
| "size_hint hint (Metered fs m) = hint fs"
| "size_hint hint (Full d) = (case d of Some d \<Rightarrow> (length d, Some (length d)) | None \<Rightarrow> (0, Some 0))"
| "size_hint hint Empty = (0, Some 0)"
| "size_hint hint (Counted inner n p) = size_hint hint inner"

section \<open>A body polled some times and then dropped\<close>

fun poll_times :: "nat \<Rightarrow> proxy_body \<Rightarrow> frame list \<times> proxy_body \<times> effect list" where
  "poll_times 0 b = ([], b, [])"
| "poll_times (Suc n) b =
     (let (f, b, e1) = poll_frame b; (fs, b, e2) = poll_times n b in
      ((case f of Some f \<Rightarrow> f # fs | None \<Rightarrow> fs), b, e1 @ e2))"

text \<open>The frames a body holds, and the bytes of data among some frames.\<close>

fun body_frames :: "proxy_body \<Rightarrow> frame list" where
  "body_frames (Incoming fs) = fs"
| "body_frames (Metered fs m) = fs"
| "body_frames (Full d) = (case d of Some d \<Rightarrow> if d \<noteq> [] then [Data d] else [] | None \<Rightarrow> [])"
| "body_frames Empty = []"
| "body_frames (Counted inner n p) = body_frames inner"

fun frame_len :: "frame \<Rightarrow> nat" where
  "frame_len (Data d) = length d" | "frame_len _ = 0"

definition data_bytes :: "frame list \<Rightarrow> nat" where
  "data_bytes fs = sum_list (map frame_len fs)"

lemma poll_frame_frames:
  assumes "poll_frame b = (f, b', e)"
  shows "f = (case body_frames b of [] \<Rightarrow> None | g # _ \<Rightarrow> Some g)" "body_frames b' = tl (body_frames b)"
  using assms
  by (induction b arbitrary: f b' e rule: poll_frame.induct)
    (auto split: list.splits option.splits prod.splits if_splits)

text \<open>
  Every body delivers exactly its frames in order, however it is wrapped.
\<close>

lemma poll_times_frames: "fst (poll_times n b) = take n (body_frames b)"
proof (induction n arbitrary: b)
  case (Suc n)
  obtain f b' e where p: "poll_frame b = (f, b', e)" by (metis prod_cases3)
  with poll_frame_frames [OF p] Suc [of b'] show ?case
    by (cases "body_frames b") (auto split: prod.splits)
qed simp

fun data_ops :: "meter \<Rightarrow> frame list \<Rightarrow> effect list" where
  "data_ops m [] = []"
| "data_ops m (f # fs) = (case f of Data d \<Rightarrow> meter_add m (length d) # data_ops m fs | _ \<Rightarrow> data_ops m fs)"

lemma poll_times_metered:
  "poll_times n (Metered fs m) = (take n fs, Metered (drop n fs) m, data_ops m (take n fs))"
proof (induction n arbitrary: fs)
  case (Suc n)
  show ?case
  proof (cases fs)
    case Nil
    then show ?thesis using Suc [of "[]"] by simp
  next
    case (Cons f gs)
    then show ?thesis using Suc [of gs] by (cases f) (simp_all add: data_len_def)
  qed
qed simp

lemma poll_times_counted:
  "poll_times n (Counted b k p) =
     (let (fs, b', e) = poll_times n b in (fs, Counted b' (k + of_nat (data_bytes fs)) p, e))"
proof (induction n arbitrary: b k)
  case (Suc n)
  obtain f b' e where f: "poll_frame b = (f, b', e)" by (metis prod_cases3)
  obtain fs b'' e' where g: "poll_times n b' = (fs, b'', e')" by (metis prod_cases3)
  have "(case data_len f of Some j \<Rightarrow> k + of_nat j | None \<Rightarrow> k)
      = k + of_nat (case f of Some f \<Rightarrow> frame_len f | None \<Rightarrow> 0)"
    by (cases f) (auto simp: data_len_def split: frame.split)
  then show ?case using f g Suc [of b'] by (cases f) (simp_all add: data_bytes_def add.assoc)
qed (simp add: data_bytes_def)

definition op_of :: "effect \<Rightarrow> counter_op option" where
  "op_of e = (case e of Count k x \<Rightarrow> Some x | Done _ \<Rightarrow> None)"

lemma data_ops_sum:
  "foldl totals_add t (map op_totals (List.map_filter op_of (data_ops \<lparr>m_kind = k, m_response = resp\<rparr> fs)))
   = totals_add t \<lparr>t_requests = 0, t_bytes_out = (if resp then of_nat (data_bytes fs) else 0),
       t_bytes_in = (if resp then 0 else of_nat (data_bytes fs))\<rparr>"
proof (induction fs arbitrary: t)
  case (Cons f fs)
  then show ?case
    by (cases f) (auto simp: data_bytes_def meter_add_def op_of_def totals_add_def map_filter_simps add.assoc)
qed (simp add: data_bytes_def totals_add_def map_filter_simps)

section \<open>Properties\<close>

text \<open>
  A metered response body, polled any number of times and then dropped, also when the
  client goes away in the middle, streams its frames unchanged and in order, adds exactly
  the data bytes it delivered to the bytes out of its kind and nothing else, and counts as
  one active stream from its creation until the drop.
\<close>

lemma metered_response_counts:
  "let (m, created) = meter_response k;
       (frames, b, effs) = poll_times n (Metered fs m);
       ops = List.map_filter op_of (created @ effs @ body_drop b) in
   frames = take n fs
   \<and> (\<forall>e\<in>set (created @ effs @ body_drop b). \<exists>x. e = Count k x)
   \<and> foldl totals_add no_totals (map op_totals ops)
       = \<lparr>t_requests = 0, t_bytes_out = of_nat (data_bytes (take n fs)), t_bytes_in = 0\<rparr>
   \<and> sum_list (map op_active ops) = 0"
proof -
  let ?m = "\<lparr>m_kind = k, m_response = True\<rparr>"
  have kinds: "\<forall>e\<in>set (data_ops ?m gs). \<exists>x. e = Count k x" for gs
    by (induction gs) (auto simp: meter_add_def split: frame.splits)
  have active: "sum_list (map op_active (List.map_filter op_of (data_ops ?m gs))) = 0" for gs
    by (induction gs) (auto simp: meter_add_def op_of_def map_filter_simps split: frame.splits)
  have app: "List.map_filter op_of (xs @ ys) = List.map_filter op_of xs @ List.map_filter op_of ys" for xs ys
    by (simp add: List.map_filter_def)
  have ops: "List.map_filter op_of ([Count k Started] @ data_ops ?m (take n fs) @ [Count k Finished])
      = Started # List.map_filter op_of (data_ops ?m (take n fs)) @ [Finished]"
    unfolding app by (simp add: map_filter_simps op_of_def)
  show ?thesis
    unfolding meter_response_def poll_times_metered Let_def split body_drop.simps meter_drop_def
    using kinds [of "take n fs"] active [of "take n fs"] data_ops_sum [of no_totals k True "take n fs"]
    by (simp add: ops [simplified])
qed

text \<open>
  A counted body reports once, when it is dropped, and what it reports is the number of
  data bytes it delivered.
\<close>

lemma counted_body_reports_once:
  "let (frames, b, effs) = poll_times n (body_counted (Incoming fs)) in
   frames = take n fs \<and> effs @ body_drop b = [Done (of_nat (data_bytes (take n fs)))]"
proof -
  have "poll_times n (Incoming fs) = (take n fs, Incoming (drop n fs), [])" for fs
  proof (induction n arbitrary: fs)
    case (Suc n)
    then show ?case by (cases fs) auto
  qed simp
  then show ?thesis by (simp add: body_counted_def poll_times_counted)
qed

end
