(* ===== verification/Util_Url.thy ===== *)
theory Util_Url
  imports Rust_Str
begin

text \<open>
  \<^verbatim>\<open>HttpUrl\<close> and \<^verbatim>\<open>hostname\<close> of \<^verbatim>\<open>src/src/util.rs\<close>: parsing an absolute URL from
  the configuration, printing it, and reading the host name out of a \<^verbatim>\<open>Host\<close> value.
\<close>

section \<open>Definitions\<close>

record http_url =
  u_scheme :: string
  u_host :: string
  u_path :: string
  u_query :: string

datatype url_error = MissingScheme | InvalidCharacter

definition url_parse :: "string \<Rightarrow> (url_error, http_url) res" where
  "url_parse raw =
     (case split_once_str ''://'' raw of
        None \<Rightarrow> Inl MissingScheme
      | Some (scheme, rest) \<Rightarrow>
          (let scheme = to_ascii_lowercase scheme;
               rest = before_first (CHR ''#'') rest;
               (before_query, query) = split_once_or (CHR ''?'') rest;
               (authority, path) = cut_at (CHR ''/'') before_query;
               host = after_last (CHR ''@'') authority in
           if has_white_space host \<or> has_control host \<or> has_control path
           then Inl InvalidCharacter
           else Inr \<lparr>u_scheme = scheme, u_host = host, u_path = path, u_query = query\<rparr>))"

definition url_display :: "http_url \<Rightarrow> string" where
  "url_display u =
     u_scheme u @ ''://'' @ u_host u @ u_path u
     @ (if u_query u \<noteq> [] then ''?'' @ u_query u else [])"

text \<open>\<^verbatim>\<open>rfind(c)\<close> followed by slicing: what stands before and after the last \<open>c\<close>.\<close>

definition rsplit_once :: "char \<Rightarrow> string \<Rightarrow> (string \<times> string) option" where
  "rsplit_once c s =
     (case split_once c (rev s) of None \<Rightarrow> None | Some (b, a) \<Rightarrow> Some (rev a, rev b))"

definition hostname :: "string \<Rightarrow> string" where
  "hostname host =
     (let host = trim host in
      case strip_prefix ''['' host of
        Some rest \<Rightarrow>
          (case split_once (CHR '']'') rest of Some (h, _) \<Rightarrow> h | None \<Rightarrow> rest)
      | None \<Rightarrow>
          (case rsplit_once (CHR '':'') host of
             Some (h, _) \<Rightarrow> if CHR '':'' \<notin> set h then h else host
           | None \<Rightarrow> host))"

definition url_hostname :: "http_url \<Rightarrow> string" where
  "url_hostname u = hostname (u_host u)"

section \<open>Parsing and printing\<close>

lemma rsplit_once_Some [str_iff]:
  "rsplit_once c s = Some (a, b) \<longleftrightarrow> s = a @ c # b \<and> c \<notin> set b"
proof -
  have "rsplit_once c s = Some (a, b) \<longleftrightarrow> split_once c (rev s) = Some (rev b, rev a)"
    by (auto simp: rsplit_once_def split: option.splits)
  also have "\<dots> \<longleftrightarrow> s = a @ c # b \<and> c \<notin> set b"
    by (auto simp: split_once_Some rev_swap)
  finally show ?thesis .
qed

lemma rsplit_once_None [str_iff]: "rsplit_once c s = None \<longleftrightarrow> c \<notin> set s"
  by (auto simp: rsplit_once_def split_once_None split: option.splits)
    (metis option.distinct(1) set_rev split_once_None)

text \<open>
  Where the first separator stands depends only on the text up to and including it, and
  lower-casing moves no character into or out of a separator without letters.
\<close>

lemma prefix_of_append: "length p \<le> length s \<Longrightarrow> prefix p (s @ t) \<longleftrightarrow> prefix p s"
  by (metis length_append prefix_append prefix_length_prefix prefixI)

lemma split_once_str_map:
  assumes "split_once_str p (a @ p @ b) = Some (a, b)" "p \<noteq> []"
    and f: "\<And>x. f x \<in> set p \<Longrightarrow> f x = x" "map f p = p"
  shows "split_once_str p (map f a @ p @ b') = Some (map f a, b')"
  using assms(1)
proof (induction a)
  case Nil
  obtain y ys where y: "p @ b' = y # ys" using \<open>p \<noteq> []\<close> by (cases "p @ b'") auto
  have "prefix p (p @ b')" "drop (length p) (p @ b') = b'" by simp_all
  then show ?case unfolding list.map append_Nil y by simp
next
  case (Cons x a)
  then have np: "\<not> prefix p (x # a @ p @ b)" and rec: "split_once_str p (a @ p @ b) = Some (a, b)"
    by (auto split: if_splits option.splits)
  have "\<not> prefix p (map f (x # a) @ p @ b')"
  proof
    assume "prefix p (map f (x # a) @ p @ b')"
    then have "prefix p (map f ((x # a) @ p))"
      using prefix_of_append [of p "map f (x # a) @ p" b'] f(2) by simp
    then obtain r where "map f ((x # a) @ p) = p @ r" by (auto simp: prefix_def)
    then obtain u v where uv: "(x # a) @ p = u @ v" "map f u = p"
      by (metis map_eq_append_conv)
    then have "u = p" using f(1) by (metis imageI list.map_ident_strong list.set_map)
    with uv have "prefix p ((x # a) @ p)" by (metis prefixI)
    with np show False
      using prefix_of_append [of p "(x # a) @ p" b] by simp
  qed
  then show ?case using Cons.IH [OF rec] by simp
qed

lemma ascii_lower_sep: "ascii_lower x \<in> set ''://'' \<Longrightarrow> ascii_lower x = x"
proof (cases "65 \<le> byte x \<and> byte x \<le> 90")
  case True
  assume "ascii_lower x \<in> set ''://''"
  then have "byte (ascii_lower x) = 58 \<or> byte (ascii_lower x) = 47" by auto
  with True show ?thesis by (simp add: ascii_lower_def)
next
  case False
  then have "ascii_lower x = x" by (auto simp: ascii_lower_def)
  then show ?thesis by simp
qed

lemma url_parse_parts:
  assumes "url_parse raw = Inr u"
  shows "\<exists>s. u_scheme u = to_ascii_lowercase s
      \<and> (\<exists>r. split_once_str ''://'' (s @ ''://'' @ r) = Some (s, r))"
    and "set (u_host u) \<inter> set ''/?#@'' = {}" and "set (u_path u) \<inter> set ''?#'' = {}"
    and "u_path u = [] \<or> hd (u_path u) = CHR ''/''" and "CHR ''#'' \<notin> set (u_query u)"
    and "\<not> has_white_space (u_host u)" "\<not> has_control (u_host u)" "\<not> has_control (u_path u)"
proof -
  obtain s r where sr: "split_once_str ''://'' raw = Some (s, r)"
    using assms by (auto simp: url_parse_def split: option.splits)
  define r' where "r' = before_first (CHR ''#'') r"
  obtain bq q where bq: "split_once_or (CHR ''?'') r' = (bq, q)"
    by fastforce
  obtain au pa where ap: "cut_at (CHR ''/'') bq = (au, pa)" by fastforce
  have u: "u = \<lparr>u_scheme = to_ascii_lowercase s, u_host = after_last (CHR ''@'') au,
      u_path = pa, u_query = q\<rparr>"
    and ok: "\<not> has_white_space (after_last (CHR ''@'') au)"
      "\<not> has_control (after_last (CHR ''@'') au)" "\<not> has_control pa"
    using assms sr bq ap by (auto simp: url_parse_def r'_def [symmetric] Let_def split: if_splits)
  have "CHR ''#'' \<notin> set r'" by (simp add: r'_def before_first_no_sep)
  moreover have "r' = bq @ CHR ''?'' # q \<or> r' = bq \<and> q = []" "CHR ''?'' \<notin> set bq"
    using bq by (auto simp: split_once_or_iff)
  moreover have "bq = au @ pa" "CHR ''/'' \<notin> set au" "pa = [] \<or> hd pa = CHR ''/''"
    using cut_at_append [OF ap] by auto
  ultimately show "set (u_host u) \<inter> set ''/?#@'' = {}" "set (u_path u) \<inter> set ''?#'' = {}"
    "u_path u = [] \<or> hd (u_path u) = CHR ''/''" "CHR ''#'' \<notin> set (u_query u)"
    using set_after_last [of "CHR ''@''" au] after_last_no_sep [of "CHR ''@''" au]
    by (auto simp: u)
  have "raw = s @ ''://'' @ r" using sr by (rule split_once_str_Some)
  with sr show "\<exists>s. u_scheme u = to_ascii_lowercase s
      \<and> (\<exists>r. split_once_str ''://'' (s @ ''://'' @ r) = Some (s, r))"
    by (auto simp: u)
  show "\<not> has_white_space (u_host u)" "\<not> has_control (u_host u)" "\<not> has_control (u_path u)"
    using ok by (simp_all add: u)
qed

lemma url_parse_display:
  assumes "url_parse raw = Inr u"
  shows "url_parse (url_display u) = Inr u"
proof -
  note parts = url_parse_parts [OF assms]
  obtain s r where s: "u_scheme u = to_ascii_lowercase s"
    "split_once_str ''://'' (s @ ''://'' @ r) = Some (s, r)" using parts(1) by blast
  define rest where
    "rest = u_host u @ u_path u @ (if u_query u \<noteq> [] then ''?'' @ u_query u else [])"
  have split: "split_once_str ''://'' (url_display u) = Some (u_scheme u, rest)"
    using split_once_str_map [OF s(2), of ascii_lower rest] ascii_lower_sep
    by (simp add: url_display_def rest_def s(1) to_ascii_lowercase_def ascii_lower_def)
  have frag: "before_first (CHR ''#'') rest = rest"
    using parts(2,3,5) by (auto simp: before_first_def rest_def takeWhile_eq_all_conv)
  have query: "split_once_or (CHR ''?'') rest = (u_host u @ u_path u, u_query u)"
    using parts(2,3) by (auto simp: split_once_or_iff rest_def)
  have cut: "cut_at (CHR ''/'') (u_host u @ u_path u) = (u_host u, u_path u)"
  proof -
    have h: "\<forall>x\<in>set (u_host u). x \<noteq> CHR ''/''" using parts(2) by auto
    from parts(4) have "takeWhile (\<lambda>x. x \<noteq> CHR ''/'') (u_path u) = []"
      "dropWhile (\<lambda>x. x \<noteq> CHR ''/'') (u_path u) = u_path u"
      by (cases "u_path u"; auto)+
    with h show ?thesis by (simp add: cut_at_def takeWhile_append2 dropWhile_append2)
  qed
  have host: "after_last (CHR ''@'') (u_host u) = u_host u"
    using parts(2) by (intro after_last_id) auto
  show ?thesis
    using split frag query cut host parts(6-8) s(1) by (simp add: url_parse_def)
qed

text \<open>
  C34: Printing a parsed URL and parsing the text again gives the same URL, so the URLs that
  the configuration, the logs and the rewriter pass around lose nothing once parsed.
\<close>

theorem url_round_trip:
  "url_parse raw = Inr u \<Longrightarrow> url_parse (url_display u) = Inr u"
  by (rule url_parse_display)

theorem url_round_trip_witness:
  "url_parse (url_display \<lparr>u_scheme = ''https'', u_host = ''e.com:8920'', u_path = ''/emby'',
       u_query = ''k=v''\<rparr>)
   = Inr \<lparr>u_scheme = ''https'', u_host = ''e.com:8920'', u_path = ''/emby'', u_query = ''k=v''\<rparr>"
  by (rule url_round_trip [of "''HTTPS://u:p@e.com:8920/emby?k=v#f''"])
    (simp add: url_parse_def split_once_or_def before_first_def cut_at_def after_last_def to_ascii_lowercase_def
      ascii_lower_def white_space_def)

section \<open>Host names\<close>

lemma hostname_port:
  assumes "trim (h @ CHR '':'' # p) = h @ CHR '':'' # p"
    and "CHR '':'' \<notin> set h" "CHR '':'' \<notin> set p" "\<not> prefix ''['' h" "h \<noteq> []"
  shows "hostname (h @ CHR '':'' # p) = h"
proof -
  have "rsplit_once (CHR '':'') (h @ CHR '':'' # p) = Some (h, p)"
    using assms by (simp add: rsplit_once_Some)
  moreover have "strip_prefix ''['' (h @ CHR '':'' # p) = None"
    using assms(4,5) by (cases h) (auto simp: strip_prefix_def)
  ultimately show ?thesis
    using assms by (simp add: hostname_def)
qed

lemma hostname_plain:
  assumes "trim h = h" "CHR '':'' \<notin> set h" "\<not> prefix ''['' h"
  shows "hostname h = h"
  using assms rsplit_once_None [of "CHR '':''" h] by (simp add: hostname_def strip_prefix_def)

lemma hostname_bracket:
  assumes "trim (CHR ''['' # h @ CHR '']'' # p) = CHR ''['' # h @ CHR '']'' # p"
    and "CHR '']'' \<notin> set h"
  shows "hostname (CHR ''['' # h @ CHR '']'' # p) = h"
  using assms by (simp add: hostname_def strip_prefix_def)

end
