(* ===== verification/Http_Headers.thy ===== *)
theory Http_Headers
  imports Body Util_Url
begin

text \<open>
  \<^verbatim>\<open>src/src/server/client_filter.rs\<close> and the header handling of
  \<^verbatim>\<open>src/src/server/mod.rs\<close>: the client's address, the allow list, hop-by-hop headers, and
  the plain responses.
\<close>

section \<open>The client\<close>

text \<open>\<^verbatim>\<open>ConnInfo\<close> with the socket address as its IP and port.\<close>

record conn_info =
  remote_ip :: ip_addr
  remote_port :: nat
  conn_tls :: bool

definition client_addr ::
  "'x http_crate_scheme \<Rightarrow> header_map \<Rightarrow> conn_info \<Rightarrow> bool \<Rightarrow> ip_addr \<times> string" where
  "client_addr X headers conn trust_proxy_headers =
     (let forwarded = (if trust_proxy_headers
                       then Option.bind (map_option first_forwarded_for
                              (header_str X headers ''x-forwarded-for'')) parse_client_addr
                       else None);
          real_ip = (if trust_proxy_headers
                     then Option.bind (header_str X headers ''x-real-ip'') parse_client_addr
                     else None) in
      case forwarded of
        Some addr \<Rightarrow> (addr, ''x_forwarded_for'')
      | None \<Rightarrow>
          (case real_ip of
             Some addr \<Rightarrow> (addr, ''x_real_ip'')
           | None \<Rightarrow> (remote_ip conn, ''remote_addr'')))"

definition is_allowed :: "ip_prefix list \<Rightarrow> ip_addr \<Rightarrow> bool" where
  "is_allowed allowed addr = list_ex (\<lambda>prefix. prefix_contains prefix addr) allowed"

section \<open>Messages\<close>

text \<open>
  A request: the method, the URI's authority, path and query, headers, and the frames of
  the body with hyper's answer whether the body has already ended.
\<close>

record request =
  rq_method :: string
  rq_authority :: "string option"
  rq_path :: string
  rq_query :: "string option"
  rq_headers :: header_map
  rq_frames :: "frame list"
  rq_ended :: bool

record response =
  rs_status :: nat
  rs_headers :: header_map
  rs_body :: proxy_body

definition request_host :: "'x http_crate_scheme \<Rightarrow> request \<Rightarrow> string" where
  "request_host X req =
     (case rq_authority req of
        Some authority \<Rightarrow> authority
      | None \<Rightarrow> (case header_str X (rq_headers req) ''host'' of Some h \<Rightarrow> h | None \<Rightarrow> []))"

definition no_headers :: header_map where
  "no_headers = (\<lambda>_. [])"

definition text_response :: "nat \<Rightarrow> string \<Rightarrow> response" where
  "text_response status msg =
     \<lparr>rs_status = status,
      rs_headers = header_insert
        (header_insert no_headers ''content-type'' ''text/plain; charset=utf-8'')
        ''x-content-type-options'' ''nosniff'',
      rs_body = body_full (msg @ [CHR 0x0A])\<rparr>"

definition empty_response :: "nat \<Rightarrow> response" where
  "empty_response status = \<lparr>rs_status = status, rs_headers = no_headers, rs_body = Empty\<rparr>"

section \<open>Hop-by-hop headers\<close>

definition HOP_BY_HOP :: "string list" where
  "HOP_BY_HOP =
     [''connection'', ''proxy-connection'', ''keep-alive'', ''proxy-authenticate'',
      ''proxy-authorization'', ''te'', ''trailer'', ''transfer-encoding'', ''upgrade'']"

text \<open>The comma-separated parts of all readable values of a header.\<close>

definition value_parts :: "'x http_crate_scheme \<Rightarrow> header_map \<Rightarrow> string \<Rightarrow> string list" where
  "value_parts X headers name =
     concat (map (split_on (CHR '','')) (List.map_filter (hv_to_str X) (headers name)))"

definition header_values_contain_token ::
  "'x http_crate_scheme \<Rightarrow> header_map \<Rightarrow> string \<Rightarrow> string \<Rightarrow> bool" where
  "header_values_contain_token X headers name token =
     list_ex (\<lambda>t. eq_ignore_ascii_case (trim t) token) (value_parts X headers name)"

definition upgrade_type :: "'x http_crate_scheme \<Rightarrow> header_map \<Rightarrow> bytes option" where
  "upgrade_type X headers =
     (if \<not> header_values_contain_token X headers ''connection'' ''upgrade'' then None
      else header_get headers ''upgrade'')"

definition connection_named :: "'x http_crate_scheme \<Rightarrow> header_map \<Rightarrow> string list" where
  "connection_named X headers =
     List.map_filter (\<lambda>t. hn_from_bytes X (trim t)) (value_parts X headers ''connection'')"

definition remove_hop_by_hop :: "'x http_crate_scheme \<Rightarrow> header_map \<Rightarrow> header_map" where
  "remove_hop_by_hop X headers =
     header_remove_all (header_remove_all headers (connection_named X headers)) HOP_BY_HOP"

definition FORWARDING :: "string list" where
  "FORWARDING = [''forwarded'', ''x-forwarded-for'', ''x-forwarded-host'', ''x-forwarded-proto'']"

definition prepare_outbound_headers ::
  "'x http_crate_scheme \<Rightarrow> header_map \<Rightarrow> bytes option \<Rightarrow> header_map" where
  "prepare_outbound_headers X headers upgrade =
     (let te_trailers = header_values_contain_token X headers ''te'' ''trailers'';
          headers = remove_hop_by_hop X headers;
          headers = (if te_trailers then header_insert headers ''te'' ''trailers'' else headers);
          headers = (case upgrade of
              None \<Rightarrow> headers
            | Some u \<Rightarrow> header_insert (header_insert headers ''connection'' ''Upgrade'') ''upgrade'' u) in
      header_remove (header_remove_all headers FORWARDING) ''host'')"

section \<open>Properties\<close>

lemma remove_hop_by_hop_apply [simp]:
  "remove_hop_by_hop X h n =
     (if n \<in> set HOP_BY_HOP \<or> n \<in> set (connection_named X h) then [] else h n)"
  by (simp add: remove_hop_by_hop_def)

text \<open>The names that never reach the other side with the value the client gave them.\<close>

definition dropped_names :: "'x http_crate_scheme \<Rightarrow> header_map \<Rightarrow> string set" where
  "dropped_names X h = set HOP_BY_HOP \<union> set (connection_named X h) \<union> set FORWARDING \<union> {''host''}"

lemma outbound_dropped:
  assumes "n \<in> dropped_names X h" "n \<notin> {''te'', ''connection'', ''upgrade''}"
  shows "prepare_outbound_headers X h u n = []"
  using assms
  by (auto simp: prepare_outbound_headers_def dropped_names_def Let_def split: option.splits)

lemma outbound_kept:
  assumes "n \<notin> dropped_names X h"
  shows "prepare_outbound_headers X h u n = h n"
  using assms
  by (auto simp: prepare_outbound_headers_def dropped_names_def HOP_BY_HOP_def Let_def
      split: option.splits)

text \<open>
  What a forwarded request keeps of the client's headers. A header that is hop-by-hop,
  named in \<^verbatim>\<open>Connection\<close>, a forwarding header or \<^verbatim>\<open>Host\<close> never passes with the client's
  value: it is gone, except that \<^verbatim>\<open>te\<close> becomes \<^verbatim>\<open>trailers\<close> when the client asked for it
  and the upgrade pair is set anew for an upgrade. Every other header passes unchanged.
\<close>

lemma outbound_headers_exact:
  "prepare_outbound_headers X h u n =
     (if n = ''te'' then (if header_values_contain_token X h ''te'' ''trailers''
                          then [''trailers''] else [])
      else if n = ''connection'' then (if u = None then [] else [''Upgrade''])
      else if n = ''upgrade'' then (case u of None \<Rightarrow> [] | Some v \<Rightarrow> [v])
      else if n \<in> dropped_names X h then [] else h n)"
proof (cases "n \<in> {''te'', ''connection'', ''upgrade''}")
  case True
  then consider "n = ''te''" | "n = ''connection''" | "n = ''upgrade''" by blast
  then show ?thesis
    by cases (cases u; simp add: prepare_outbound_headers_def HOP_BY_HOP_def FORWARDING_def Let_def)+
next
  case False
  then show ?thesis using outbound_dropped [of n X h u] outbound_kept [of n X h u] by auto
qed

lemma unmap_idem: "unmap (unmap a) = unmap a"
  by (cases a) (auto simp: unmap_def split: option.splits)

lemma client_addr_untrusted: "client_addr X h conn False = (remote_ip conn, ''remote_addr'')"
  by (simp add: client_addr_def)

text \<open>
  The client address without trusted proxy headers is the peer of the connection, so
  the headers a client sends cannot change which allow-list entry it matches; with trusted
  headers, an address taken from a header is never an IPv4-mapped IPv6 address that would
  miss the IPv4 entries.
\<close>

lemma client_addr_source:
  "fst (client_addr X h conn False) = remote_ip conn
   \<and> (snd (client_addr X h conn True) = ''remote_addr'' \<or>
      unmap (fst (client_addr X h conn True)) = fst (client_addr X h conn True))"
proof -
  have "unmap a = a" if "parse_client_addr raw = Some a" for raw a
    using that by (auto simp: parse_client_addr_def Let_def unmap_idem split: if_splits)
  then show ?thesis by (auto simp: client_addr_def bind_eq_Some_conv split: option.splits)
qed

end
