(* ===== verification/Auth_Gate.thy ===== *)
theory Auth_Gate
  imports Rust_Str
begin

text \<open>
  \<^verbatim>\<open>src/src/server/auth_gate.rs\<close>: the path rules of the allowed-users check. A method is
  its token, \<^verbatim>\<open>"GET"\<close> and so on.
\<close>

section \<open>Definitions\<close>

definition emby_path_segments :: "string \<Rightarrow> string list" where
  "emby_path_segments path =
     (let trimmed = trim_char (CHR ''/'') path in
      if trimmed = [] then []
      else
        (let segments = map to_ascii_lowercase (split_on (CHR ''/'') trimmed) in
         if hd segments = ''emby'' \<or> hd segments = ''mediabrowser'' then tl segments else segments))"

definition match_segments :: "string list \<Rightarrow> string list \<Rightarrow> bool" where
  "match_segments segments want =
     (length segments = length want
      \<and> list_all (\<lambda>(s, w). w = ''*'' \<or> s = w) (zip segments want))"

text \<open>The loop of \<^verbatim>\<open>is_login_path\<close> over the suffixes of the segments.\<close>

fun login_suffix :: "string list \<Rightarrow> bool" where
  "login_suffix [] = False"
| "login_suffix (segment # rest) =
     (segment = ''users''
        \<and> (match_segments (segment # rest) [''users'', ''authenticatebyname'']
           \<or> match_segments (segment # rest) [''users'', ''*'', ''authenticate''])
      \<or> login_suffix rest)"

definition is_login_path :: "string \<Rightarrow> bool" where
  "is_login_path path = login_suffix (emby_path_segments path)"

definition public_segments :: "string list list" where
  "public_segments =
     [[''favicon.ico''],
      [''system'', ''info'', ''public''],
      [''system'', ''ping''],
      [''users'', ''authenticatebyname''],
      [''users'', ''*'', ''authenticate''],
      [''branding'', ''configuration''],
      [''branding'', ''css''],
      [''branding'', ''css.css'']]"

definition is_public_emby_path :: "string \<Rightarrow> string list \<Rightarrow> bool" where
  "is_public_emby_path http_method segments =
     (if segments = [] \<or> list_ex (match_segments segments) public_segments
         \<or> hd segments = ''web'' then True
      else if http_method \<noteq> ''GET'' \<and> http_method \<noteq> ''HEAD'' then False
      else list_ex (\<lambda>s. s = ''images'') segments)"

section \<open>Segments\<close>

lemma ascii_lower_slash: "ascii_lower c = CHR ''/'' \<longleftrightarrow> c = CHR ''/''"
  by (auto simp: ascii_lower_def byte_eq_iff split: if_splits dest!: arg_cong [of _ _ byte])

lemma match_segments_simps [simp]:
  "match_segments [] [] = True"
  "match_segments (s # ss) [] = False"
  "match_segments [] (w # ws) = False"
  "match_segments (s # ss) (w # ws) \<longleftrightarrow> (w = ''*'' \<or> s = w) \<and> match_segments ss ws"
  by (auto simp: match_segments_def)

lemma segments_lower:
  "s \<in> set (emby_path_segments path) \<Longrightarrow> to_ascii_lowercase s = s"
  by (auto simp: emby_path_segments_def Let_def map_tl [symmetric] split: if_splits
      dest: list.set_sel(2))

text \<open>A login path is a suffix of the segments, in one of two shapes.\<close>

lemma login_suffix_iff:
  "login_suffix ss \<longleftrightarrow>
   (\<exists>pre. ss = pre @ [''users'', ''authenticatebyname''])
   \<or> (\<exists>pre id. ss = pre @ [''users'', id, ''authenticate''])"
proof (induction ss)
  case Nil
  then show ?case by simp
next
  case (Cons s ss)
  have two: "(\<exists>pre. s # ss = pre @ [a, b]) \<longleftrightarrow> s # ss = [a, b] \<or> (\<exists>pre. ss = pre @ [a, b])"
    for a b :: string by (auto simp: Cons_eq_append_conv)
  have three: "(\<exists>pre id. s # ss = pre @ [a, id, b]) \<longleftrightarrow>
      (\<exists>id. s # ss = [a, id, b]) \<or> (\<exists>pre id. ss = pre @ [a, id, b])" for a b :: string
    by (auto simp: Cons_eq_append_conv)
  have "match_segments (s # ss) [''users'', ''authenticatebyname'']
      \<longleftrightarrow> s # ss = [''users'', ''authenticatebyname'']"
    by (cases ss; cases "tl ss") auto
  moreover have "match_segments (s # ss) [''users'', ''*'', ''authenticate'']
      \<longleftrightarrow> (\<exists>id. s # ss = [''users'', id, ''authenticate''])"
    by (cases ss; cases "tl ss"; cases "tl (tl ss)") auto
  ultimately show ?case unfolding two three using Cons.IH by auto
qed

section \<open>Properties\<close>

text \<open>
  The login endpoints. A path is watched for a login answer exactly when, after the
  optional \<^verbatim>\<open>emby\<close> or \<^verbatim>\<open>mediabrowser\<close> segment and ignoring case, its last segments are
  \<^verbatim>\<open>users/authenticatebyname\<close> or \<^verbatim>\<open>users/<id>/authenticate\<close>, whatever base path stands in
  front of them.
\<close>

lemma login_path_exact:
  "is_login_path path \<longleftrightarrow>
   (\<exists>pre. emby_path_segments path = pre @ [''users'', ''authenticatebyname''])
   \<or> (\<exists>pre id. emby_path_segments path = pre @ [''users'', id, ''authenticate''])"
  unfolding is_login_path_def by (rule login_suffix_iff)

lemma trim_web:
  "trim_char (CHR ''/'') (''/web/'' @ rest) = ''web''
   \<or> (\<exists>z. trim_char (CHR ''/'') (''/web/'' @ rest) = ''web/'' @ z)"
proof (cases "\<forall>x\<in>set rest. x = CHR ''/''")
  case True
  then show ?thesis by (simp add: trim_char_def dropWhile_append)
next
  case False
  then have "trim_char (CHR ''/'') (''/web/'' @ rest)
      = ''web/'' @ rev (dropWhile (\<lambda>x. x = CHR ''/'') (rev rest))"
    by (auto simp: trim_char_def dropWhile_append)
  then show ?thesis by blast
qed

lemma segments_web: "\<exists>ss. emby_path_segments (''/web/'' @ rest) = ''web'' # ss"
proof -
  let ?t = "trim_char (CHR ''/'') (''/web/'' @ rest)"
  have "before_first (CHR ''/'') ?t = ''web''"
    using trim_web [of rest] by (auto simp: before_first_def)
  then obtain ss where "split_on (CHR ''/'') ?t = ''web'' # ss"
    using split_on_hd [of "CHR ''/''" ?t] by (cases "split_on (CHR ''/'') ?t") auto
  moreover have "?t \<noteq> []" using trim_web [of rest] by auto
  ultimately show ?thesis
    by (simp add: emby_path_segments_def to_ascii_lowercase_def ascii_lower_def Let_def)
qed

text \<open>
  The gate does not resolve dot segments. Every path below \<^verbatim>\<open>/web/\<close> is public for every
  method, also one like \<^verbatim>\<open>/web/../emby/Users/1/Items\<close> that leaves the directory again.
\<close>

lemma web_prefix_public:
  "is_public_emby_path m (emby_path_segments (''/web/'' @ rest))"
  using segments_web [of rest] by (auto simp: is_public_emby_path_def)

end
