(* ===== verification/Hosts.thy ===== *)
theory Hosts
  imports Rust_Str
begin

text \<open>
  \<^verbatim>\<open>src/src/hosts.rs\<close>: the registry of hosts the resource endpoint may forward to, a map
  from host to scheme behind a read-write lock. Each operation takes the lock once per
  access and never panics while holding it, so the lock is never poisoned and an
  operation is one update of the map.
\<close>

section \<open>Definitions\<close>

type_synonym registry = "string \<rightharpoonup> string"

definition registry_allow :: "registry \<Rightarrow> string \<Rightarrow> string \<Rightarrow> registry" where
  "registry_allow schemes host scheme =
     (if host = [] then schemes
      else let scheme = (if scheme = ''http'' \<or> scheme = ''https'' then scheme else ''https'') in
        if schemes host = Some scheme then schemes else schemes(host \<mapsto> scheme))"

definition registry_new :: "string list \<Rightarrow> registry" where
  "registry_new initial = foldl (\<lambda>r host. registry_allow r host ''https'') Map.empty initial"

definition registry_lookup :: "registry \<Rightarrow> string \<Rightarrow> string option" where
  "registry_lookup schemes host = schemes host"

section \<open>The registry's contract\<close>

text \<open>
  What the rewriter and the resource endpoint rely on: allowing a host makes it known and
  touches no other host, and the empty host is never allowed.
\<close>

locale host_registry =
  fixes allow :: "'r \<Rightarrow> string \<Rightarrow> string \<Rightarrow> 'r"
    and lookup :: "'r \<Rightarrow> string \<Rightarrow> string option"
  assumes allow_same: "h \<noteq> [] \<Longrightarrow> \<exists>t\<in>{''http'', ''https''}. lookup (allow r h s) h = Some t"
    and allow_other: "h' \<noteq> h \<Longrightarrow> lookup (allow r h s) h' = lookup r h'"
    and allow_empty: "allow r [] s = r"
begin

lemma allow_known:
  "lookup (allow r h s) h' \<noteq> None \<longleftrightarrow> lookup r h' \<noteq> None \<or> (h' = h \<and> h \<noteq> [])"
proof (cases "h = []")
  case True
  then show ?thesis using allow_empty by auto
next
  case False
  then show ?thesis using allow_same [OF False, of r s] allow_other [of h' h r s]
    by (cases "h' = h") auto
qed

lemma allow_all_known:
  "lookup (foldl (\<lambda>r hs. allow r (fst hs) (snd hs)) r ps) h \<noteq> None
   \<longleftrightarrow> lookup r h \<noteq> None \<or> (h \<noteq> [] \<and> h \<in> fst ` set ps)"
proof (induction ps arbitrary: r)
  case Nil
  then show ?case by simp
next
  case (Cons p ps)
  have "lookup (foldl (\<lambda>r hs. allow r (fst hs) (snd hs)) r (p # ps)) h \<noteq> None \<longleftrightarrow>
      lookup (allow r (fst p) (snd p)) h \<noteq> None \<or> h \<noteq> [] \<and> h \<in> fst ` set ps"
    using Cons.IH [of "allow r (fst p) (snd p)"] by simp
  then show ?case unfolding allow_known [of r "fst p" "snd p" h] by auto
qed

lemma allow_mono: "lookup r h \<noteq> None \<Longrightarrow> lookup (allow r h' s) h \<noteq> None"
  using allow_known by blast

end

interpretation reg: host_registry registry_allow registry_lookup
  by unfold_locales (auto simp: registry_allow_def registry_lookup_def Let_def)

lemmas registry_known = reg.allow_known [unfolded registry_lookup_def]

definition registry_wf :: "registry \<Rightarrow> bool" where
  "registry_wf r \<longleftrightarrow> r [] = None \<and> ran r \<subseteq> {''http'', ''https''}"

lemma registry_allow_wf: "registry_wf r \<Longrightarrow> registry_wf (registry_allow r h s)"
  by (auto simp: registry_wf_def registry_allow_def Let_def ran_def split: if_splits)

lemma registry_new_wf: "registry_wf (registry_new hs)"
proof -
  have "registry_wf r \<Longrightarrow> registry_wf (foldl (\<lambda>r host. registry_allow r host ''https'') r hs)" for r
    by (induction hs arbitrary: r) (auto simp: registry_allow_wf)
  then show ?thesis by (simp add: registry_new_def registry_wf_def)
qed

lemma registry_allow_https:
  "registry_lookup (registry_allow r h ''https'') h' =
     (if h' = h \<and> h \<noteq> [] then Some ''https'' else registry_lookup r h')"
  by (auto simp: registry_allow_def registry_lookup_def Let_def)

lemma registry_new_lookup:
  "registry_lookup (registry_new hs) h = (if h \<in> set hs \<and> h \<noteq> [] then Some ''https'' else None)"
proof -
  have "registry_lookup (foldl (\<lambda>r host. registry_allow r host ''https'') r hs) h =
      (if h \<in> set hs \<and> h \<noteq> [] then Some ''https'' else registry_lookup r h)" for r
    by (induction hs arbitrary: r) (auto simp: registry_allow_https)
  then show ?thesis by (simp add: registry_new_def registry_lookup_def)
qed

end
