(* ===== verification/Rewrite.thy ===== *)
theory Rewrite
  imports Json_Print Hosts Util_Url Util_Query
begin

text \<open>
  The URL rewriter of \<^verbatim>\<open>src/src/rewrite.rs\<close>. The registry it shares with the resource
  endpoint is passed in and out; \<^verbatim>\<open>serde_json::to_string\<close> on a string is the parameter
  \<open>js\<close>.
\<close>

section \<open>Definitions\<close>

record rewriter =
  rw_public_url :: http_url
  rw_public_path :: string
  rw_sign :: "(string \<Rightarrow> string \<Rightarrow> string) option"

record rewrite_event =
  e_path :: string
  e_original :: string
  e_rewritten :: string
  e_scheme :: string
  e_host :: string

definition rewriter_new :: "http_url \<Rightarrow> rewriter" where
  "rewriter_new public_url =
     \<lparr>rw_public_url = public_url,
      rw_public_path = (case percent_decode (u_path public_url) False of
                          Some p \<Rightarrow> p | None \<Rightarrow> u_path public_url),
      rw_sign = None\<rparr>"

definition with_signer :: "rewriter \<Rightarrow> (string \<Rightarrow> string \<Rightarrow> string) \<Rightarrow> rewriter" where
  "with_signer rw sign = rw\<lparr>rw_sign := Some sign\<rparr>"

definition bad_host_byte :: "char \<Rightarrow> bool" where
  "bad_host_byte b \<longleftrightarrow> byte b \<le> 32 \<or> b \<in> {CHR ''%'', CHR 0x22, CHR ''<'', CHR ''>'', CHR 0x5C}"

definition port_ok :: "string \<Rightarrow> bool" where
  "port_ok port \<longleftrightarrow> port = [] \<or> hd port = CHR '':'' \<and> list_all is_ascii_digit (tl port)"

definition valid_host :: "string \<Rightarrow> bool" where
  "valid_host host =
     (if host = [] \<or> list_ex bad_host_byte host then False
      else if hd host = CHR ''['' then
        (if CHR '']'' \<notin> set host then False
         else port_ok (tl (dropWhile (\<lambda>c. c \<noteq> CHR '']'') host)))
      else
        (if CHR '':'' \<notin> set host then port_ok []
         else port_ok (CHR '':'' # after_last (CHR '':'') host)))"

definition join_url_path :: "string \<Rightarrow> string list \<Rightarrow> string" where
  "join_url_path base parts =
     (let out = foldl (\<lambda>out part.
            let part = trim_char (CHR ''/'') part in
            if part \<noteq> [] then out @ ''/'' @ part else out) [] (base # parts) in
      if out = [] then ''/'' else out)"

text \<open>
  \<open>rewrite_url\<close> gives the new URL, the scheme and the host, and the registry with the host
  allowed; \<open>None\<close> leaves the registry alone.
\<close>

definition url_scheme :: "string \<Rightarrow> (string \<times> string) option" where
  "url_scheme raw =
     (case strip_prefix ''https://'' raw of
        Some rest \<Rightarrow> Some (''https'', rest)
      | None \<Rightarrow> map_option (Pair ''http'') (strip_prefix ''http://'' raw))"

definition rewrite_url ::
  "rewriter \<Rightarrow> registry \<Rightarrow> string \<Rightarrow> ((string \<times> string \<times> string) \<times> registry) option" where
  "rewrite_url rw reg raw =
     (case url_scheme raw of
        None \<Rightarrow> None
      | Some (scheme, rest) \<Rightarrow>
          if list_ex (\<lambda>b. byte b < 0x20 \<or> byte b = 0x7F) raw then None
          else
            (let rest = before_first (CHR ''#'') rest;
                 (before_query, query) =
                   (case split_once (CHR ''?'') rest of
                      Some (a, q) \<Rightarrow> (a, Some q) | None \<Rightarrow> (rest, None));
                 (authority, raw_path) = cut_at (CHR ''/'') before_query;
                 host = after_last (CHR ''@'') authority in
             if \<not> valid_host host then None
             else
               (case percent_decode raw_path False of
                  None \<Rightarrow> None
                | Some path \<Rightarrow>
                    (let reg = registry_allow reg host scheme;
                         parts = [''_proxy'']
                           @ (case rw_sign rw of Some sign \<Rightarrow> [sign scheme host] | None \<Rightarrow> [])
                           @ [scheme, host, trim_start_char (CHR ''/'') path];
                         rewritten = u_scheme (rw_public_url rw) @ ''://'' @ u_host (rw_public_url rw)
                           @ escape_path (join_url_path (rw_public_path rw) parts);
                         rewritten = (case query of
                             Some q \<Rightarrow> if q \<noteq> [] then rewritten @ ''?'' @ q else rewritten
                           | None \<Rightarrow> rewritten) in
                     Some ((rewritten, scheme, host), reg)))))"

text \<open>The loop over the found strings: output so far, where it stands, events, registry.\<close>

fun rewrite_loop ::
  "(string \<Rightarrow> string) \<Rightarrow> rewriter \<Rightarrow> bytes \<Rightarrow> found_string list
   \<Rightarrow> bytes option \<times> nat \<times> rewrite_event list \<times> registry
   \<Rightarrow> bytes option \<times> nat \<times> rewrite_event list \<times> registry" where
  "rewrite_loop js rw body [] st = st"
| "rewrite_loop js rw body (item # items) (out, fin, events, reg) =
     (case rewrite_url rw reg (f_value item) of
        None \<Rightarrow> rewrite_loop js rw body items (out, fin, events, reg)
      | Some ((rewritten, scheme, host), reg) \<Rightarrow>
          (let buf = (case out of Some b \<Rightarrow> b | None \<Rightarrow> []);
               buf = buf @ take (f_start item - fin) (drop fin body) @ js rewritten;
               event = \<lparr>e_path = f_path item, e_original = f_value item,
                        e_rewritten = rewritten, e_scheme = scheme, e_host = host\<rparr> in
           rewrite_loop js rw body items (Some buf, f_end item, events @ [event], reg)))"

definition rewrite_playback_info ::
  "(string \<Rightarrow> string) \<Rightarrow> rewriter \<Rightarrow> registry \<Rightarrow> bytes
   \<Rightarrow> bytes option \<times> rewrite_event list \<times> registry" where
  "rewrite_playback_info js rw reg body =
     (if \<not> valid_utf8 body then (None, [], reg)
      else
        (case scan body of
           None \<Rightarrow> (None, [], reg)
         | Some found \<Rightarrow>
             (let (out, fin, events, reg) = rewrite_loop js rw body found (None, 0, [], reg) in
              (map_option (\<lambda>buf. buf @ drop fin body) out, events, reg))))"

section \<open>The registry after a rewrite\<close>

lemma url_scheme_http: "url_scheme raw = Some (s, r) \<Longrightarrow> s = ''http'' \<or> s = ''https''"
  by (auto simp: url_scheme_def split: option.splits)

lemma rewrite_url_allows:
  assumes "rewrite_url rw reg raw = Some ((rewritten, scheme, host), reg')"
  shows "reg' = registry_allow reg host scheme \<and> scheme \<in> {''http'', ''https''}
    \<and> valid_host host"
  using assms
  by (auto simp: rewrite_url_def Let_def dest: url_scheme_http split: option.splits if_splits prod.splits)

text \<open>The rewritten text does not depend on the registry.\<close>

lemma rewrite_url_any_registry:
  "map_option fst (rewrite_url rw reg raw) = map_option fst (rewrite_url rw reg' raw)"
  by (simp add: rewrite_url_def Let_def split: option.split prod.split)

definition is_rewritten :: "rewriter \<Rightarrow> string \<Rightarrow> bool" where
  "is_rewritten rw raw \<longleftrightarrow> rewrite_url rw Map.empty raw \<noteq> None"

lemma is_rewritten_iff: "rewrite_url rw reg raw \<noteq> None \<longleftrightarrow> is_rewritten rw raw"
  using rewrite_url_any_registry [of rw reg raw Map.empty]
  by (metis is_rewritten_def option.map_disc_iff)

lemma rewrite_loop_registry:
  "rewrite_loop js rw body items (out, fin, events, reg) = (out', fin', events', reg') \<Longrightarrow>
   \<exists>new. events' = events @ new
     \<and> reg' = foldl (\<lambda>r hs. registry_allow r (fst hs) (snd hs)) reg
                (map (\<lambda>e. (e_host e, e_scheme e)) new)
     \<and> (\<forall>e\<in>set new. valid_host (e_host e) \<and> e_scheme e \<in> {''http'', ''https''})"
proof (induction items arbitrary: out fin events reg)
  case (Cons item items)
  show ?case
  proof (cases "rewrite_url rw reg (f_value item)")
    case None
    then show ?thesis using Cons by simp
  next
    case (Some p)
    then obtain u s h r where p: "rewrite_url rw reg (f_value item) = Some ((u, s, h), r)"
      by (metis prod.collapse)
    from rewrite_url_allows [OF p] have r: "r = registry_allow reg h s" "s \<in> {''http'', ''https''}"
      "valid_host h" by auto
    let ?e = "\<lparr>e_path = f_path item, e_original = f_value item, e_rewritten = u,
           e_scheme = s, e_host = h\<rparr>"
    obtain out2 fin2 where "rewrite_loop js rw body items (out2, fin2, events @ [?e], r)
        = (out', fin', events', reg')"
      using Cons.prems p by (auto simp: Let_def)
    from Cons.IH [OF this] obtain new where "events' = (events @ [?e]) @ new"
      "reg' = foldl (\<lambda>r hs. registry_allow r (fst hs) (snd hs)) r
                (map (\<lambda>e. (e_host e, e_scheme e)) new)"
      "\<forall>e\<in>set new. valid_host (e_host e) \<and> e_scheme e \<in> {''http'', ''https''}" by blast
    with r show ?thesis by (intro exI [of _ "?e # new"]) simp
  qed
qed simp

section \<open>What changes in the document\<close>

text \<open>
  \<open>out\<close> is \<open>body\<close> with, in the order of the events, the string literal of the original URL
  replaced by the text of the new one and every other byte kept.
\<close>

fun spliced :: "(string \<Rightarrow> string) \<Rightarrow> bytes \<Rightarrow> bytes \<Rightarrow> rewrite_event list \<Rightarrow> bool" where
  "spliced js body out [] \<longleftrightarrow> out = body"
| "spliced js body out (e # es) \<longleftrightarrow>
     (\<exists>gap lit rest out'. body = gap @ lit @ rest \<and> out = gap @ js (e_rewritten e) @ out'
        \<and> jstring (lit @ rest) = Some (e_original e, rest) \<and> spliced js rest out' es)"

lemma rewrite_loop_splice:
  assumes "rewrite_loop js rw body items (out, fin, events, reg) = (out', fin', events', reg')"
    and "\<forall>f\<in>set items. span_ok body f" "spans_between fin items (length body)"
  shows "\<exists>new buf. events' = events @ new \<and> spliced js (drop fin body) (buf @ drop fin' body) new
    \<and> (if new = [] then out' = out \<and> fin' = fin
       else out' = Some ((case out of Some b \<Rightarrow> b | None \<Rightarrow> []) @ buf))
    \<and> map (\<lambda>e. (e_path e, e_original e)) new
        = map (\<lambda>f. (f_path f, f_value f)) (filter (\<lambda>f. is_rewritten rw (f_value f)) items)"
  using assms
proof (induction items arbitrary: out fin events reg)
  case Nil
  then show ?case by (intro exI [of _ "[]"]) auto
next
  case (Cons item items)
  have item: "span_ok body item" "fin \<le> f_start item" and items: "\<forall>f\<in>set items. span_ok body f"
    "spans_between (f_end item) items (length body)" using Cons.prems(2,3) by auto
  show ?case
  proof (cases "rewrite_url rw reg (f_value item)")
    case None
    have "spans_between fin items (length body)"
      using items(2) item by (auto simp: span_ok_def intro: spans_between_weaken)
    moreover have "\<not> is_rewritten rw (f_value item)" using None is_rewritten_iff [of rw reg "f_value item"] by simp
    ultimately show ?thesis
      using Cons.IH [OF _ items(1), of out fin events reg] Cons.prems(1) None by simp
  next
    case (Some p)
    then obtain u s h r where p: "rewrite_url rw reg (f_value item) = Some ((u, s, h), r)"
      by (metis prod.collapse)
    let ?e = "\<lparr>e_path = f_path item, e_original = f_value item, e_rewritten = u, e_scheme = s,
        e_host = h\<rparr>"
    let ?gap = "take (f_start item - fin) (drop fin body)"
    let ?b = "case out of Some b \<Rightarrow> b | None \<Rightarrow> []"
    have "rewrite_loop js rw body items (Some (?b @ ?gap @ js u), f_end item, events @ [?e], r)
        = (out', fin', events', reg')" using Cons.prems(1) p by (simp add: Let_def)
    from Cons.IH [OF this items] obtain new buf where n: "events' = events @ ?e # new"
      "spliced js (drop (f_end item) body) (buf @ drop fin' body) new"
      "if new = [] then out' = Some (?b @ ?gap @ js u) \<and> fin' = f_end item
       else out' = Some (?b @ ?gap @ js u @ buf)"
      "map (\<lambda>e. (e_path e, e_original e)) new
        = map (\<lambda>f. (f_path f, f_value f)) (filter (\<lambda>f. is_rewritten rw (f_value f)) items)" by auto
    have out': "out' = Some (?b @ ?gap @ js u @ buf)" using n(2,3) by (auto split: if_splits)
    let ?lit = "take (f_end item - f_start item) (drop (f_start item) body)"
    let ?rest = "drop (f_end item) body"
    have lit: "?lit @ ?rest = drop (f_start item) body"
      using item(1) by (metis (no_types, lifting) append_take_drop_id drop_drop le_add_diff_inverse2
          less_imp_le_nat span_ok_def)
    have gap: "drop fin body = ?gap @ drop (f_start item) body"
      using item(2) by (metis append_take_drop_id drop_drop le_add_diff_inverse2)
    have "spliced js (drop fin body) ((?gap @ js u @ buf) @ drop fin' body) (?e # new)"
      unfolding spliced.simps
      using gap lit n(2) item(1) by (intro exI [of _ ?gap] exI [of _ ?lit] exI [of _ ?rest]
          exI [of _ "buf @ drop fin' body"]) (simp add: span_ok_def)
    moreover have "is_rewritten rw (f_value item)" using p is_rewritten_iff [of rw reg "f_value item"] by simp
    ultimately show ?thesis using n out'
      by (intro exI [of _ "?e # new"] exI [of _ "?gap @ js u @ buf"]) simp
  qed
qed

section \<open>Properties\<close>

lemma playback_cases:
  assumes "rewrite_playback_info js rw reg body = (out, events, reg')"
  obtains (unchanged) "out = None" "events = []" "reg' = reg" "\<not> valid_utf8 body \<or> scan body = None"
  | (scanned) found out0 fin where "valid_utf8 body" "scan body = Some found"
      "rewrite_loop js rw body found (None, 0, [], reg) = (out0, fin, events, reg')"
      "out = map_option (\<lambda>buf. buf @ drop fin body) out0"
proof (cases "valid_utf8 body \<and> scan body \<noteq> None")
  case False
  then show thesis using assms that(1) by (auto simp: rewrite_playback_info_def split: if_splits)
next
  case True
  then obtain found where f: "scan body = Some found" by auto
  obtain out0 fin ev r where l: "rewrite_loop js rw body found (None, 0, [], reg) = (out0, fin, ev, r)"
    by (metis surj_pair)
  then show thesis using assms that(2) [OF _ f] True f by (simp add: rewrite_playback_info_def)
qed

lemma playback_splice:
  assumes "rewrite_playback_info js rw reg body = (out, events, reg')"
  shows "out = None \<and> events = [] \<or> (\<exists>new. out = Some new \<and> events \<noteq> [] \<and> spliced js body new events)"
  using assms
proof (cases rule: playback_cases)
  case (scanned found out0 fin)
  have sp: "\<forall>f\<in>set found. span_ok body f" "spans_between 0 found (length body)"
    using scan_adds_spans [OF scanned(2)] by auto
  from rewrite_loop_splice [OF scanned(3) sp] scanned(4) show ?thesis by (auto split: if_splits)
qed simp

lemma playback_events:
  assumes "rewrite_playback_info js rw reg body = (out, events, reg')"
    and "valid_utf8 body" "scan body = Some found"
  shows "map (\<lambda>e. (e_path e, e_original e)) events
    = filter (\<lambda>(_, v). is_rewritten rw v) (map (\<lambda>f. (f_path f, f_value f)) found)"
  using assms(1)
proof (cases rule: playback_cases)
  case (scanned found' out0 fin)
  have sp: "\<forall>f\<in>set found. span_ok body f" "spans_between 0 found (length body)"
    using scan_adds_spans [OF assms(3)] by auto
  from scanned(2) assms(3) have "found' = found" by simp
  with rewrite_loop_splice [OF scanned(3)] sp show ?thesis by (auto simp: filter_map comp_def)
qed (use assms in simp)

text \<open>
  C10: Rewriting a PlaybackInfo document changes string literals only. Either nothing is
  rewritten and the document stays as it is, or the new document is the old one in which,
  in order, the string literal of each reported URL is replaced by the literal of its new
  form; every byte outside these literals is kept.
\<close>

theorem rewrite_keeps_rest:
  assumes "rewrite_playback_info js rw reg body = (out, events, reg')"
  shows "(out = None \<longrightarrow> events = []) \<and> (\<forall>new. out = Some new \<longrightarrow> events \<noteq> [] \<and> spliced js body new events)"
  using playback_splice [OF assms] by auto

definition rw_sample :: rewriter where
  "rw_sample = rewriter_new \<lparr>u_scheme = ''https'', u_host = ''p.io'', u_path = [], u_query = []\<rparr>"

definition doc_sample :: string where
  "doc_sample = json_print (JArr [JNum 1, JStr ''http://h/x?q''])"

definition playback_sample :: "bytes option \<times> rewrite_event list \<times> registry" where
  "playback_sample = rewrite_playback_info json_string rw_sample Map.empty doc_sample"

lemma playback_sample_eq:
  "rewrite_playback_info json_string rw_sample Map.empty doc_sample
     = (fst playback_sample, fst (snd playback_sample), snd (snd playback_sample))"
  by (simp add: playback_sample_def)

lemma playback_sample_out:
  "fst playback_sample = Some (json_print (JArr [JNum 1, JStr ''https://p.io/_proxy/http/h/x?q'']))"
  by code_simp

theorem rewrite_keeps_rest_witness:
  "spliced json_string doc_sample (json_print (JArr [JNum 1, JStr ''https://p.io/_proxy/http/h/x?q'']))
     (fst (snd playback_sample))"
  using rewrite_keeps_rest [OF playback_sample_eq] playback_sample_out by blast



lemma playback_registry:
  assumes "rewrite_playback_info js rw reg body = (out, events, reg')"
  shows "registry_lookup reg' h \<noteq> None \<longleftrightarrow>
    registry_lookup reg h \<noteq> None \<or> (\<exists>e\<in>set events. e_host e = h)"
  using assms
proof (cases rule: playback_cases)
  case (scanned found out0 fin)
  from rewrite_loop_registry [OF scanned(3)]
  have r: "reg' = foldl (\<lambda>r hs. registry_allow r (fst hs) (snd hs)) reg
                (map (\<lambda>e. (e_host e, e_scheme e)) events)"
    and v: "\<forall>e\<in>set events. valid_host (e_host e)" by auto
  have "e_host e \<noteq> []" if "e \<in> set events" for e using v that by (auto simp: valid_host_def)
  then show ?thesis unfolding r reg.allow_all_known by (force simp: image_iff)
qed simp

end
