(* ===== verification/Config.thy ===== *)
theory Config
  imports Util_Url Util_Ip Logging
begin

text \<open>
  \<^verbatim>\<open>src/src/config.rs\<close>: the layers of the configuration (defaults, TOML file, environment,
  flags), the flag parser, and the checks that turn the values into a configuration. An
  error is a constructor for each message of the source. Reading and parsing the TOML file
  is the parameter \<open>load\<close>: \<open>Inl True\<close> for a missing file, \<open>Inl False\<close> for any other
  failure, \<open>Inr\<close> the parsed document.
\<close>

section \<open>Data\<close>

definition DEFAULT_HTTP_ADDR :: string where "DEFAULT_HTTP_ADDR = '':8080''"
definition DEFAULT_TLS_ADDR :: string where "DEFAULT_TLS_ADDR = '':443''"
definition DEFAULT_ACME_CACHE_DIR :: string where "DEFAULT_ACME_CACHE_DIR = ''.acme-cache''"
definition DEFAULT_STATS_ADDR :: string where "DEFAULT_STATS_ADDR = ''127.0.0.1:9180''"
definition DEFAULT_PLAYBACKINFO_MAX_BYTES :: int where "DEFAULT_PLAYBACKINFO_MAX_BYTES = 8 * 2 ^ 20"
definition DEFAULT_RESPONSE_HEADER_TIMEOUT_SECS :: int where
  "DEFAULT_RESPONSE_HEADER_TIMEOUT_SECS = 60"
definition DEFAULT_CONFIG_PATH :: string where
  "DEFAULT_CONFIG_PATH = ''/etc/proxemby/proxemby.toml''"

record route =
  r_upstream_url :: http_url
  r_public_url :: http_url
  r_acme_domain :: string

text \<open>The response header timeout is in seconds.\<close>

record config =
  c_routes :: "route list"
  c_http_addr :: string
  c_tls_enable :: bool
  c_tls_addr :: string
  c_acme_domains :: "string list"
  c_acme_email :: string
  c_acme_cache_dir :: string
  c_allowed_hosts :: "string list"
  c_playbackinfo_max_bytes :: int
  c_response_header_timeout :: "nat option"
  c_allowed_clients :: "ip_prefix list"
  c_trust_proxy_headers :: bool
  c_hide_client :: bool
  c_allowed_users :: "string list"
  c_auth_state_file :: string
  c_stats_enable :: bool
  c_stats_addr :: string
  c_stats_file :: string
  c_logging :: log_config

definition with_routes :: "route list \<Rightarrow> config" where
  "with_routes routes =
     \<lparr>c_routes = routes, c_http_addr = DEFAULT_HTTP_ADDR, c_tls_enable = False,
      c_tls_addr = DEFAULT_TLS_ADDR, c_acme_domains = [], c_acme_email = [],
      c_acme_cache_dir = DEFAULT_ACME_CACHE_DIR, c_allowed_hosts = [],
      c_playbackinfo_max_bytes = DEFAULT_PLAYBACKINFO_MAX_BYTES,
      c_response_header_timeout = Some (nat DEFAULT_RESPONSE_HEADER_TIMEOUT_SECS),
      c_allowed_clients = [], c_trust_proxy_headers = False, c_hide_client = False,
      c_allowed_users = [], c_auth_state_file = [], c_stats_enable = False,
      c_stats_addr = DEFAULT_STATS_ADDR, c_stats_file = [], c_logging = log_config_default\<rparr>"

datatype config_error =
    Help | Version
  | NotNonNegative string | NotPositive string
  | MaxBytesNotPositive | TimeoutNegative | BadClient string prefix_error
  | AcmeRequired | BadLogging log_error
  | UrlRequired string | UrlInvalid string url_error | UrlScheme string | UrlHost string
  | NoRoutes | DuplicateHost string
  | RouteFields string | RouteUrls string | RouteAcme string
  | UseHelp | BadFlagSyntax string | UnknownFlag string | BadFlagBool string string
  | FlagNeedsValue string | BadFlagInt string string | ExtraArgument string
  | LoadFailed string

record route_values =
  rv_upstream_url :: string
  rv_public_url :: string
  rv_acme_domain :: string

record config_values =
  v_routes :: "route_values list"
  v_http_addr :: string
  v_tls_enable :: bool
  v_tls_addr :: string
  v_acme_email :: string
  v_acme_cache_dir :: string
  v_allowed_hosts :: "string list"
  v_playbackinfo_max_bytes :: int
  v_response_header_timeout :: int
  v_allowed_clients :: "string list"
  v_trust_proxy_headers :: bool
  v_hide_client :: bool
  v_allowed_users :: "string list"
  v_auth_state_file :: string
  v_stats_enable :: bool
  v_stats_addr :: string
  v_stats_file :: string
  v_log_level :: string
  v_log_format :: string
  v_log_time :: bool

record raw =
  raw_routes :: "route_values list option"
  raw_http_addr :: "string option"
  raw_tls_enable :: "bool option"
  raw_tls_addr :: "string option"
  raw_acme_email :: "string option"
  raw_acme_cache_dir :: "string option"
  raw_allowed_hosts :: "string list option"
  raw_playbackinfo_max_bytes :: "int option"
  raw_response_header_timeout :: "int option"
  raw_allowed_clients :: "string list option"
  raw_trust_proxy_headers :: "bool option"
  raw_hide_client :: "bool option"
  raw_allowed_users :: "string list option"
  raw_auth_state_file :: "string option"
  raw_stats_enable :: "bool option"
  raw_stats_addr :: "string option"
  raw_stats_file :: "string option"
  raw_debug :: "bool option"
  raw_log_level :: "string option"
  raw_log_format :: "string option"
  raw_log_time :: "bool option"

definition raw_default :: raw where
  "raw_default =
     \<lparr>raw_routes = None, raw_http_addr = None, raw_tls_enable = None, raw_tls_addr = None,
      raw_acme_email = None, raw_acme_cache_dir = None, raw_allowed_hosts = None,
      raw_playbackinfo_max_bytes = None, raw_response_header_timeout = None,
      raw_allowed_clients = None, raw_trust_proxy_headers = None, raw_hide_client = None,
      raw_allowed_users = None, raw_auth_state_file = None, raw_stats_enable = None,
      raw_stats_addr = None, raw_stats_file = None, raw_debug = None, raw_log_level = None,
      raw_log_format = None, raw_log_time = None\<rparr>"

definition values_default :: config_values where
  "values_default =
     \<lparr>v_routes = [], v_http_addr = DEFAULT_HTTP_ADDR, v_tls_enable = False,
      v_tls_addr = DEFAULT_TLS_ADDR, v_acme_email = [], v_acme_cache_dir = DEFAULT_ACME_CACHE_DIR,
      v_allowed_hosts = [], v_playbackinfo_max_bytes = DEFAULT_PLAYBACKINFO_MAX_BYTES,
      v_response_header_timeout = DEFAULT_RESPONSE_HEADER_TIMEOUT_SECS,
      v_allowed_clients = [], v_trust_proxy_headers = False, v_hide_client = False,
      v_allowed_users = [], v_auth_state_file = [], v_stats_enable = False,
      v_stats_addr = DEFAULT_STATS_ADDR, v_stats_file = [], v_log_level = DEFAULT_LEVEL,
      v_log_format = DEFAULT_FORMAT, v_log_time = True\<rparr>"

section \<open>Field parsers\<close>

definition value_or_default :: "string \<Rightarrow> string \<Rightarrow> string" where
  "value_or_default v fallback = (let v = trim v in if v = [] then fallback else v)"

definition clean_strings :: "string list \<Rightarrow> string list" where
  "clean_strings vs = filter (\<lambda>v. v \<noteq> []) (map trim vs)"

definition split_csv :: "string \<Rightarrow> string list" where
  "split_csv s = filter (\<lambda>v. v \<noteq> []) (map trim (split_on (CHR '','') s))"

definition parse_bool :: "string \<Rightarrow> bool" where
  "parse_bool s \<longleftrightarrow> to_ascii_lowercase (trim s)
     \<in> set [''1'', ''t'', ''true'', ''y'', ''yes'', ''on'']"

definition parse_non_negative_int :: "string \<Rightarrow> string \<Rightarrow> (config_error, int) res" where
  "parse_non_negative_int s name =
     (case parse_i64 (trim s) of
        Some i \<Rightarrow> if 0 \<le> i then Inr i else Inl (NotNonNegative name)
      | None \<Rightarrow> Inl (NotNonNegative name))"

definition parse_positive_int :: "string \<Rightarrow> string \<Rightarrow> (config_error, int) res" where
  "parse_positive_int s name =
     (case parse_i64 (trim s) of
        Some i \<Rightarrow> if 0 < i then Inr i else Inl (NotPositive name)
      | None \<Rightarrow> Inl (NotPositive name))"

section \<open>Layers\<close>

text \<open>One \<^verbatim>\<open>if let Some\<close> of \<^verbatim>\<open>apply_raw\<close>.\<close>

definition override :: "'a option \<Rightarrow> ('a \<Rightarrow> 'b) \<Rightarrow> 'b \<Rightarrow> 'b" where
  "override new f old = (case new of Some v \<Rightarrow> f v | None \<Rightarrow> old)"

definition apply_raw :: "config_values \<Rightarrow> raw \<Rightarrow> config_values" where
  "apply_raw v r =
     \<lparr>v_routes = override (raw_routes r) id (v_routes v),
      v_http_addr = override (raw_http_addr r) (\<lambda>s. value_or_default s DEFAULT_HTTP_ADDR) (v_http_addr v),
      v_tls_enable = override (raw_tls_enable r) id (v_tls_enable v),
      v_tls_addr = override (raw_tls_addr r) (\<lambda>s. value_or_default s DEFAULT_TLS_ADDR) (v_tls_addr v),
      v_acme_email = override (raw_acme_email r) trim (v_acme_email v),
      v_acme_cache_dir =
        override (raw_acme_cache_dir r) (\<lambda>s. value_or_default s DEFAULT_ACME_CACHE_DIR) (v_acme_cache_dir v),
      v_allowed_hosts = override (raw_allowed_hosts r) clean_strings (v_allowed_hosts v),
      v_playbackinfo_max_bytes =
        override (raw_playbackinfo_max_bytes r) id (v_playbackinfo_max_bytes v),
      v_response_header_timeout =
        override (raw_response_header_timeout r) id (v_response_header_timeout v),
      v_allowed_clients = override (raw_allowed_clients r) clean_strings (v_allowed_clients v),
      v_trust_proxy_headers = override (raw_trust_proxy_headers r) id (v_trust_proxy_headers v),
      v_hide_client = override (raw_hide_client r) id (v_hide_client v),
      v_allowed_users = override (raw_allowed_users r) clean_strings (v_allowed_users v),
      v_auth_state_file = override (raw_auth_state_file r) trim (v_auth_state_file v),
      v_stats_enable = override (raw_stats_enable r) id (v_stats_enable v),
      v_stats_addr = override (raw_stats_addr r) trim (v_stats_addr v),
      v_stats_file = override (raw_stats_file r) trim (v_stats_file v),
      v_log_level =
        override (raw_log_level r) trim
          (override (raw_debug r) (\<lambda>d. if d then ''debug'' else DEFAULT_LEVEL) (v_log_level v)),
      v_log_format = override (raw_log_format r) trim (v_log_format v),
      v_log_time = override (raw_log_time r) id (v_log_time v)\<rparr>"

section \<open>Routes\<close>

definition route_entry :: "string \<Rightarrow> (config_error, route_values) res" where
  "route_entry entry =
     (let parts = map trim (split_on (CHR '','') entry) in
      if length parts \<noteq> 2 \<and> length parts \<noteq> 3 then Inl (RouteFields entry)
      else if parts ! 0 = [] \<or> parts ! 1 = [] then Inl (RouteUrls entry)
      else if length parts = 3 \<and> parts ! 2 = [] then Inl (RouteAcme entry)
      else Inr \<lparr>rv_upstream_url = parts ! 0, rv_public_url = parts ! 1,
                rv_acme_domain = (if length parts = 3 then parts ! 2 else [])\<rparr>)"

definition parse_route_values :: "string \<Rightarrow> (config_error, route_values list) res" where
  "parse_route_values s =
     bind_res (map_res route_entry (filter (\<lambda>e. e \<noteq> []) (map trim (split_on (CHR '';'') s))))
       (\<lambda>routes. if routes = [] then Inl NoRoutes else Inr routes)"

definition parse_required_url :: "string \<Rightarrow> string \<Rightarrow> (config_error, http_url) res" where
  "parse_required_url s name =
     (let s = trim s in
      if s = [] then Inl (UrlRequired name)
      else case url_parse s of
        Inl e \<Rightarrow> Inl (UrlInvalid name e)
      | Inr url \<Rightarrow>
          if u_scheme url \<noteq> ''http'' \<and> u_scheme url \<noteq> ''https'' then Inl (UrlScheme name)
          else if u_host url = [] then Inl (UrlHost name)
          else Inr url)"

text \<open>The loop of \<^verbatim>\<open>parse_routes\<close>: index, hosts and domains seen, routes and domains so far.\<close>

fun parse_routes_loop ::
  "nat \<Rightarrow> string list \<Rightarrow> string list \<Rightarrow> route list \<Rightarrow> route_values list
   \<Rightarrow> (config_error, route list \<times> string list) res" where
  "parse_routes_loop i hosts domains routes [] = Inr (routes, domains)"
| "parse_routes_loop i hosts domains routes (v # vs) =
     (let name = ''route '' @ show_nat (i + 1) in
      bind_res (parse_required_url (rv_upstream_url v) (name @ '' upstream URL'')) (\<lambda>upstream_url.
      bind_res (parse_required_url (rv_public_url v) (name @ '' public URL'')) (\<lambda>public_url.
      let public_host = to_ascii_lowercase (url_hostname public_url) in
      if public_host \<in> set hosts then Inl (DuplicateHost public_host)
      else
        (let acme = trim (rv_acme_domain v);
             acme_domain = to_ascii_lowercase (if acme = [] then public_host else acme) in
         parse_routes_loop (i + 1) (hosts @ [public_host])
           (if acme_domain \<in> set domains then domains else domains @ [acme_domain])
           (routes @ [\<lparr>r_upstream_url = upstream_url, r_public_url = public_url,
                       r_acme_domain = acme_domain\<rparr>]) vs))))"

definition parse_routes :: "route_values list \<Rightarrow> (config_error, route list \<times> string list) res" where
  "parse_routes vs = (if vs = [] then Inl NoRoutes else parse_routes_loop 0 [] [] [] vs)"

section \<open>The configuration\<close>

definition parse_client :: "string \<Rightarrow> (config_error, ip_prefix) res" where
  "parse_client v = (case prefix_parse v of Inr p \<Rightarrow> Inr p | Inl e \<Rightarrow> Inl (BadClient v e))"

definition values_config :: "config_values \<Rightarrow> (config_error, config) res" where
  "values_config v =
     (if v_playbackinfo_max_bytes v \<le> 0 then Inl MaxBytesNotPositive
      else if v_response_header_timeout v < 0 then Inl TimeoutNegative
      else
        bind_res (map_res parse_client (v_allowed_clients v)) (\<lambda>allowed_clients.
        bind_res (parse_routes (v_routes v)) (\<lambda>(routes, acme_domains).
        if v_tls_enable v \<and> acme_domains = [] then Inl AcmeRequired
        else case log_parse_config (v_log_level v) (v_log_format v) (v_log_time v) of
          Inl e \<Rightarrow> Inl (BadLogging e)
        | Inr logging \<Rightarrow>
            Inr \<lparr>c_routes = routes, c_http_addr = v_http_addr v, c_tls_enable = v_tls_enable v,
                 c_tls_addr = v_tls_addr v, c_acme_domains = acme_domains,
                 c_acme_email = trim (v_acme_email v), c_acme_cache_dir = v_acme_cache_dir v,
                 c_allowed_hosts = clean_strings (v_allowed_hosts v),
                 c_playbackinfo_max_bytes = v_playbackinfo_max_bytes v,
                 c_response_header_timeout =
                   (if 0 < v_response_header_timeout v then Some (nat (v_response_header_timeout v))
                    else None),
                 c_allowed_clients = allowed_clients,
                 c_trust_proxy_headers = v_trust_proxy_headers v, c_hide_client = v_hide_client v,
                 c_allowed_users = clean_strings (v_allowed_users v),
                 c_auth_state_file = trim (v_auth_state_file v),
                 c_stats_enable = v_stats_enable v, c_stats_addr = v_stats_addr v,
                 c_stats_file = v_stats_file v, c_logging = logging\<rparr>)))"

section \<open>Environment\<close>

definition env_non_empty :: "(string \<rightharpoonup> string) \<Rightarrow> string \<Rightarrow> string option" where
  "env_non_empty env name =
     (case env name of Some v \<Rightarrow> if trim v \<noteq> [] then Some (trim v) else None | None \<Rightarrow> None)"

definition env_boolean :: "(string \<rightharpoonup> string) \<Rightarrow> string \<Rightarrow> bool option" where
  "env_boolean env name = map_option parse_bool (env name)"

text \<open>A fallible field: absent, or parsed with the error passed on.\<close>

definition opt_res :: "'a option \<Rightarrow> ('a \<Rightarrow> ('e, 'b) res) \<Rightarrow> ('e, 'b option) res" where
  "opt_res v f = (case v of None \<Rightarrow> Inr None | Some v \<Rightarrow> bind_res (f v) (\<lambda>y. Inr (Some y)))"

definition env_raw :: "(string \<rightharpoonup> string) \<Rightarrow> (config_error, raw) res" where
  "env_raw env =
     bind_res (opt_res (env_non_empty env ''PROXEMBY_ROUTE'') parse_route_values) (\<lambda>routes.
     bind_res (opt_res (env_non_empty env ''PROXEMBY_PLAYBACKINFO_MAX_BYTES'')
                 (\<lambda>v. parse_positive_int v ''PROXEMBY_PLAYBACKINFO_MAX_BYTES'')) (\<lambda>max_bytes.
     bind_res (opt_res (env_non_empty env ''PROXEMBY_RESPONSE_HEADER_TIMEOUT'')
                 (\<lambda>v. parse_non_negative_int v ''PROXEMBY_RESPONSE_HEADER_TIMEOUT'')) (\<lambda>timeout.
     Inr \<lparr>raw_routes = routes,
          raw_http_addr = env_non_empty env ''PROXEMBY_HTTP_ADDR'',
          raw_tls_enable = env_boolean env ''PROXEMBY_TLS_ENABLE'',
          raw_tls_addr = env_non_empty env ''PROXEMBY_TLS_ADDR'',
          raw_acme_email = env_non_empty env ''PROXEMBY_ACME_EMAIL'',
          raw_acme_cache_dir = env_non_empty env ''PROXEMBY_ACME_CACHE_DIR'',
          raw_allowed_hosts = map_option split_csv (env_non_empty env ''PROXEMBY_ALLOWED_HOSTS''),
          raw_playbackinfo_max_bytes = max_bytes,
          raw_response_header_timeout = timeout,
          raw_allowed_clients = map_option split_csv (env_non_empty env ''PROXEMBY_ALLOWED_CLIENTS''),
          raw_trust_proxy_headers = env_boolean env ''PROXEMBY_TRUST_PROXY_HEADERS'',
          raw_hide_client = env_boolean env ''PROXEMBY_HIDE_CLIENT'',
          raw_allowed_users = map_option split_csv (env_non_empty env ''PROXEMBY_ALLOWED_USERS''),
          raw_auth_state_file = env_non_empty env ''PROXEMBY_AUTH_STATE_FILE'',
          raw_stats_enable = env_boolean env ''PROXEMBY_STATS_ENABLE'',
          raw_stats_addr = env ''PROXEMBY_STATS_ADDR'',
          raw_stats_file = env_non_empty env ''PROXEMBY_STATS_FILE'',
          raw_debug = env_boolean env ''PROXEMBY_DEBUG'',
          raw_log_level = env_non_empty env ''PROXEMBY_LOG_LEVEL'',
          raw_log_format = env_non_empty env ''PROXEMBY_LOG_FORMAT'',
          raw_log_time = env_boolean env ''PROXEMBY_LOG_TIME''\<rparr>)))"

definition apply_env :: "config_values \<Rightarrow> (string \<rightharpoonup> string) \<Rightarrow> (config_error, config_values) res" where
  "apply_env v env = bind_res (env_raw env) (\<lambda>r. Inr (apply_raw v r))"

section \<open>The TOML document\<close>

record toml_config =
  t_routes :: "route_values list option"
  t_server_http_addr :: "string option"
  t_tls_enable :: "bool option"
  t_tls_addr :: "string option"
  t_tls_acme_email :: "string option"
  t_tls_acme_cache_dir :: "string option"
  t_proxy_allowed_hosts :: "string list option"
  t_proxy_playbackinfo_max_bytes :: "int option"
  t_proxy_response_header_timeout :: "int option"
  t_proxy_hide_client :: "bool option"
  t_clients_allowed :: "string list option"
  t_clients_trust_proxy_headers :: "bool option"
  t_auth_allowed_users :: "string list option"
  t_auth_state_file :: "string option"
  t_stats_enable :: "bool option"
  t_stats_addr :: "string option"
  t_stats_file :: "string option"
  t_logging_debug :: "bool option"
  t_logging_level :: "string option"
  t_logging_format :: "string option"
  t_logging_time :: "bool option"

definition raw_from_toml :: "toml_config \<Rightarrow> raw" where
  "raw_from_toml t =
     \<lparr>raw_routes = t_routes t, raw_http_addr = t_server_http_addr t,
      raw_tls_enable = t_tls_enable t, raw_tls_addr = t_tls_addr t,
      raw_acme_email = t_tls_acme_email t, raw_acme_cache_dir = t_tls_acme_cache_dir t,
      raw_allowed_hosts = t_proxy_allowed_hosts t,
      raw_playbackinfo_max_bytes = t_proxy_playbackinfo_max_bytes t,
      raw_response_header_timeout = t_proxy_response_header_timeout t,
      raw_allowed_clients = t_clients_allowed t,
      raw_trust_proxy_headers = t_clients_trust_proxy_headers t,
      raw_hide_client = t_proxy_hide_client t, raw_allowed_users = t_auth_allowed_users t,
      raw_auth_state_file = t_auth_state_file t, raw_stats_enable = t_stats_enable t,
      raw_stats_addr = t_stats_addr t, raw_stats_file = t_stats_file t,
      raw_debug = t_logging_debug t, raw_log_level = t_logging_level t,
      raw_log_format = t_logging_format t, raw_log_time = t_logging_time t\<rparr>"

section \<open>Flags\<close>

datatype flag_kind = FStr | FBool | FInt

definition FLAGS :: "(string list \<times> string \<times> flag_kind) list" where
  "FLAGS =
     [([''c'', ''config''], ''config'', FStr),
      ([''route''], ''route'', FStr),
      ([''h'', ''http-addr''], ''http-addr'', FStr),
      ([''tls-enable''], ''tls-enable'', FBool),
      ([''tls-addr''], ''tls-addr'', FStr),
      ([''acme-email''], ''acme-email'', FStr),
      ([''acme-cache-dir''], ''acme-cache-dir'', FStr),
      ([''a'', ''allowed-hosts''], ''allowed-hosts'', FStr),
      ([''playbackinfo-max-bytes''], ''playbackinfo-max-bytes'', FInt),
      ([''allowed-clients''], ''allowed-clients'', FStr),
      ([''trust-proxy-headers''], ''trust-proxy-headers'', FBool),
      ([''hide-client''], ''hide-client'', FBool),
      ([''allowed-users''], ''allowed-users'', FStr),
      ([''auth-state-file''], ''auth-state-file'', FStr),
      ([''d'', ''debug''], ''debug'', FBool),
      ([''log-level''], ''log-level'', FStr),
      ([''log-format''], ''log-format'', FStr),
      ([''log-time''], ''log-time'', FBool),
      ([''response-header-timeout''], ''response-header-timeout'', FInt),
      ([''stats-enable''], ''stats-enable'', FBool),
      ([''stats-addr''], ''stats-addr'', FStr),
      ([''stats-file''], ''stats-file'', FStr),
      ([''help''], ''help'', FBool),
      ([''version''], ''version'', FBool)]"

definition parse_go_bool :: "string \<Rightarrow> bool option" where
  "parse_go_bool s =
     (if s \<in> set [''1'', ''t'', ''T'', ''TRUE'', ''true'', ''True''] then Some True
      else if s \<in> set [''0'', ''f'', ''F'', ''FALSE'', ''false'', ''False''] then Some False
      else None)"

text \<open>
  The flag name of an argument: \<open>None\<close> when the loop stops in front of it, \<open>Some None\<close>
  when it is the terminator \<^verbatim>\<open>--\<close>, which the loop consumes.
\<close>

definition flag_name :: "string \<Rightarrow> string option option" where
  "flag_name arg =
     (if length arg < 2 \<or> hd arg \<noteq> CHR ''-'' then None
      else case strip_prefix ''--'' arg of
        Some rest \<Rightarrow> if rest = [] then Some None else Some (Some rest)
      | None \<Rightarrow> Some (Some (tl arg)))"

text \<open>The value of a flag and the arguments left: inline, implied, or the next argument.\<close>

definition flag_value ::
  "flag_kind \<Rightarrow> string \<Rightarrow> string option \<Rightarrow> string list \<Rightarrow> (config_error, string \<times> string list) res" where
  "flag_value kind name inline args =
     (case (kind, inline) of
        (FBool, Some v) \<Rightarrow>
          if parse_go_bool v = None then Inl (BadFlagBool v name) else Inr (v, args)
      | (FBool, None) \<Rightarrow> Inr (''true'', args)
      | (_, Some v) \<Rightarrow> Inr (v, args)
      | (_, None) \<Rightarrow>
          (case args of [] \<Rightarrow> Inl (FlagNeedsValue name) | v # args \<Rightarrow> Inr (v, args)))"

text \<open>
  The loop over the arguments: the values by key, the routes in order, and the arguments
  left when it stops.
\<close>

type_synonym flag_state = "(string \<rightharpoonup> string) \<times> string list"

lemma flag_value_length: "flag_value k n i args = Inr (v, args') \<Longrightarrow> length args' \<le> length args"
  by (auto simp: flag_value_def split: flag_kind.splits option.splits list.splits if_splits)

function flags_loop ::
  "string list \<Rightarrow> flag_state \<Rightarrow> (config_error, flag_state \<times> string list) res" where
  "flags_loop [] st = Inr (st, [])"
| "flags_loop (arg # args) st =
     (case flag_name arg of
        None \<Rightarrow> Inr (st, arg # args)
      | Some None \<Rightarrow> Inr (st, args)
      | Some (Some name) \<Rightarrow>
          if name \<noteq> [] \<and> (hd name = CHR ''-'' \<or> hd name = CHR ''='') then Inl (BadFlagSyntax arg)
          else
            (let inline = map_option snd (split_once (CHR ''='') name);
                 name = before_first (CHR ''='') name in
             case find (\<lambda>(names, _, _). name \<in> set names) FLAGS of
               None \<Rightarrow> Inl (UnknownFlag name)
             | Some (_, key, kind) \<Rightarrow>
                 (case flag_value kind name inline args of
                    Inl e \<Rightarrow> Inl e
                  | Inr (v, args') \<Rightarrow>
                      if kind = FInt \<and> parse_i64 (trim v) = None then Inl (BadFlagInt v name)
                      else flags_loop args'
                        ((fst st)(key \<mapsto> v), if key = ''route'' then snd st @ [v] else snd st))))"
  by pat_completeness auto
termination
  by (relation "measure (length \<circ> fst)") (auto dest: flag_value_length)

declare flags_loop.simps(2) [simp del]

record cli =
  cli_raw :: raw
  cli_config_path :: "string option"
  cli_help :: bool
  cli_version :: bool

definition as_bool :: "string \<Rightarrow> bool" where
  "as_bool v = (case parse_go_bool v of Some b \<Rightarrow> b | None \<Rightarrow> False)"

definition flags_cli :: "flag_state \<Rightarrow> (config_error, cli) res" where
  "flags_cli st =
     (let (vals, routes) = st in
      bind_res (opt_res (vals ''route'') (\<lambda>_. parse_route_values (join '';'' routes))) (\<lambda>rts.
      Inr \<lparr>cli_raw =
             \<lparr>raw_routes = rts, raw_http_addr = vals ''http-addr'',
              raw_tls_enable = map_option as_bool (vals ''tls-enable''),
              raw_tls_addr = vals ''tls-addr'', raw_acme_email = vals ''acme-email'',
              raw_acme_cache_dir = vals ''acme-cache-dir'',
              raw_allowed_hosts = map_option split_csv (vals ''allowed-hosts''),
              raw_playbackinfo_max_bytes =
                Option.bind (vals ''playbackinfo-max-bytes'') (\<lambda>v. parse_i64 (trim v)),
              raw_response_header_timeout =
                Option.bind (vals ''response-header-timeout'') (\<lambda>v. parse_i64 (trim v)),
              raw_allowed_clients = map_option split_csv (vals ''allowed-clients''),
              raw_trust_proxy_headers = map_option as_bool (vals ''trust-proxy-headers''),
              raw_hide_client = map_option as_bool (vals ''hide-client''),
              raw_allowed_users = map_option split_csv (vals ''allowed-users''),
              raw_auth_state_file = vals ''auth-state-file'',
              raw_stats_enable = map_option as_bool (vals ''stats-enable''),
              raw_stats_addr = vals ''stats-addr'', raw_stats_file = vals ''stats-file'',
              raw_debug = map_option as_bool (vals ''debug''),
              raw_log_level = vals ''log-level'', raw_log_format = vals ''log-format'',
              raw_log_time = map_option as_bool (vals ''log-time'')\<rparr>,
           cli_config_path = vals ''config'',
           cli_help = (case vals ''help'' of Some v \<Rightarrow> as_bool v | None \<Rightarrow> False),
           cli_version = (case vals ''version'' of Some v \<Rightarrow> as_bool v | None \<Rightarrow> False)\<rparr>))"

definition extra_argument :: "string list \<Rightarrow> string option" where
  "extra_argument args =
     (case args of
        [] \<Rightarrow> None
      | extra # rest \<Rightarrow>
          if extra = ''--'' then (case rest of [] \<Rightarrow> None | e # _ \<Rightarrow> Some e) else Some extra)"

definition parse_flags :: "string list \<Rightarrow> (config_error, cli) res" where
  "parse_flags args =
     (if list_ex (\<lambda>a. a = ''-help'' \<or> prefix ''-help='' a) args then Inl UseHelp
      else
        bind_res (flags_loop args (Map.empty, [])) (\<lambda>(st, rest).
        case extra_argument rest of
          Some extra \<Rightarrow> Inl (ExtraArgument extra)
        | None \<Rightarrow> flags_cli st))"

section \<open>All sources\<close>

text \<open>\<^verbatim>\<open>env_map\<close> collects the pairs of an environment; of two with the same name the last counts.\<close>

definition env_map :: "(string \<times> string) list \<Rightarrow> (string \<rightharpoonup> string)" where
  "env_map env = map_of (rev env)"

definition from_env_map :: "(string \<rightharpoonup> string) \<Rightarrow> (config_error, config) res" where
  "from_env_map env = bind_res (apply_env values_default env) values_config"

definition from_sources_with_default ::
  "(string \<Rightarrow> (bool, toml_config) res) \<Rightarrow> string list \<Rightarrow> (string \<rightharpoonup> string) \<Rightarrow> string
   \<Rightarrow> (config_error, config) res" where
  "from_sources_with_default load args env default_path =
     bind_res (parse_flags args) (\<lambda>cli.
     if cli_help cli then Inl Help
     else if cli_version cli then Inl Version
     else
       (let explicit = cli_config_path cli \<noteq> None;
            path = (case cli_config_path cli of Some p \<Rightarrow> trim p | None \<Rightarrow> default_path) in
        bind_res
          (if path = [] then Inr values_default
           else case load path of
             Inr t \<Rightarrow> Inr (apply_raw values_default (raw_from_toml t))
           | Inl missing \<Rightarrow>
               if \<not> explicit \<and> missing then Inr values_default else Inl (LoadFailed path)) (\<lambda>v.
        bind_res (apply_env v env) (\<lambda>v.
        values_config (apply_raw v (cli_raw cli))))))"

definition from_sources ::
  "(string \<Rightarrow> (bool, toml_config) res) \<Rightarrow> string list \<Rightarrow> (string \<rightharpoonup> string) \<Rightarrow> (config_error, config) res"
  where
  "from_sources load args env = from_sources_with_default load args env DEFAULT_CONFIG_PATH"

section \<open>The usage text\<close>

definition USAGE_LINES :: "string list" where
  "USAGE_LINES =
     [''Usage:'',
      ''  proxemby [options]'',
      ''  proxemby stats [options]           Show traffic statistics of the running proxy'',
      [],
      ''Options:'',
      ''  -c, --config PATH                  Config file path (default /etc/proxemby/proxemby.toml)'',
      ''      --route ROUTE                  Route as upstream_url,public_url[,acme_domain]; may be repeated'',
      ''  -h, --http-addr ADDR               HTTP listen address'',
      ''  -a, --allowed-hosts HOSTS          Comma-separated resource proxy host allowlist'',
      ''  -d, --debug                        Enable debug logging (same as --log-level debug)'',
      ''      --tls-enable                   Enable built-in HTTPS with ACME'',
      ''      --tls-addr ADDR                HTTPS listen address'',
      ''      --acme-email EMAIL             ACME account email'',
      ''      --acme-cache-dir DIR           ACME certificate cache directory'',
      ''      --playbackinfo-max-bytes N     Maximum PlaybackInfo JSON body size'',
      ''      --response-header-timeout SECS Upstream response header timeout; 0 disables (default 60)'',
      ''      --allowed-clients CLIENTS      Comma-separated client IP/CIDR allowlist'',
      ''      --trust-proxy-headers          Trust X-Forwarded-For/X-Real-IP for client checks'',
      ''      --hide-client                  Hide client identity headers from upstream'',
      ''      --allowed-users USERS          Comma-separated upstream Emby usernames allowed to log in'',
      ''      --auth-state-file PATH         File used to persist login sessions'',
      ''      --stats-enable                 Count traffic per route and kind'',
      ''      --stats-addr ADDR              Admin listener for traffic statistics; empty disables (default 127.0.0.1:9180)'',
      ''      --stats-file PATH              File that keeps per-day traffic totals'',
      ''      --log-level LEVEL              Log level: debug, info, warn, or error'',
      ''      --log-format FORMAT            Log format: text or json'',
      ''      --log-time                     Include time in log output'',
      ''      --help                         Show this help'',
      ''      --version                      Show the version'']"

definition USAGE :: string where
  "USAGE = concat (map (\<lambda>line. line @ [CHR 0x0A]) USAGE_LINES)"

text \<open>
  What a line of options says: the names of a flag without their dashes, and whether the word
  after them, in capitals, is its argument.
\<close>

definition usage_words :: "string \<Rightarrow> string list" where
  "usage_words line = filter (\<lambda>w. w \<noteq> []) (split_on (CHR '' '') line)"

definition is_flag_word :: "string \<Rightarrow> bool" where
  "is_flag_word w \<longleftrightarrow> prefix ''-'' w"

definition usage_flag :: "string \<Rightarrow> string list \<times> bool" where
  "usage_flag line =
     (let words = usage_words line;
          rest = dropWhile is_flag_word words in
      (map (filter (\<lambda>c. c \<noteq> CHR '','') \<circ> dropWhile (\<lambda>c. c = CHR ''-'')) (takeWhile is_flag_word words),
       rest \<noteq> [] \<and> list_all (\<lambda>c. 65 \<le> byte c \<and> byte c \<le> 90) (hd rest)))"

text \<open>The option lines name exactly the flags that the parser knows, with all their names, and show
  an argument exactly for those that take one.\<close>

lemma usage_documents_flags:
  "set (map usage_flag (drop 5 USAGE_LINES)) = set (map (\<lambda>(names, _, kind). (names, kind \<noteq> FBool)) FLAGS)"
  by code_simp

section \<open>Checked routes\<close>

definition route_key_of :: "route \<Rightarrow> string" where
  "route_key_of r = to_ascii_lowercase (url_hostname (r_public_url r))"

definition url_ok :: "http_url \<Rightarrow> bool" where
  "url_ok u \<longleftrightarrow> u_scheme u \<in> {''http'', ''https''} \<and> u_host u \<noteq> []"

definition routes_ok :: "route list \<Rightarrow> string list \<Rightarrow> bool" where
  "routes_ok routes domains \<longleftrightarrow>
     distinct (map route_key_of routes) \<and> distinct domains
     \<and> set domains = set (map r_acme_domain routes)
     \<and> (\<forall>r\<in>set routes. url_ok (r_upstream_url r) \<and> url_ok (r_public_url r))"

lemma parse_required_url_ok: "parse_required_url s name = Inr u \<Longrightarrow> url_ok u"
  by (auto simp: parse_required_url_def url_ok_def Let_def split: if_splits sum.splits)

lemma parse_routes_loop_ok:
  assumes "parse_routes_loop i (map route_key_of routes) domains routes vs = Inr (routes', domains')"
    and "routes_ok routes domains"
  shows "routes_ok routes' domains' \<and> length routes' = length routes + length vs"
  using assms
proof (induction vs arbitrary: i routes domains)
  case (Cons v vs)
  let ?name = "''route '' @ show_nat (i + 1)"
  obtain up pub where
    u: "parse_required_url (rv_upstream_url v) (?name @ '' upstream URL'') = Inr up"
    and p: "parse_required_url (rv_public_url v) (?name @ '' public URL'') = Inr pub"
    using Cons.prems(1) by (auto simp: bind_res_Inr_iff Let_def)
  define host where "host = to_ascii_lowercase (url_hostname pub)"
  define acme where
    "acme = to_ascii_lowercase (if trim (rv_acme_domain v) = [] then host else trim (rv_acme_domain v))"
  have up: "url_ok up" and pub: "url_ok pub" using parse_required_url_ok u p by blast+
  have fresh: "host \<notin> set (map route_key_of routes)"
    using Cons.prems(1) u p by (auto simp: Let_def host_def split: if_splits)
  have step: "parse_routes_loop (i + 1) (map route_key_of routes @ [host])
        (if acme \<in> set domains then domains else domains @ [acme])
        (routes @ [\<lparr>r_upstream_url = up, r_public_url = pub, r_acme_domain = acme\<rparr>]) vs
        = Inr (routes', domains')"
    using Cons.prems(1) u p fresh unfolding parse_routes_loop.simps(2) Let_def
    by (simp only: bind_res_simps host_def [symmetric] acme_def [symmetric] if_False)
  let ?r = "\<lparr>r_upstream_url = up, r_public_url = pub, r_acme_domain = acme\<rparr>"
  have "routes_ok (routes @ [?r]) (if acme \<in> set domains then domains else domains @ [acme])"
    using Cons.prems(2) up pub fresh by (auto simp: routes_ok_def route_key_of_def host_def)
  moreover have "map route_key_of (routes @ [?r]) = map route_key_of routes @ [host]"
    by (simp add: route_key_of_def host_def)
  ultimately show ?case using Cons.IH [of "i + 1" "routes @ [?r]"] step by simp
qed simp

lemma parse_routes_ok:
  "parse_routes vs = Inr (routes, domains) \<Longrightarrow> routes_ok routes domains \<and> routes \<noteq> []"
  using parse_routes_loop_ok [of 0 "[]" "[]" vs routes domains]
  by (auto simp: parse_routes_def routes_ok_def split: if_splits)

definition clean :: "string list \<Rightarrow> bool" where
  "clean vs \<longleftrightarrow> (\<forall>v\<in>set vs. v \<noteq> [] \<and> trim v = v)"

lemma clean_strings_clean: "clean (clean_strings vs)"
  by (auto simp: clean_def clean_strings_def)

definition config_ok :: "config \<Rightarrow> bool" where
  "config_ok c \<longleftrightarrow>
     c_routes c \<noteq> [] \<and> routes_ok (c_routes c) (c_acme_domains c)
     \<and> 0 < c_playbackinfo_max_bytes c \<and> c_response_header_timeout c \<noteq> Some 0
     \<and> (\<forall>p\<in>set (c_allowed_clients c). prefix_wf p)
     \<and> clean (c_allowed_hosts c) \<and> clean (c_allowed_users c)"

lemma values_config_ok: "values_config v = Inr c \<Longrightarrow> config_ok c"
proof -
  assume "values_config v = Inr c"
  then obtain clients routes domains where
    b: "0 < v_playbackinfo_max_bytes v" "0 \<le> v_response_header_timeout v"
    and cl: "map_res parse_client (v_allowed_clients v) = Inr clients"
    and rt: "parse_routes (v_routes v) = Inr (routes, domains)"
    and c: "c_routes c = routes" "c_acme_domains c = domains" "c_allowed_clients c = clients"
      "c_playbackinfo_max_bytes c = v_playbackinfo_max_bytes v"
      "c_response_header_timeout c = (if 0 < v_response_header_timeout v
         then Some (nat (v_response_header_timeout v)) else None)"
      "c_allowed_hosts c = clean_strings (v_allowed_hosts v)"
      "c_allowed_users c = clean_strings (v_allowed_users v)"
    by (cases "map_res parse_client (v_allowed_clients v)"; cases "parse_routes (v_routes v)";
        cases "log_parse_config (v_log_level v) (v_log_format v) (v_log_time v)")
      (auto simp: values_config_def split: if_splits)
  have "prefix_wf p" if p: "p \<in> set clients" for p
  proof -
    obtain x where "parse_client x = Inr p" using map_res_Inr_set [OF cl p] by blast
    then have "prefix_parse x = Inr p"
      by (cases "prefix_parse x") (simp_all add: parse_client_def)
    then show ?thesis by (rule prefix_parse_wf)
  qed
  with b parse_routes_ok [OF rt] show ?thesis unfolding config_ok_def c
    by (auto simp: clean_strings_clean)
qed

lemma from_sources_values:
  assumes "from_sources_with_default load args env path = Inr c"
  shows "\<exists>v. values_config v = Inr c"
  using assms
  by (auto simp: from_sources_with_default_def bind_res_Inr_iff Let_def split: if_splits)

section \<open>Layers\<close>

text \<open>Two layers as one: the later wins, and a later debug switch hides an earlier level.\<close>

definition later :: "'a option \<Rightarrow> 'a option \<Rightarrow> 'a option" where
  "later a b = (case b of Some x \<Rightarrow> Some x | None \<Rightarrow> a)"

definition raw_over :: "raw \<Rightarrow> raw \<Rightarrow> raw" where
  "raw_over a b =
     \<lparr>raw_routes = later (raw_routes a) (raw_routes b),
      raw_http_addr = later (raw_http_addr a) (raw_http_addr b),
      raw_tls_enable = later (raw_tls_enable a) (raw_tls_enable b),
      raw_tls_addr = later (raw_tls_addr a) (raw_tls_addr b),
      raw_acme_email = later (raw_acme_email a) (raw_acme_email b),
      raw_acme_cache_dir = later (raw_acme_cache_dir a) (raw_acme_cache_dir b),
      raw_allowed_hosts = later (raw_allowed_hosts a) (raw_allowed_hosts b),
      raw_playbackinfo_max_bytes = later (raw_playbackinfo_max_bytes a) (raw_playbackinfo_max_bytes b),
      raw_response_header_timeout = later (raw_response_header_timeout a) (raw_response_header_timeout b),
      raw_allowed_clients = later (raw_allowed_clients a) (raw_allowed_clients b),
      raw_trust_proxy_headers = later (raw_trust_proxy_headers a) (raw_trust_proxy_headers b),
      raw_hide_client = later (raw_hide_client a) (raw_hide_client b),
      raw_allowed_users = later (raw_allowed_users a) (raw_allowed_users b),
      raw_auth_state_file = later (raw_auth_state_file a) (raw_auth_state_file b),
      raw_stats_enable = later (raw_stats_enable a) (raw_stats_enable b),
      raw_stats_addr = later (raw_stats_addr a) (raw_stats_addr b),
      raw_stats_file = later (raw_stats_file a) (raw_stats_file b),
      raw_debug = later (raw_debug a) (raw_debug b),
      raw_log_level = (if raw_debug b \<noteq> None then raw_log_level b
                       else later (raw_log_level a) (raw_log_level b)),
      raw_log_format = later (raw_log_format a) (raw_log_format b),
      raw_log_time = later (raw_log_time a) (raw_log_time b)\<rparr>"

lemma override_later: "override b f (override a f v) = override (later a b) f v"
  by (cases b) (simp_all add: override_def later_def)

lemma override_level:
  "override lb t (override db g (override la t (override da g v)))
   = override (if db \<noteq> None then lb else later la lb) t (override (later da db) g v)"
  by (cases lb; cases db; simp add: override_def later_def)

lemma later_assoc: "later (later a b) c = later a (later b c)"
  by (cases c) (simp_all add: later_def)

lemma later_level:
  "(if dc \<noteq> None then lc else later (if db \<noteq> None then lb else later la lb) lc)
   = (if later db dc \<noteq> None then (if dc \<noteq> None then lc else later lb lc)
      else later la (if dc \<noteq> None then lc else later lb lc))"
  by (cases dc; cases lc; cases db) (simp_all add: later_def)

lemma raw_over_assoc: "raw_over (raw_over a b) c = raw_over a (raw_over b c)"
  by (simp only: raw_over_def raw.simps later_assoc later_level)

lemma apply_raw_over: "apply_raw (apply_raw v a) b = apply_raw v (raw_over a b)"
  by (simp add: apply_raw_def raw_over_def override_later override_level)

section \<open>Properties\<close>

text \<open>
  C22: Every accepted configuration is well formed. When the sources are accepted, there is
  at least one route, every upstream and public URL is http or https with a host, no two
  routes have the same public host name (ignoring case), the ACME domains are exactly the
  domains of the routes without repetition, the body limit is positive, a timeout is not
  zero, every allowed client is a network with its host bits cleared, and the allowed hosts
  and users are trimmed and not empty.
\<close>

theorem config_well_formed:
  assumes "from_sources load args env = Inr c"
  shows "config_ok c"
  using assms from_sources_values values_config_ok unfolding from_sources_def by blast

definition load_sample :: "string \<Rightarrow> (bool, toml_config) res" where
  "load_sample _ = Inr
     \<lparr>t_routes = None, t_server_http_addr = Some ''  '', t_tls_enable = Some True, t_tls_addr = None,
      t_tls_acme_email = None, t_tls_acme_cache_dir = None, t_proxy_allowed_hosts = None,
      t_proxy_playbackinfo_max_bytes = Some 5, t_proxy_response_header_timeout = Some 0,
      t_proxy_hide_client = None, t_clients_allowed = Some [''  ''],
      t_clients_trust_proxy_headers = None, t_auth_allowed_users = Some ['' ann '', []],
      t_auth_state_file = None, t_stats_enable = None, t_stats_addr = None, t_stats_file = None,
      t_logging_debug = None, t_logging_level = None, t_logging_format = None,
      t_logging_time = None\<rparr>"

definition env_sample :: "string \<rightharpoonup> string" where
  "env_sample = [''PROXEMBY_ROUTE'' \<mapsto> ''http://u,https://p.io'', ''PROXEMBY_HIDE_CLIENT'' \<mapsto> ''yes'']"

definition args_sample :: "string list" where
  "args_sample = [''--hide-client=false'', ''-a'', ''h1,h2'']"

theorem config_well_formed_witness:
  "\<exists>c. from_sources load_sample args_sample env_sample = Inr c \<and> config_ok c
     \<and> c_allowed_hosts c = [''h1'', ''h2'']"
proof -
  have "\<not> isl (from_sources load_sample args_sample env_sample)"
    "c_allowed_hosts (projr (from_sources load_sample args_sample env_sample)) = [''h1'', ''h2'']"
    by code_simp+
  then obtain c where "from_sources load_sample args_sample env_sample = Inr c"
    "c_allowed_hosts c = [''h1'', ''h2'']"
    by (cases "from_sources load_sample args_sample env_sample") auto
  with config_well_formed show ?thesis by blast
qed



end
