(* ===== verification/Route_Proxy.thy ===== *)
theory Route_Proxy
  imports Http_Headers Auth_Gate Rewrite Config
begin

text \<open>
  \<^verbatim>\<open>src/src/server/route.rs\<close>: the handlers of one route. A handler runs up to the request
  it sends to another server and goes on when that server has answered; the two halves are
  \<open>handle_begin\<close> and \<open>handle_finish\<close>, and \<open>handle\<close> is a request served without another one
  in between. Log output is not modelled.
\<close>

section \<open>Data\<close>

text \<open>
  Further crate functions: \<open>json_str\<close> is \<^verbatim>\<open>serde_json::to_string\<close> on a string, \<open>gunzip\<close>
  reads at most so many bytes from a gzip decoder, \<open>parse_json\<close> is
  \<^verbatim>\<open>serde_json::from_slice\<close> (objects have distinct keys), and \<open>unicode_lower\<close> is
  \<^verbatim>\<open>str::to_lowercase\<close>.
\<close>

record route_crate = auth_crate +
  json_str :: "string \<Rightarrow> string"
  gunzip :: "nat \<Rightarrow> bytes \<Rightarrow> bytes option"
  parse_json :: "bytes \<Rightarrow> json option"
  unicode_lower :: "string \<Rightarrow> string"

definition RESOURCE_PREFIX :: string where
  "RESOURCE_PREFIX = ''/_proxy/''"

definition IDENTITY_HEADERS :: "string list" where
  "IDENTITY_HEADERS =
     [''forwarded'', ''via'', ''x-forwarded-for'', ''x-forwarded-host'', ''x-forwarded-proto'',
      ''x-forwarded-protocol'', ''x-forwarded-ssl'', ''x-real-ip'']"

text \<open>
  What is fixed for a route. \<open>rp_auth\<close> says whether there is a session store, and
  \<open>rp_stats\<close> whether traffic is counted.
\<close>

record route_proxy =
  rp_cfg :: config
  rp_route :: route
  rp_upstream_display :: string
  rp_route_key :: string
  rp_rewriter :: rewriter
  rp_auth :: bool
  rp_allowed_users :: "string list"
  rp_stats :: bool
  rp_debug :: bool

text \<open>What the handlers share and change: registry, session store, disk.\<close>

record proxy_state =
  ps_registry :: registry
  ps_store :: store
  ps_files :: files

definition route_proxy_new ::
  "'x route_crate_scheme \<Rightarrow> config \<Rightarrow> route \<Rightarrow> store option \<Rightarrow> bool \<Rightarrow> bool \<Rightarrow> route_proxy" where
  "route_proxy_new X cfg rt auth stats debug =
     (let route_key = to_ascii_lowercase (url_hostname (r_public_url rt));
          rewriter = rewriter_new (r_public_url rt);
          rewriter = (case auth of
              None \<Rightarrow> rewriter
            | Some store \<Rightarrow> with_signer rewriter (\<lambda>scheme host. store_sign X store [route_key, scheme, host])) in
      \<lparr>rp_cfg = cfg, rp_route = rt, rp_upstream_display = url_display (r_upstream_url rt),
       rp_route_key = route_key, rp_rewriter = rewriter, rp_auth = (auth \<noteq> None),
       rp_allowed_users = map (unicode_lower X) (c_allowed_users cfg),
       rp_stats = stats, rp_debug = debug\<rparr>)"

definition route_registry :: "config \<Rightarrow> registry" where
  "route_registry cfg = registry_new (c_allowed_hosts cfg)"

record outbound =
  ob_method :: string
  ob_target :: string
  ob_headers :: header_map
  ob_body :: proxy_body
  ob_http1 :: bool

record upstream_response =
  us_status :: nat
  us_headers :: header_map
  us_frames :: "frame list"

datatype upstream_result = NoHeadersInTime | SendError | Answer upstream_response

datatype body_error = TooLarge | ReadError

section \<open>Helpers\<close>

definition split_first_segment :: "string \<Rightarrow> string \<times> string option" where
  "split_first_segment path =
     (case split_once (CHR ''/'') path of
        Some (first, rest) \<Rightarrow> (first, Some rest) | None \<Rightarrow> (path, None))"

definition is_http_scheme :: "string \<Rightarrow> bool" where
  "is_http_scheme scheme \<longleftrightarrow> scheme = ''http'' \<or> scheme = ''https''"

definition is_playback_info_path :: "string \<Rightarrow> bool" where
  "is_playback_info_path path =
     list_ex (\<lambda>part. eq_ignore_ascii_case part ''PlaybackInfo'') (split_on (CHR ''/'') path)"

definition is_json_content_type :: "'x http_crate_scheme \<Rightarrow> header_map \<Rightarrow> bool" where
  "is_json_content_type X headers =
     (case header_str X headers ''content-type'' of
        Some ct \<Rightarrow> (let ct = to_ascii_lowercase ct in
                    contains_str ''application/json'' ct \<or> contains_str ''+json'' ct)
      | None \<Rightarrow> False)"

definition set_full_body :: "header_map \<Rightarrow> nat \<Rightarrow> header_map" where
  "set_full_body headers len =
     header_remove (header_insert headers ''content-length'' (show_nat len)) ''content-encoding''"

definition join_path :: "string \<Rightarrow> string \<Rightarrow> string" where
  "join_path base path =
     (let ends = (base \<noteq> [] \<and> last base = CHR ''/''); starts = (path \<noteq> [] \<and> hd path = CHR ''/'') in
      if ends \<and> starts then base @ tl path
      else if \<not> ends \<and> \<not> starts then base @ ''/'' @ path
      else base @ path)"

definition join_query :: "string \<Rightarrow> string \<Rightarrow> string" where
  "join_query base query =
     (if base = [] then query else if query = [] then base else base @ ''&'' @ query)"

definition target_for_log :: "route_proxy \<Rightarrow> string \<Rightarrow> string" where
  "target_for_log rp path =
     (case strip_prefix RESOURCE_PREFIX path of
        None \<Rightarrow> ''upstream:'' @ rp_upstream_display rp
      | Some rest \<Rightarrow>
          (let split = split_once (CHR ''/'') rest;
               split = (case split of
                   Some (scheme, remainder) \<Rightarrow>
                     if \<not> is_http_scheme scheme then split_once (CHR ''/'') remainder else split
                 | None \<Rightarrow> None) in
           case Option.bind split (\<lambda>(scheme, remainder).
                  map_option (\<lambda>(host, _). (scheme, host)) (split_once (CHR ''/'') remainder)) of
             Some (scheme, host) \<Rightarrow> ''resource:'' @ scheme @ ''://'' @ host
           | None \<Rightarrow> ''resource:invalid''))"

definition filter_client ::
  "'x route_crate_scheme \<Rightarrow> route_proxy \<Rightarrow> request \<Rightarrow> conn_info \<Rightarrow> response option" where
  "filter_client X rp req conn =
     (let (addr, _) = client_addr X (rq_headers req) conn (c_trust_proxy_headers (rp_cfg rp)) in
      if is_allowed (c_allowed_clients (rp_cfg rp)) addr then None
      else Some (text_response 403 ''client IP is not allowed''))"

definition request_body :: "route_proxy \<Rightarrow> request \<Rightarrow> proxy_body" where
  "request_body rp req =
     (if rp_stats rp \<and> \<not> rq_ended req
      then Metered (rq_frames req) (meter_request (classify (rq_path req)))
      else Incoming (rq_frames req))"

section \<open>Requests to the upstream server\<close>

text \<open>What \<^verbatim>\<open>proxy_upstream\<close> keeps while it waits.\<close>

record waiting_upstream =
  wu_path :: string
  wu_login :: bool
  wu_buffer :: bool
  wu_out_path :: string
  wu_upgrade :: "bytes option"

definition forwarded_headers ::
  "'x route_crate_scheme \<Rightarrow> route_proxy \<Rightarrow> request \<Rightarrow> conn_info \<Rightarrow> bool \<Rightarrow> header_map" where
  "forwarded_headers X rp req conn buffer =
     (let headers = prepare_outbound_headers X (rq_headers req) (upgrade_type X (rq_headers req));
          put = (\<lambda>headers name v. case hv_from_str X v of
                    Some v \<Rightarrow> header_insert headers name v | None \<Rightarrow> headers);
          headers =
            (if c_hide_client (rp_cfg rp) then header_remove_all headers IDENTITY_HEADERS
             else header_insert
               (put (put headers ''x-forwarded-for'' (show_ip (remote_ip conn)))
                  ''x-forwarded-host'' (request_host X req))
               ''x-forwarded-proto'' (if conn_tls conn then ''https'' else ''http'')) in
      if buffer then header_remove headers ''accept-encoding'' else headers)"

definition upstream_target :: "route_proxy \<Rightarrow> request \<Rightarrow> string" where
  "upstream_target rp req =
     (let upstream = r_upstream_url (rp_route rp);
          query = join_query (u_query upstream)
                    (case rq_query req of Some q \<Rightarrow> q | None \<Rightarrow> []) in
      u_scheme upstream @ ''://'' @ u_host upstream @ join_path (u_path upstream) (rq_path req)
      @ (if query \<noteq> [] then ''?'' @ query else []))"

definition upstream_begin ::
  "'x route_crate_scheme \<Rightarrow> route_proxy \<Rightarrow> request \<Rightarrow> conn_info
   \<Rightarrow> (response, outbound \<times> waiting_upstream) res" where
  "upstream_begin X rp req conn =
     (let in_path = rq_path req;
          login = (rp_auth rp \<and> is_login_path in_path);
          buffer = (login \<or> is_playback_info_path in_path);
          target = upstream_target rp req in
      case uri_path_of X target of
        None \<Rightarrow> Inl (empty_response 502)
      | Some out_path \<Rightarrow>
          (let upgrade = upgrade_type X (rq_headers req) in
           Inr (\<lparr>ob_method = rq_method req, ob_target = target,
                 ob_headers = forwarded_headers X rp req conn buffer,
                 ob_body = request_body rp req, ob_http1 = (upgrade \<noteq> None)\<rparr>,
                \<lparr>wu_path = in_path, wu_login = login, wu_buffer = buffer,
                 wu_out_path = out_path, wu_upgrade = upgrade\<rparr>)))"

definition send_upstream :: "upstream_result \<Rightarrow> (nat, upstream_response) res" where
  "send_upstream r =
     (case r of NoHeadersInTime \<Rightarrow> Inl 504 | SendError \<Rightarrow> Inl 502 | Answer resp \<Rightarrow> Inr resp)"

text \<open>The loop of \<^verbatim>\<open>read_body\<close> with its limit.\<close>

fun read_frames :: "nat \<Rightarrow> bytes \<Rightarrow> frame list \<Rightarrow> (body_error, bytes) res" where
  "read_frames limit buf [] = Inr buf"
| "read_frames limit buf (f # fs) =
     (case f of
        Failed \<Rightarrow> Inl ReadError
      | Trailers \<Rightarrow> read_frames limit buf fs
      | Data d \<Rightarrow> if limit < length buf + length d then Inl TooLarge
                 else read_frames limit (buf @ d) fs)"

definition body_limit :: "config \<Rightarrow> nat" where
  "body_limit cfg = nat (max (c_playbackinfo_max_bytes cfg) 1)"

definition read_body ::
  "'x route_crate_scheme \<Rightarrow> config \<Rightarrow> frame list \<Rightarrow> header_map \<Rightarrow> (body_error, bytes) res" where
  "read_body X cfg frames headers =
     (let limit = body_limit cfg in
      bind_res (read_frames limit [] frames) (\<lambda>buf.
      let gzip = (case header_get headers ''content-encoding'' of
                    Some v \<Rightarrow> eq_ignore_ascii_case v ''gzip'' | None \<Rightarrow> False) in
      if \<not> gzip then Inr buf
      else case gunzip X (limit + 1) buf of
        None \<Rightarrow> Inl ReadError
      | Some decoded \<Rightarrow> if limit < length decoded then Inl TooLarge else Inr decoded))"

definition route_rewrite_playback_info ::
  "'x route_crate_scheme \<Rightarrow> route_proxy \<Rightarrow> proxy_state \<Rightarrow> upstream_response \<Rightarrow> response \<times> proxy_state" where
  "route_rewrite_playback_info X rp st resp =
     (case read_body X (rp_cfg rp) (us_frames resp) (us_headers resp) of
        Inl _ \<Rightarrow> (empty_response 502, st)
      | Inr body \<Rightarrow>
          (let (rewritten, _, reg) =
                 rewrite_playback_info (json_str X) (rp_rewriter rp) (ps_registry st) body;
               body = (case rewritten of Some b \<Rightarrow> b | None \<Rightarrow> body) in
           (\<lparr>rs_status = us_status resp,
             rs_headers = set_full_body (us_headers resp) (length body),
             rs_body = body_full body\<rparr>, st\<lparr>ps_registry := reg\<rparr>)))"

text \<open>Work left to a spawned task: revoking a token, or an upgraded connection.\<close>

datatype spawned = Logout outbound | Tunnel

definition handle_upgrade_response ::
  "'x route_crate_scheme \<Rightarrow> upstream_response \<Rightarrow> bytes option \<Rightarrow> response \<times> spawned list" where
  "handle_upgrade_response X resp request_upgrade =
     (case request_upgrade of
        None \<Rightarrow> (empty_response 502, [])
      | Some requested \<Rightarrow>
          (case upgrade_type X (us_headers resp) of
             Some r \<Rightarrow>
               if eq_ignore_ascii_case r requested
               then (\<lparr>rs_status = us_status resp, rs_headers = us_headers resp, rs_body = Empty\<rparr>, [Tunnel])
               else (empty_response 502, [])
           | None \<Rightarrow> (empty_response 502, [])))"

text \<open>What the counters get when a tunnel ends; nothing when copying failed.\<close>

definition tunnel_done :: "route_proxy \<Rightarrow> (64 word \<times> 64 word) option \<Rightarrow> effect list" where
  "tunnel_done rp copied =
     (case copied of
        Some (sent, received) \<Rightarrow>
          if rp_stats rp then [Count Api (BytesIn sent), Count Api (BytesOut received)] else []
      | None \<Rightarrow> [])"

section \<open>Logins\<close>

definition json_get :: "string \<Rightarrow> json \<Rightarrow> json option" where
  "json_get key j = (case j of JObj kvs \<Rightarrow> map_of kvs key | _ \<Rightarrow> None)"

definition json_as_str :: "json option \<Rightarrow> string" where
  "json_as_str j = (case j of Some (JStr s) \<Rightarrow> s | _ \<Rightarrow> [])"

definition logout_request :: "'x route_crate_scheme \<Rightarrow> route_proxy \<Rightarrow> string \<Rightarrow> string \<Rightarrow> outbound option" where
  "logout_request X rp login_path token =
     (let segs = split_on (CHR ''/'') login_path;
          after = takeWhile (\<lambda>s. \<not> eq_ignore_ascii_case s ''users'') (rev segs);
          pre = (if list_ex (\<lambda>s. eq_ignore_ascii_case s ''users'') segs
                 then join ''/'' (take (length segs - length after - 1) segs)
                 else login_path);
          upstream = r_upstream_url (rp_route rp);
          target = u_scheme upstream @ ''://'' @ u_host upstream @ pre @ ''/Sessions/Logout'' in
      case uri_path_of X target of
        None \<Rightarrow> None
      | Some _ \<Rightarrow>
          Some \<lparr>ob_method = ''POST'', ob_target = target,
                ob_headers = (case hv_from_str X token of
                    Some v \<Rightarrow> header_insert no_headers ''x-emby-token'' v | None \<Rightarrow> no_headers),
                ob_body = Empty, ob_http1 = False\<rparr>)"

text \<open>\<open>now\<close> is the formatted time, \<open>io\<close> the system calls of saving the store.\<close>

definition handle_login_response ::
  "'x route_crate_scheme \<Rightarrow> route_proxy \<Rightarrow> write_io \<Rightarrow> string \<Rightarrow> proxy_state \<Rightarrow> upstream_response \<Rightarrow> string
   \<Rightarrow> response \<times> proxy_state \<times> spawned list" where
  "handle_login_response X rp io now st resp out_path =
     (if us_status resp \<noteq> 200 then
        (\<lparr>rs_status = us_status resp, rs_headers = us_headers resp, rs_body = Incoming (us_frames resp)\<rparr>,
         st, [])
      else
        (case read_body X (rp_cfg rp) (us_frames resp) (us_headers resp) of
           Inl _ \<Rightarrow> (empty_response 502, st, [])
         | Inr body \<Rightarrow>
             (let json = (case parse_json X body of Some j \<Rightarrow> j | None \<Rightarrow> JNull);
                  token = json_as_str (json_get ''AccessToken'' json);
                  user = json_get ''User'' json;
                  user_name = json_as_str (Option.bind user (json_get ''Name''));
                  user_id = json_as_str (Option.bind user (json_get ''Id'')) in
              if token \<noteq> [] \<and> unicode_lower X user_name \<in> set (rp_allowed_users rp) then
                (case store_add X io (ps_store st) token
                        (session_new now (rp_route_key rp) user_id user_name) (ps_files st) of
                   (Inl _, store, fs) \<Rightarrow>
                     (empty_response 502, st\<lparr>ps_store := store, ps_files := fs\<rparr>, [])
                 | (Inr _, store, fs) \<Rightarrow>
                     (\<lparr>rs_status = us_status resp,
                       rs_headers = set_full_body (us_headers resp) (length body),
                       rs_body = body_full body\<rparr>,
                      st\<lparr>ps_store := store, ps_files := fs\<rparr>, []))
              else
                (text_response 401 ''user is not allowed'', st,
                 if token \<noteq> [] then
                   (case logout_request X rp out_path token of Some r \<Rightarrow> [Logout r] | None \<Rightarrow> [])
                 else []))))"

definition upstream_finish ::
  "'x route_crate_scheme \<Rightarrow> route_proxy \<Rightarrow> write_io \<Rightarrow> string \<Rightarrow> proxy_state \<Rightarrow> waiting_upstream
   \<Rightarrow> upstream_result \<Rightarrow> response \<times> proxy_state \<times> spawned list" where
  "upstream_finish X rp io now st w r =
     (case send_upstream r of
        Inl status \<Rightarrow> (empty_response status, st, [])
      | Inr resp \<Rightarrow>
          if us_status resp = 101 then
            (let (resp, tasks) = handle_upgrade_response X resp (wu_upgrade w) in (resp, st, tasks))
          else
            (let resp = resp\<lparr>us_headers := remove_hop_by_hop X (us_headers resp)\<rparr> in
             if wu_login w then handle_login_response X rp io now st resp (wu_out_path w)
             else if wu_buffer w \<and> is_json_content_type X (us_headers resp) then
               (let (resp, st) = route_rewrite_playback_info X rp st resp in (resp, st, []))
             else
               (\<lparr>rs_status = us_status resp, rs_headers = us_headers resp,
                 rs_body = Incoming (us_frames resp)\<rparr>, st, [])))"

section \<open>Resource requests\<close>

text \<open>
  The path of a resource request: the first segment, then scheme, host and rest, or the
  answer that rejects it.
\<close>

definition resource_parts ::
  "bool \<Rightarrow> string \<Rightarrow> (response, string \<times> string \<times> string \<times> string) res" where
  "resource_parts auth path =
     (let rest = drop (length RESOURCE_PREFIX) path;
          (first, remainder) = split_first_segment rest;
          (scheme, remainder) =
            (if auth \<and> \<not> is_http_scheme first then
               (case remainder of Some rest \<Rightarrow> split_first_segment rest | None \<Rightarrow> (first, remainder))
             else (first, remainder)) in
      case remainder of
        Some remainder \<Rightarrow>
          if is_http_scheme scheme then
            (case split_once (CHR ''/'') remainder of
               Some (host, rest) \<Rightarrow>
                 if host \<noteq> [] then Inr (first, scheme, host, rest)
                 else Inl (text_response 400 ''missing proxied resource host'')
             | None \<Rightarrow> Inl (text_response 400 ''missing proxied resource host''))
          else Inl (text_response 400 ''missing or invalid proxied resource scheme'')
      | None \<Rightarrow> Inl (text_response 400 ''missing or invalid proxied resource scheme''))"

definition resource_authorized ::
  "'x route_crate_scheme \<Rightarrow> route_proxy \<Rightarrow> store \<Rightarrow> request \<Rightarrow> string \<Rightarrow> string \<Rightarrow> string \<Rightarrow> bool" where
  "resource_authorized X rp store req first scheme host =
     (if is_http_scheme first then
        (let token = (case request_token X (rq_headers req) (rq_query req) of Some t \<Rightarrow> t | None \<Rightarrow> []) in
         store_is_valid store token (rp_route_key rp))
      else store_verify X store first [rp_route_key rp, scheme, host])"

definition resource_begin ::
  "'x route_crate_scheme \<Rightarrow> route_proxy \<Rightarrow> proxy_state \<Rightarrow> request \<Rightarrow> (response, outbound) res" where
  "resource_begin X rp st req =
     bind_res (resource_parts (rp_auth rp) (rq_path req)) (\<lambda>(first, scheme, host, rest).
     if rp_auth rp \<and> \<not> resource_authorized X rp (ps_store st) req first scheme host then
       Inl (text_response 403 ''proxied resource is not authorized'')
     else if registry_lookup (ps_registry st) host = None then
       Inl (text_response 403 ''proxied resource host is not allowed'')
     else
       (let target = scheme @ ''://'' @ host @ ''/'' @ rest
              @ (case rq_query req of Some q \<Rightarrow> ''?'' @ q | None \<Rightarrow> []) in
        case uri_path_of X target of
          None \<Rightarrow> Inl (text_response 400 ''invalid proxied resource URL'')
        | Some _ \<Rightarrow>
            Inr \<lparr>ob_method = rq_method req, ob_target = target,
                 ob_headers = prepare_outbound_headers X (rq_headers req) None,
                 ob_body = request_body rp req, ob_http1 = False\<rparr>))"

definition resource_finish :: "'x route_crate_scheme \<Rightarrow> upstream_result \<Rightarrow> response" where
  "resource_finish X r =
     (case send_upstream r of
        Inl status \<Rightarrow> empty_response status
      | Inr resp \<Rightarrow>
          \<lparr>rs_status = us_status resp, rs_headers = remove_hop_by_hop X (us_headers resp),
           rs_body = Incoming (us_frames resp)\<rparr>)"

section \<open>The whole handler\<close>

text \<open>
  Where a handler waits; \<open>WaitUpstream\<close> with the token to remove after a logout. A response
  given at once carries that token too, as the session is also removed when the request to
  the upstream server cannot be formed.
\<close>

datatype waiting = WaitResource | WaitUpstream waiting_upstream "string option"

type_synonym early = "response \<times> string option"

definition begin_upstream ::
  "'x route_crate_scheme \<Rightarrow> route_proxy \<Rightarrow> request \<Rightarrow> conn_info \<Rightarrow> string option
   \<Rightarrow> (early, outbound \<times> waiting) res" where
  "begin_upstream X rp req conn token =
     (case upstream_begin X rp req conn of
        Inl resp \<Rightarrow> Inl (resp, token)
      | Inr (out, w) \<Rightarrow> Inr (out, WaitUpstream w token))"

definition begin_resource ::
  "'x route_crate_scheme \<Rightarrow> route_proxy \<Rightarrow> proxy_state \<Rightarrow> request \<Rightarrow> (early, outbound \<times> waiting) res" where
  "begin_resource X rp st req =
     (case resource_begin X rp st req of
        Inl resp \<Rightarrow> Inl (resp, None)
      | Inr out \<Rightarrow> Inr (out, WaitResource))"

definition route_request ::
  "'x route_crate_scheme \<Rightarrow> route_proxy \<Rightarrow> proxy_state \<Rightarrow> request \<Rightarrow> conn_info
   \<Rightarrow> (early, outbound \<times> waiting) res" where
  "route_request X rp st req conn =
     (if prefix RESOURCE_PREFIX (rq_path req) then begin_resource X rp st req
      else begin_upstream X rp req conn None)"

definition empty_user_list :: response where
  "empty_user_list =
     \<lparr>rs_status = 200, rs_headers = header_insert no_headers ''content-type'' ''application/json'',
      rs_body = body_full ''[]''\<rparr>"

definition handle_with_auth ::
  "'x route_crate_scheme \<Rightarrow> route_proxy \<Rightarrow> proxy_state \<Rightarrow> request \<Rightarrow> conn_info
   \<Rightarrow> (early, outbound \<times> waiting) res" where
  "handle_with_auth X rp st req conn =
     (if prefix RESOURCE_PREFIX (rq_path req) then begin_resource X rp st req
      else
        (let segments = emby_path_segments (rq_path req) in
         if match_segments segments [''users'', ''public''] then Inl (empty_user_list, None)
         else if is_public_emby_path (rq_method req) segments then begin_upstream X rp req conn None
         else
           (case request_token X (rq_headers req) (rq_query req) of
              Some token \<Rightarrow>
                if store_is_valid (ps_store st) token (rp_route_key rp) then
                  begin_upstream X rp req conn
                    (if match_segments segments [''sessions'', ''logout''] then Some token else None)
                else Inl (text_response 401 ''unauthorized'', None)
            | None \<Rightarrow> Inl (text_response 401 ''unauthorized'', None))))"

definition handle_checked ::
  "'x route_crate_scheme \<Rightarrow> route_proxy \<Rightarrow> proxy_state \<Rightarrow> request \<Rightarrow> conn_info
   \<Rightarrow> (early, outbound \<times> waiting) res" where
  "handle_checked X rp st req conn =
     (case (if c_allowed_clients (rp_cfg rp) \<noteq> [] then filter_client X rp req conn else None) of
        Some resp \<Rightarrow> Inl (resp, None)
      | None \<Rightarrow>
          if rp_auth rp then handle_with_auth X rp st req conn
          else route_request X rp st req conn)"

text \<open>\<^verbatim>\<open>meter_response\<close> of the route and the byte count of the debug log.\<close>

definition route_meter_response :: "route_proxy \<Rightarrow> kind \<Rightarrow> proxy_body \<Rightarrow> proxy_body \<times> effect list" where
  "route_meter_response rp k b =
     (if \<not> rp_stats rp then (b, [])
      else case b of
        Incoming fs \<Rightarrow> (let (m, effs) = meter_response k in (Metered fs m, effs))
      | Full (Some data) \<Rightarrow> (Full (Some data), [Count k (BytesOut (of_nat (length data)))])
      | other \<Rightarrow> (other, []))"

definition respond :: "route_proxy \<Rightarrow> string \<Rightarrow> response \<Rightarrow> response \<times> effect list" where
  "respond rp path resp =
     (let (b, effs) = route_meter_response rp (classify path) (rs_body resp);
          b = (if rp_debug rp then body_counted b else b) in
      (resp\<lparr>rs_body := b\<rparr>, effs))"

text \<open>\<^verbatim>\<open>store.remove\<close> after a logout; a failure to save is only logged.\<close>

definition logout_session ::
  "'x route_crate_scheme \<Rightarrow> write_io \<Rightarrow> string option \<Rightarrow> proxy_state \<Rightarrow> proxy_state" where
  "logout_session X io token st =
     (case token of
        None \<Rightarrow> st
      | Some token \<Rightarrow>
          (let (_, store, fs) = store_remove X io (ps_store st) token (ps_files st) in
           st\<lparr>ps_store := store, ps_files := fs\<rparr>))"

text \<open>
  The first half: the new state, the effects on the counters, and either the response or
  the request to send and what is waited for.
\<close>

definition handle_begin ::
  "'x route_crate_scheme \<Rightarrow> route_proxy \<Rightarrow> write_io \<Rightarrow> proxy_state \<Rightarrow> request \<Rightarrow> conn_info
   \<Rightarrow> (response, outbound \<times> waiting) res \<times> proxy_state \<times> effect list" where
  "handle_begin X rp io st req conn =
     (let counted = (if rp_stats rp then [Count (classify (rq_path req)) Request] else []) in
      case handle_checked X rp st req conn of
        Inl (resp, token) \<Rightarrow>
          (let (resp, effs) = respond rp (rq_path req) resp in
           (Inl resp, logout_session X io token st, counted @ effs))
      | Inr out \<Rightarrow> (Inr out, st, counted))"

text \<open>The second half; \<open>io\<close> and \<open>now\<close> serve the login, \<open>io'\<close> the removal after a logout.\<close>

definition handle_finish ::
  "'x route_crate_scheme \<Rightarrow> route_proxy \<Rightarrow> write_io \<Rightarrow> write_io \<Rightarrow> string \<Rightarrow> proxy_state \<Rightarrow> string \<Rightarrow> waiting
   \<Rightarrow> upstream_result \<Rightarrow> response \<times> proxy_state \<times> spawned list \<times> effect list" where
  "handle_finish X rp io io' now st path w r =
     (let (resp, st, tasks) =
            (case w of
               WaitResource \<Rightarrow> (resource_finish X r, st, [])
             | WaitUpstream w token \<Rightarrow>
                 (let (resp, st, tasks) = upstream_finish X rp io now st w r in
                  (resp, logout_session X io' token st, tasks)));
          (resp, effs) = respond rp path resp in
      (resp, st, tasks, effs))"

text \<open>A request served alone, with the answer of the other server as a function.\<close>

definition handle ::
  "'x route_crate_scheme \<Rightarrow> route_proxy \<Rightarrow> write_io \<Rightarrow> write_io \<Rightarrow> string \<Rightarrow> (outbound \<Rightarrow> upstream_result)
   \<Rightarrow> proxy_state \<Rightarrow> request \<Rightarrow> conn_info \<Rightarrow> response \<times> proxy_state \<times> spawned list \<times> effect list" where
  "handle X rp io io' now net st req conn =
     (case handle_begin X rp io' st req conn of
        (Inl resp, st, effs) \<Rightarrow> (resp, st, [], effs)
      | (Inr (out, w), st, effs) \<Rightarrow>
          (let (resp, st, tasks, effs') = handle_finish X rp io io' now st (rq_path req) w (net out) in
           (resp, st, tasks, effs @ effs')))"

end
