(* ===== verification/Route_Safety.thy ===== *)
theory Route_Safety
  imports Route_Proxy
begin

text \<open>
  What the handlers of a route let through: the exact set of requests that reach another
  server, where they go and with which headers, and what a login or a logout does to the
  sessions.
\<close>

section \<open>Resource paths\<close>

definition resource_path :: "string option \<Rightarrow> string \<Rightarrow> string \<Rightarrow> string \<Rightarrow> string" where
  "resource_path sig scheme host rest =
     RESOURCE_PREFIX @ (case sig of Some s \<Rightarrow> s @ ''/'' | None \<Rightarrow> []) @ scheme @ ''/'' @ host @ ''/'' @ rest"

definition resource_path_ok :: "bool \<Rightarrow> string option \<Rightarrow> string \<Rightarrow> string \<Rightarrow> bool" where
  "resource_path_ok auth sig scheme host \<longleftrightarrow>
     is_http_scheme scheme \<and> host \<noteq> [] \<and> CHR ''/'' \<notin> set host
     \<and> (case sig of None \<Rightarrow> True | Some s \<Rightarrow> auth \<and> \<not> is_http_scheme s \<and> CHR ''/'' \<notin> set s)"

lemma http_scheme_no_slash: "is_http_scheme s \<Longrightarrow> CHR ''/'' \<notin> set s"
  by (auto simp: is_http_scheme_def)

lemma split_first_append [simp]:
  "CHR ''/'' \<notin> set a \<Longrightarrow> split_first_segment (a @ CHR ''/'' # b) = (a, Some b)"
  by (simp add: split_first_segment_def)

lemma split_first_Some:
  "split_first_segment s = (a, Some b) \<longleftrightarrow> s = a @ CHR ''/'' # b \<and> CHR ''/'' \<notin> set a"
proof -
  have "split_first_segment s = (a, Some b) \<longleftrightarrow> split_once (CHR ''/'') s = Some (a, b)"
    by (auto simp: split_first_segment_def split: option.splits)
  then show ?thesis by (simp add: split_once_Some)
qed

lemma resource_parts_path:
  assumes "resource_path_ok auth sig scheme host"
  shows "resource_parts auth (resource_path sig scheme host rest)
    = Inr (case sig of Some s \<Rightarrow> s | None \<Rightarrow> scheme, scheme, host, rest)"
  using assms http_scheme_no_slash [of scheme]
  by (auto simp: resource_parts_def resource_path_def resource_path_ok_def Let_def
      split: option.splits)

text \<open>The paths that are read as a resource are exactly those.\<close>

lemma resource_parts_Inr:
  assumes "resource_parts auth path = Inr (first, scheme, host, rest)" "prefix RESOURCE_PREFIX path"
  shows "\<exists>sig. path = resource_path sig scheme host rest \<and> resource_path_ok auth sig scheme host
    \<and> first = (case sig of Some s \<Rightarrow> s | None \<Rightarrow> scheme)"
proof -
  let ?r = "drop (length RESOURCE_PREFIX) path"
  have p: "path = RESOURCE_PREFIX @ ?r" using prefix_drop_eq [OF assms(2)] by simp
  obtain f rem where f: "split_first_segment ?r = (f, rem)" by fastforce
  show ?thesis
  proof (cases "auth \<and> \<not> is_http_scheme f \<and> rem \<noteq> None")
    case True
    then obtain r' s rem' where r': "rem = Some r'" "split_first_segment r' = (s, rem')" by fastforce
    from assms(1) True f r' obtain m where m: "rem' = Some m" "is_http_scheme s"
        "split_once (CHR ''/'') m = Some (host, rest)" "host \<noteq> []" "first = f" "scheme = s"
      by (auto simp: resource_parts_def Let_def split: option.splits if_splits)
    from f r' m have "?r = f @ CHR ''/'' # s @ CHR ''/'' # host @ CHR ''/'' # rest"
      "CHR ''/'' \<notin> set f" "CHR ''/'' \<notin> set host"
      by (auto simp: split_first_Some split_once_Some)
    with p m True show ?thesis
      by (intro exI [of _ "Some f"]) (simp add: resource_path_def resource_path_ok_def)
  next
    case False
    with assms(1) f obtain m where m: "rem = Some m" "is_http_scheme f"
        "split_once (CHR ''/'') m = Some (host, rest)" "host \<noteq> []" "first = f" "scheme = f"
      by (auto simp: resource_parts_def Let_def split: option.splits if_splits)
    from f m have "?r = f @ CHR ''/'' # host @ CHR ''/'' # rest" "CHR ''/'' \<notin> set host"
      by (auto simp: split_first_Some split_once_Some)
    with p m show ?thesis
      by (intro exI [of _ None]) (simp add: resource_path_def resource_path_ok_def)
  qed
qed

section \<open>Who may use a resource\<close>

definition holds_token :: "'x route_crate_scheme \<Rightarrow> route_proxy \<Rightarrow> store \<Rightarrow> request \<Rightarrow> bool" where
  "holds_token X rp store req \<longleftrightarrow>
     (case request_token X (rq_headers req) (rq_query req) of
        Some token \<Rightarrow> store_is_valid store token (rp_route_key rp) | None \<Rightarrow> False)"

definition may_use_resource ::
  "'x route_crate_scheme \<Rightarrow> route_proxy \<Rightarrow> store \<Rightarrow> request \<Rightarrow> string option \<Rightarrow> string \<Rightarrow> string \<Rightarrow> bool" where
  "may_use_resource X rp store req sig scheme host \<longleftrightarrow>
     (rp_auth rp \<longrightarrow>
       (case sig of
          None \<Rightarrow> holds_token X rp store req
        | Some s \<Rightarrow> store_verify X store s [rp_route_key rp, scheme, host]))"

lemma resource_authorized_iff:
  assumes "resource_path_ok auth sig scheme host"
  shows "resource_authorized X rp store req (case sig of Some s \<Rightarrow> s | None \<Rightarrow> scheme) scheme host
    \<longleftrightarrow> (case sig of None \<Rightarrow> holds_token X rp store req
        | Some s \<Rightarrow> store_verify X store s [rp_route_key rp, scheme, host])"
  using assms
  by (auto simp: resource_authorized_def resource_path_ok_def holds_token_def Let_def
      store_is_valid_def split: option.splits)

definition resource_target :: "request \<Rightarrow> string \<Rightarrow> string \<Rightarrow> string \<Rightarrow> string" where
  "resource_target req scheme host rest =
     scheme @ ''://'' @ host @ ''/'' @ rest @ (case rq_query req of Some q \<Rightarrow> ''?'' @ q | None \<Rightarrow> [])"

definition resource_outbound ::
  "'x route_crate_scheme \<Rightarrow> route_proxy \<Rightarrow> request \<Rightarrow> string \<Rightarrow> string \<Rightarrow> string \<Rightarrow> outbound" where
  "resource_outbound X rp req scheme host rest =
     \<lparr>ob_method = rq_method req, ob_target = resource_target req scheme host rest,
      ob_headers = prepare_outbound_headers X (rq_headers req) None,
      ob_body = request_body rp req, ob_http1 = False\<rparr>"

definition resource_granted ::
  "'x route_crate_scheme \<Rightarrow> route_proxy \<Rightarrow> proxy_state \<Rightarrow> request
   \<Rightarrow> string option \<Rightarrow> string \<Rightarrow> string \<Rightarrow> string \<Rightarrow> bool" where
  "resource_granted X rp st req sig scheme host rest \<longleftrightarrow>
     rq_path req = resource_path sig scheme host rest
     \<and> resource_path_ok (rp_auth rp) sig scheme host
     \<and> may_use_resource X rp (ps_store st) req sig scheme host
     \<and> registry_lookup (ps_registry st) host \<noteq> None
     \<and> uri_path_of X (resource_target req scheme host rest) \<noteq> None"

lemma resource_begin_granted:
  assumes "resource_granted X rp st req sig scheme host rest"
  shows "resource_begin X rp st req = Inr (resource_outbound X rp req scheme host rest)"
  using assms resource_authorized_iff [of "rp_auth rp" sig scheme host X rp "ps_store st" req]
  by (auto simp: resource_begin_def resource_granted_def resource_parts_path may_use_resource_def
      resource_outbound_def resource_target_def Let_def split: option.splits)

lemma resource_begin_Inr:
  assumes "resource_begin X rp st req = Inr out" "prefix RESOURCE_PREFIX (rq_path req)"
  shows "\<exists>sig scheme host rest. resource_granted X rp st req sig scheme host rest"
proof -
  from assms(1) obtain first scheme host rest where
    p: "resource_parts (rp_auth rp) (rq_path req) = Inr (first, scheme, host, rest)"
    by (auto simp: resource_begin_def bind_res_Inr_iff)
  from resource_parts_Inr [OF this assms(2)] obtain sig where
    s: "rq_path req = resource_path sig scheme host rest"
      "resource_path_ok (rp_auth rp) sig scheme host"
      "first = (case sig of Some s \<Rightarrow> s | None \<Rightarrow> scheme)"
    by blast
  have "resource_granted X rp st req sig scheme host rest"
    using assms(1) p s resource_authorized_iff [OF s(2), of X rp "ps_store st" req]
    by (auto simp: resource_begin_def resource_granted_def may_use_resource_def
        resource_target_def Let_def split: if_splits option.splits)
  then show ?thesis by blast
qed

text \<open>
  C5: The resource endpoint is exact. A request under \<^verbatim>\<open>/_proxy/\<close> is sent on if and only if
  its path is an optional signature (only with the allowed-users check on), a scheme, a host
  and a rest; the signature verifies for this route, scheme and host, or, when there is none
  and the check is on, the request carries a token valid on this route; the host is in the
  registry; and the target is a URI. What is sent is exactly the request for
  \<^verbatim>\<open>scheme://host/rest?query\<close> with the outbound headers. Nothing else leaves the proxy here.
\<close>

theorem resource_endpoint_exact:
  assumes "prefix RESOURCE_PREFIX (rq_path req)"
  shows "resource_begin X rp st req = Inr out \<longleftrightarrow>
    (\<exists>sig scheme host rest. resource_granted X rp st req sig scheme host rest
       \<and> out = resource_outbound X rp req scheme host rest)"
proof
  assume a: "resource_begin X rp st req = Inr out"
  from resource_begin_Inr [OF a assms] obtain sig scheme host rest where
    g: "resource_granted X rp st req sig scheme host rest" by blast
  with resource_begin_granted [OF g] a
  show "\<exists>sig scheme host rest. resource_granted X rp st req sig scheme host rest
       \<and> out = resource_outbound X rp req scheme host rest" by auto
qed (use resource_begin_granted in blast)

section \<open>The gate\<close>

definition client_passes :: "'x route_crate_scheme \<Rightarrow> route_proxy \<Rightarrow> request \<Rightarrow> conn_info \<Rightarrow> bool" where
  "client_passes X rp req conn \<longleftrightarrow>
     c_allowed_clients (rp_cfg rp) = []
     \<or> is_allowed (c_allowed_clients (rp_cfg rp))
          (fst (client_addr X (rq_headers req) conn (c_trust_proxy_headers (rp_cfg rp))))"

definition is_public :: "request \<Rightarrow> bool" where
  "is_public req \<longleftrightarrow> is_public_emby_path (rq_method req) (emby_path_segments (rq_path req))"

definition asks_user_list :: "request \<Rightarrow> bool" where
  "asks_user_list req \<longleftrightarrow> match_segments (emby_path_segments (rq_path req)) [''users'', ''public'']"

lemma filter_client_None:
  "(if c_allowed_clients (rp_cfg rp) \<noteq> [] then filter_client X rp req conn else None) = None
   \<longleftrightarrow> client_passes X rp req conn"
  by (auto simp: filter_client_def client_passes_def split: prod.splits)

lemma handle_checked_passes:
  "client_passes X rp req conn \<Longrightarrow> handle_checked X rp st req conn =
     (if rp_auth rp then handle_with_auth X rp st req conn else route_request X rp st req conn)"
  using filter_client_None [of rp X req conn] by (auto simp: handle_checked_def split: if_splits)

lemma handle_checked_refused:
  "\<not> client_passes X rp req conn \<Longrightarrow>
   handle_checked X rp st req conn = Inl (text_response 403 ''client IP is not allowed'', None)"
  by (auto simp: handle_checked_def client_passes_def filter_client_def split: prod.splits)

lemma begin_upstream_Inr:
  "begin_upstream X rp req conn token = Inr (out, w) \<longleftrightarrow>
   (\<exists>wu. upstream_begin X rp req conn = Inr (out, wu) \<and> w = WaitUpstream wu token)"
  by (auto simp: begin_upstream_def split: sum.splits prod.splits)

lemma upstream_begin_Inr:
  "(\<exists>wu. upstream_begin X rp req conn = Inr (out, wu)) \<longleftrightarrow>
   uri_path_of X (upstream_target rp req) \<noteq> None
   \<and> out = \<lparr>ob_method = rq_method req, ob_target = upstream_target rp req,
        ob_headers = forwarded_headers X rp req conn
          (rp_auth rp \<and> is_login_path (rq_path req) \<or> is_playback_info_path (rq_path req)),
        ob_body = request_body rp req, ob_http1 = (upgrade_type X (rq_headers req) \<noteq> None)\<rparr>"
  by (auto simp: upstream_begin_def Let_def split: option.splits)

definition upstream_ready :: "'x route_crate_scheme \<Rightarrow> route_proxy \<Rightarrow> request \<Rightarrow> bool" where
  "upstream_ready X rp req \<longleftrightarrow> uri_path_of X (upstream_target rp req) \<noteq> None"

lemma begin_upstream_sends:
  "(\<exists>out w. begin_upstream X rp req conn token = Inr (out, w)) \<longleftrightarrow> upstream_ready X rp req"
  using upstream_begin_Inr [of X rp req conn] by (fastforce simp: begin_upstream_Inr upstream_ready_def)

lemma begin_resource_sends:
  "prefix RESOURCE_PREFIX (rq_path req) \<Longrightarrow>
   (\<exists>out w. begin_resource X rp st req = Inr (out, w)) \<longleftrightarrow>
   (\<exists>sig scheme host rest. resource_granted X rp st req sig scheme host rest)"
  using resource_begin_Inr [of X rp st req] resource_begin_granted [of X rp st req]
  by (fastforce simp: begin_resource_def split: sum.splits)

definition gate_open ::
  "'x route_crate_scheme \<Rightarrow> route_proxy \<Rightarrow> proxy_state \<Rightarrow> request \<Rightarrow> bool" where
  "gate_open X rp st req \<longleftrightarrow>
     (if prefix RESOURCE_PREFIX (rq_path req)
      then \<exists>sig scheme host rest. resource_granted X rp st req sig scheme host rest
      else upstream_ready X rp req
        \<and> (rp_auth rp \<longrightarrow> \<not> asks_user_list req \<and> (is_public req \<or> holds_token X rp (ps_store st) req)))"

lemma handle_with_auth_upstream:
  assumes "\<not> prefix RESOURCE_PREFIX (rq_path req)"
  shows "(\<exists>out w. handle_with_auth X rp st req conn = Inr (out, w)) \<longleftrightarrow>
    upstream_ready X rp req \<and> \<not> asks_user_list req
    \<and> (is_public req \<or> holds_token X rp (ps_store st) req)"
proof -
  let ?s = "emby_path_segments (rq_path req)"
  show ?thesis
  proof (cases "asks_user_list req \<or> is_public req")
    case True
    then show ?thesis
      using assms begin_upstream_sends [of X rp req conn None]
      by (auto simp: handle_with_auth_def Let_def asks_user_list_def is_public_def)
  next
    case False
    then show ?thesis
      using assms begin_upstream_sends [of X rp req conn
          "if match_segments ?s [''sessions'', ''logout''] then request_token X (rq_headers req) (rq_query req) else None"]
      by (auto simp: handle_with_auth_def Let_def asks_user_list_def is_public_def holds_token_def
          split: option.splits if_splits)
  qed
qed

lemma handle_checked_sends:
  "(\<exists>out w. handle_checked X rp st req conn = Inr (out, w)) \<longleftrightarrow>
   client_passes X rp req conn \<and> gate_open X rp st req"
proof (cases "client_passes X rp req conn")
  case True
  then show ?thesis
    using handle_with_auth_upstream [of req X rp st conn] begin_upstream_sends [of X rp req conn None]
      begin_resource_sends [of req X rp st]
    by (auto simp: handle_checked_passes gate_open_def route_request_def handle_with_auth_def)
qed (simp add: handle_checked_refused)

lemma handle_begin_sends:
  "handle_begin X rp io st req conn = (Inr ow, st', effs) \<longleftrightarrow>
   handle_checked X rp st req conn = Inr ow \<and> st' = st
   \<and> effs = (if rp_stats rp then [Count (classify (rq_path req)) Request] else [])"
  by (auto simp: handle_begin_def Let_def split: sum.splits prod.splits)

text \<open>
  C1: The gate is exact. A request is sent on to another server if and only if its client
  passes the address filter and: under \<^verbatim>\<open>/_proxy/\<close> it is granted as a resource; elsewhere its
  target is a URI and, when the allowed-users check is on, it does not ask for the user list
  and is a pre-login path or carries a token whose session belongs to this route. While it
  waits, neither the sessions nor the registry nor a file have changed.
\<close>

theorem gate_exact:
  "(\<exists>out w st' effs. handle_begin X rp io st req conn = (Inr (out, w), st', effs) \<and> st' = st)
   = (client_passes X rp req conn \<and> gate_open X rp st req)"
  using handle_checked_sends [of X rp st req conn] by (auto simp: handle_begin_sends)

section \<open>Buffered bodies\<close>

definition frame_data :: "frame \<Rightarrow> bytes" where
  "frame_data f = (case f of Data d \<Rightarrow> d | _ \<Rightarrow> [])"

lemma read_frames_iff:
  "length buf \<le> limit \<Longrightarrow> read_frames limit buf frames = Inr body \<longleftrightarrow>
   Failed \<notin> set frames \<and> body = buf @ concat (map frame_data frames) \<and> length body \<le> limit"
proof (induction frames arbitrary: buf)
  case (Cons f fs)
  then show ?case by (cases f) (auto simp: frame_data_def)
qed auto

lemma read_body_plain:
  assumes "header_get headers ''content-encoding'' = None"
  shows "read_body X cfg frames headers = Inr body \<longleftrightarrow>
    Failed \<notin> set frames \<and> body = concat (map frame_data frames) \<and> length body \<le> body_limit cfg"
  using assms read_frames_iff [of "[]" "body_limit cfg" frames body]
  by (auto simp: read_body_def Let_def bind_res_def split: sum.splits)

lemma read_body_limit: "read_body X cfg frames headers = Inr body \<Longrightarrow> length body \<le> body_limit cfg"
  using read_frames_iff [of "[]" "body_limit cfg" frames]
  by (auto simp: read_body_def Let_def bind_res_Inr_iff split: if_splits option.splits)

lemma body_limit_pos: "1 \<le> body_limit cfg"
  by (simp add: body_limit_def)

text \<open>
  C25: What is kept in memory of an upstream body is bounded by the configured limit, and
  within it nothing is lost. Without a content encoding the body is read if and only if no
  frame failed and the data is within the limit, and then it is the data of all frames; a
  decoded body is within the limit too, and the limit is at least one byte.
\<close>

theorem buffered_body_exact:
  "(header_get headers ''content-encoding'' = None \<longrightarrow>
      (read_body X cfg frames headers = Inr body \<longleftrightarrow>
       Failed \<notin> set frames \<and> body = concat (map frame_data frames) \<and> length body \<le> body_limit cfg))
   \<and> (read_body X cfg frames headers = Inr body \<longrightarrow> length body \<le> body_limit cfg)
   \<and> 1 \<le> body_limit cfg"
  using read_body_plain [of headers X cfg frames body] read_body_limit [of X cfg frames headers body]
    body_limit_pos [of cfg] by simp

section \<open>Logins\<close>

definition login_grants ::
  "'x route_crate_scheme \<Rightarrow> route_proxy \<Rightarrow> upstream_response \<Rightarrow> bytes \<Rightarrow> string \<Rightarrow> string \<Rightarrow> bool" where
  "login_grants X rp resp body token user \<longleftrightarrow>
     us_status resp = 200 \<and> read_body X (rp_cfg rp) (us_frames resp) (us_headers resp) = Inr body
     \<and> (\<exists>json. parse_json X body = Some json
          \<and> json_get ''AccessToken'' json = Some (JStr token) \<and> token \<noteq> []
          \<and> user = json_as_str (Option.bind (json_get ''User'' json) (json_get ''Name'')))
     \<and> unicode_lower X user \<in> set (rp_allowed_users rp)"

lemma json_as_str_ne: "json_as_str j \<noteq> [] \<Longrightarrow> j = Some (JStr (json_as_str j))"
  by (cases j; cases "the j") (auto simp: json_as_str_def)

text \<open>The three outcomes of a login that was answered: passed on, failed, decided.\<close>

lemma login_response_cases:
  assumes "handle_login_response X rp io now st resp p = (r, st', tasks)"
  obtains
    (kept) "st' = st" "\<And>body token user. \<not> login_grants X rp resp body token user"
      "us_status resp \<noteq> 200 \<and> rs_status r = us_status resp \<or> rs_status r \<in> {401, 502}"
  | (granted) body token user uid res fs where
      "login_grants X rp resp body token user"
      "store_add X io (ps_store st) token (session_new now (rp_route_key rp) uid user) (ps_files st)
         = (res, ps_store st', fs)"
      "ps_registry st' = ps_registry st" "tasks = []"
      "if isl res then r = empty_response 502
       else rs_status r = 200 \<and> rs_body r = body_full body"
proof (cases "us_status resp = 200")
  case False
  with assms kept show thesis by (auto simp: handle_login_response_def login_grants_def)
next
  case True
  show thesis
  proof (cases "read_body X (rp_cfg rp) (us_frames resp) (us_headers resp)")
    case (Inl e)
    with assms True kept show thesis
      by (auto simp: handle_login_response_def login_grants_def empty_response_def)
  next
    case (Inr body)
    let ?j = "case parse_json X body of Some j \<Rightarrow> j | None \<Rightarrow> JNull"
    let ?t = "json_as_str (json_get ''AccessToken'' ?j)"
    let ?u = "json_as_str (Option.bind (json_get ''User'' ?j) (json_get ''Name''))"
    let ?uid = "json_as_str (Option.bind (json_get ''User'' ?j) (json_get ''Id''))"
    show thesis
    proof (cases "?t \<noteq> [] \<and> unicode_lower X ?u \<in> set (rp_allowed_users rp)")
      case ok: True
      obtain res s fs where add: "store_add X io (ps_store st) ?t
          (session_new now (rp_route_key rp) ?uid ?u) (ps_files st) = (res, s, fs)"
        by (metis surj_pair)
      from ok have "parse_json X body = Some ?j"
        by (auto simp: json_as_str_def json_get_def split: option.splits)
      with ok True Inr have "login_grants X rp resp body ?t ?u"
        using json_as_str_ne [of "json_get ''AccessToken'' ?j"] by (auto simp: login_grants_def)
      moreover have "st' = st\<lparr>ps_store := s, ps_files := fs\<rparr>" "tasks = []"
        "if isl res then r = empty_response 502 else rs_status r = 200 \<and> rs_body r = body_full body"
        using assms True Inr ok add by (auto simp: handle_login_response_def Let_def split: sum.splits)
      ultimately show thesis using add by (intro granted [of body ?t ?u ?uid res fs]) auto
    next
      case refused: False
      then have "\<not> login_grants X rp resp b token user" for b token user
        using Inr by (auto simp: login_grants_def json_as_str_def)
      moreover have "st' = st" "rs_status r = 401"
        using assms True Inr refused
        by (auto simp: handle_login_response_def Let_def text_response_def)
      ultimately show thesis by (intro kept) auto
    qed
  qed
qed

lemma store_add_is_valid:
  assumes "store_add X io s t sess fs = (res, s', fs')"
  shows "store_is_valid s' t' k \<longleftrightarrow>
    (if t' = t \<and> t \<noteq> [] then s_route sess = k else store_is_valid s t' k)"
  using assms by (auto simp: store_add_def store_is_valid_def Let_def split: if_splits prod.splits)

text \<open>
  C7: Only an allowed user gets in. After a login was answered, a token is valid that was not
  before only if it is for this route and the upstream server's 200 answer holds that access
  token for a user on the list; no other state change happens at all. When the client gets
  status 200 for an answer with status 200, the body is that answer and its token is valid.
\<close>

theorem login_needs_allowed_user:
  assumes "handle_login_response X rp io now st resp p = (r, st', tasks)"
  shows "(store_is_valid (ps_store st') t k \<longrightarrow> store_is_valid (ps_store st) t k \<or>
        k = rp_route_key rp \<and> (\<exists>body user. login_grants X rp resp body t user))
    \<and> (us_status resp = 200 \<and> rs_status r = 200 \<longrightarrow>
        (\<exists>body token user. login_grants X rp resp body token user \<and> rs_body r = body_full body
           \<and> store_is_valid (ps_store st') token (rp_route_key rp)))
    \<and> ((\<nexists>body token user. login_grants X rp resp body token user) \<longrightarrow> st' = st)"
  using assms
proof (cases rule: login_response_cases)
  case (granted body token user uid res fs)
  have v: "store_is_valid (ps_store st') t' k' \<longleftrightarrow>
      (if t' = token then rp_route_key rp = k' else store_is_valid (ps_store st) t' k')" for t' k'
    using store_add_is_valid [OF granted(2)] granted(1) by (auto simp: login_grants_def session_new_def)
  have "\<not> isl res" if "rs_status r = 200"
    using granted(5) that by (auto simp: empty_response_def split: if_splits)
  moreover have "rs_body r = body_full body" if "\<not> isl res" using granted(5) that by simp
  moreover have "store_is_valid (ps_store st') token (rp_route_key rp)" using v by simp
  moreover have "t = token \<and> k = rp_route_key rp \<or> store_is_valid (ps_store st) t k"
    if "store_is_valid (ps_store st') t k" using that v [of t k] by (auto split: if_splits)
  ultimately show ?thesis using granted(1) by blast
qed auto

text \<open>
  A login of a user who is not on the list is undone: the token is sent to the upstream
  server's logout.
\<close>

lemma refused_login_logs_out:
  assumes "us_status resp = 200" "read_body X (rp_cfg rp) (us_frames resp) (us_headers resp) = Inr body"
    and "parse_json X body = Some json" "json_get ''AccessToken'' json = Some (JStr token)" "token \<noteq> []"
    and "unicode_lower X (json_as_str (Option.bind (json_get ''User'' json) (json_get ''Name'')))
      \<notin> set (rp_allowed_users rp)"
    and "logout_request X rp p token = Some out"
  shows "handle_login_response X rp io now st resp p
    = (text_response 401 ''user is not allowed'', st, [Logout out])"
  using assms by (simp add: handle_login_response_def json_as_str_def)

section \<open>Logouts\<close>

lemma logout_session_is_valid:
  "store_is_valid (ps_store (logout_session X io tok st)) t k \<longleftrightarrow>
   tok \<noteq> Some t \<and> store_is_valid (ps_store st) t k"
  by (auto simp: logout_session_def store_remove_def store_is_valid_def Let_def
      split: option.splits prod.splits if_splits)

definition is_logout :: "request \<Rightarrow> bool" where
  "is_logout req \<longleftrightarrow> match_segments (emby_path_segments (rq_path req)) [''sessions'', ''logout'']"

lemma logout_segments: "is_logout req \<Longrightarrow> emby_path_segments (rq_path req) = [''sessions'', ''logout'']"
  by (cases "emby_path_segments (rq_path req)" rule: remdups_adj.cases)
    (auto simp: is_logout_def match_segments_def)

lemma logout_not_public: "is_logout req \<Longrightarrow> \<not> asks_user_list req \<and> \<not> is_public req"
  by (drule logout_segments)
    (simp add: asks_user_list_def is_public_def is_public_emby_path_def public_segments_def)

lemma handle_checked_logout:
  assumes "rp_auth rp" "client_passes X rp req conn" "\<not> prefix RESOURCE_PREFIX (rq_path req)"
    and "is_logout req" "request_token X (rq_headers req) (rq_query req) = Some t"
    and "store_is_valid (ps_store st) t (rp_route_key rp)"
  shows "handle_checked X rp st req conn = begin_upstream X rp req conn (Some t)"
  using assms logout_not_public [OF assms(4)]
  by (simp add: handle_checked_passes handle_with_auth_def Let_def asks_user_list_def is_public_def
      is_logout_def)

text \<open>
  C9: A logout always revokes. When a client sends its valid token to the logout path, the
  token is not valid on any route afterwards, whatever the upstream server answers or fails to
  answer, whether the request could be formed, and whether the state file could be written.
\<close>

theorem logout_revokes:
  assumes "rp_auth rp" "client_passes X rp req conn" "\<not> prefix RESOURCE_PREFIX (rq_path req)"
    and "is_logout req" "request_token X (rq_headers req) (rq_query req) = Some t"
    and "store_is_valid (ps_store st) t (rp_route_key rp)"
    and "handle X rp io io' now net st req conn = (resp, st', tasks, effs)"
  shows "\<not> store_is_valid (ps_store st') t k"
proof -
  note h = handle_checked_logout [OF assms(1-6)]
  show ?thesis
  proof (cases "upstream_begin X rp req conn")
    case (Inl e)
    with h assms(7) show ?thesis
      by (auto simp: handle_def handle_begin_def begin_upstream_def Let_def logout_session_is_valid
          split: prod.splits)
  next
    case (Inr ow)
    with h assms(7) show ?thesis
      by (auto simp: handle_def handle_begin_def handle_finish_def begin_upstream_def Let_def
          logout_session_is_valid split: prod.splits)
  qed
qed

section \<open>Headers\<close>

text \<open>
  C26: The upstream server learns of the client what the proxy says and nothing else. With
  \<^verbatim>\<open>hide_client\<close> none of the identity headers is sent; without it the forwarded address,
  host and protocol are those of this connection, whatever the client put into them.
\<close>

theorem identity_headers_exact:
  "if c_hide_client (rp_cfg rp)
   then \<forall>n\<in>set IDENTITY_HEADERS. forwarded_headers X rp req conn buffer n = []
   else forwarded_headers X rp req conn buffer ''x-forwarded-for''
          = (case hv_from_str X (show_ip (remote_ip conn)) of Some v \<Rightarrow> [v] | None \<Rightarrow> [])
     \<and> forwarded_headers X rp req conn buffer ''x-forwarded-host''
          = (case hv_from_str X (request_host X req) of Some v \<Rightarrow> [v] | None \<Rightarrow> [])
     \<and> forwarded_headers X rp req conn buffer ''x-forwarded-proto''
          = [if conn_tls conn then ''https'' else ''http'']
     \<and> forwarded_headers X rp req conn buffer ''forwarded'' = []"
  by (auto simp: forwarded_headers_def Let_def prepare_outbound_headers_def FORWARDING_def
      IDENTITY_HEADERS_def split: option.splits)

text \<open>
  C37: A signature is good for a whole host. Once a signed resource URL works, the same
  signature works for every other path and query on that host and scheme, for every client;
  the README says that the endpoint serves only the URLs that were handed out.
\<close>

theorem signature_covers_host:
  assumes "resource_granted X rp st req (Some sig) scheme host rest"
    and "rq_path req' = resource_path (Some sig) scheme host rest'"
    and "uri_path_of X (resource_target req' scheme host rest') \<noteq> None"
  shows "resource_begin X rp st req' = Inr (resource_outbound X rp req' scheme host rest')"
proof -
  have "resource_granted X rp st req' (Some sig) scheme host rest'"
    using assms by (simp add: resource_granted_def may_use_resource_def)
  then show ?thesis by (rule resource_begin_granted)
qed

text \<open>
  C36: A session outlives the permission it was made under. The gate asks only whether the
  token has a session on the route, so a session that was loaded from the state file is
  accepted also when its user is no longer on the list of allowed users.
\<close>

theorem removed_user_keeps_access:
  assumes "client_passes X rp req conn" "\<not> prefix RESOURCE_PREFIX (rq_path req)"
    and "\<not> asks_user_list req" "upstream_ready X rp req"
    and "request_token X (rq_headers req) (rq_query req) = Some t"
    and "st_sessions (ps_store st) t = Some e" "s_route e = rp_route_key rp"
    and "unicode_lower X (s_user_name e) \<notin> set (rp_allowed_users rp)"
  shows "\<exists>out w effs. handle_begin X rp io st req conn = (Inr (out, w), st, effs)"
proof -
  have "holds_token X rp (ps_store st) req"
    using assms(5-7) request_token_ne [OF assms(5)] by (simp add: holds_token_def store_is_valid_def)
  then have "gate_open X rp st req" using assms(2-4) by (simp add: gate_open_def)
  then show ?thesis
    using assms(1) handle_checked_sends [of X rp st req conn] by (auto simp: handle_begin_sends)
qed

section \<open>A sample route\<close>

text \<open>
  One route with the allowed-users check, a session and an allowed host. Its signatures are
  written in hexadecimal.
\<close>

definition hex_encode :: "bytes \<Rightarrow> string" where
  "hex_encode bs = concat (map (\<lambda>b. [HEX ! (byte b div 16), HEX ! (byte b mod 16)]) bs)"

fun hex_decode :: "string \<Rightarrow> bytes option" where
  "hex_decode (x # y # r) =
     (case (unhex x, unhex y, hex_decode r) of
        (Some a, Some b, Some bs) \<Rightarrow> Some (char_of (16 * a + b) # bs) | _ \<Rightarrow> None)"
| "hex_decode [] = Some []"
| "hex_decode [_] = None"

lemma hex_round_trip: "hex_decode (hex_encode bs) = Some bs"
  using byte_nibbles HEX_unhex
  by (induction bs) (simp_all add: hex_encode_def)

definition route_crate_sample :: route_crate where
  "route_crate_sample =
     \<lparr>hv_to_str = Some, hn_from_bytes = Some, hv_from_str = Some,
      uri_path_of = (\<lambda>s. Some (before_first (CHR ''?'') s)),
      b64_encode = id, b64_decode = Some, b64url_encode = hex_encode, b64url_decode = hex_decode,
      hmac_sha256 = (\<lambda>k m. take 32 (m @ k @ replicate 32 (CHR 0x00))),
      store_to_json = (\<lambda>f. []), store_from_json = (\<lambda>_. None), json_str = json_string,
      gunzip = (\<lambda>_ _. None),
      parse_json = (\<lambda>b. if b = ''{ok}'' then Some (JObj [(''AccessToken'', JStr ''tok''),
          (''User'', JObj [(''Name'', JStr ''Ann'')])]) else None),
      unicode_lower = to_ascii_lowercase\<rparr>"

lemma route_crate_sample_laws: "signing_laws route_crate_sample"
  by (auto simp: signing_laws_def route_crate_sample_def hex_round_trip)

definition route_sample :: route where
  "route_sample =
     \<lparr>r_upstream_url = \<lparr>u_scheme = ''http'', u_host = ''up'', u_path = [], u_query = []\<rparr>,
      r_public_url = \<lparr>u_scheme = ''https'', u_host = ''p.io'', u_path = [], u_query = []\<rparr>,
      r_acme_domain = ''p.io''\<rparr>"

definition config_sample :: config where
  "config_sample = (with_routes [route_sample])
     \<lparr>c_acme_domains := [''p.io''], c_allowed_users := [''Ann''], c_allowed_hosts := [''cdn''], c_hide_client := True,
      c_playbackinfo_max_bytes := 64\<rparr>"

definition memory_sample :: store where
  "memory_sample = \<lparr>st_path = None, st_secret = ''k'', st_sessions =
     [''tok'' \<mapsto> \<lparr>s_route = ''p.io'', s_user_id = [], s_user_name = ''Ann'', s_created_at = ''now''\<rparr>]\<rparr>"

definition rp_sample :: route_proxy where
  "rp_sample = route_proxy_new route_crate_sample config_sample route_sample (Some memory_sample) False False"

definition state_sample :: proxy_state where
  "state_sample = \<lparr>ps_registry = route_registry config_sample, ps_store = memory_sample,
     ps_files = Map.empty\<rparr>"

definition request_sample :: "string \<Rightarrow> string option \<Rightarrow> request" where
  "request_sample path query =
     \<lparr>rq_method = ''GET'', rq_authority = Some ''p.io'', rq_path = path, rq_query = query,
      rq_headers = no_headers(''x-real-ip'' := [''1.2.3.4'']), rq_frames = [], rq_ended = True\<rparr>"

definition conn_sample :: conn_info where
  "conn_sample = \<lparr>remote_ip = V4 0x01020304, remote_port = 9, conn_tls = True\<rparr>"

definition answer_sample :: upstream_response where
  "answer_sample = \<lparr>us_status = 200, us_headers = no_headers, us_frames = [Data ''{o'', Data ''k}'']\<rparr>"

lemma rp_sample_facts [simp]:
  "rp_auth rp_sample" "rp_route_key rp_sample = ''p.io''" "rp_cfg rp_sample = config_sample"
  "rp_allowed_users rp_sample = [''ann'']"
  by (simp_all add: rp_sample_def route_proxy_new_def Let_def route_sample_def url_hostname_def
      config_sample_def route_crate_sample_def, code_simp+)

theorem resource_endpoint_exact_witness:
  "resource_begin route_crate_sample rp_sample state_sample
     (request_sample ''/_proxy/http/cdn/x'' (Some ''api_key=tok''))
   = Inr (resource_outbound route_crate_sample rp_sample
       (request_sample ''/_proxy/http/cdn/x'' (Some ''api_key=tok'')) ''http'' ''cdn'' ''x'')"
proof -
  let ?r = "request_sample ''/_proxy/http/cdn/x'' (Some ''api_key=tok'')"
  have "resource_granted route_crate_sample rp_sample state_sample ?r None ''http'' ''cdn'' ''x''"
    by code_simp
  moreover have "prefix RESOURCE_PREFIX (rq_path ?r)" by code_simp
  ultimately show ?thesis using resource_endpoint_exact by blast
qed

theorem buffered_body_exact_witness:
  "read_body route_crate_sample config_sample [Data ''a'', Trailers, Data ''b''] no_headers = Inr ''ab''"
proof -
  have "header_get no_headers ''content-encoding'' = None" by (simp add: header_get_def no_headers_def)
  moreover have "length ''ab'' \<le> body_limit config_sample" by code_simp
  ultimately show ?thesis
    using buffered_body_exact [of no_headers route_crate_sample config_sample
        "[Data ''a'', Trailers, Data ''b'']" "''ab''"]
    by (simp add: frame_data_def)
qed

theorem login_needs_allowed_user_witness:
  "\<exists>body token user. login_grants route_crate_sample rp_sample answer_sample body token user
     \<and> rs_body (fst (handle_login_response route_crate_sample rp_sample io_sample ''now'' state_sample
         answer_sample ''/Users/AuthenticateByName'')) = body_full body"
proof -
  let ?h = "handle_login_response route_crate_sample rp_sample io_sample ''now'' state_sample
    answer_sample ''/Users/AuthenticateByName''"
  have "?h = (fst ?h, fst (snd ?h), snd (snd ?h))" by simp
  moreover have "us_status answer_sample = 200 \<and> rs_status (fst ?h) = 200" by code_simp
  ultimately show ?thesis using login_needs_allowed_user [of route_crate_sample rp_sample io_sample
      "''now''" state_sample answer_sample "''/Users/AuthenticateByName''" "fst ?h" "fst (snd ?h)" "snd (snd ?h)"]
    by blast
qed

theorem logout_revokes_witness:
  "\<not> store_is_valid (ps_store (fst (snd (handle route_crate_sample rp_sample io_sample io_sample ''now''
      (\<lambda>_. SendError) state_sample (request_sample ''/emby/Sessions/Logout'' (Some ''api_key=tok''))
      conn_sample)))) ''tok'' ''p.io''"
proof -
  let ?r = "request_sample ''/emby/Sessions/Logout'' (Some ''api_key=tok'')"
  let ?h = "handle route_crate_sample rp_sample io_sample io_sample ''now'' (\<lambda>_. SendError)
    state_sample ?r conn_sample"
  have "?h = (fst ?h, fst (snd ?h), fst (snd (snd ?h)), snd (snd (snd ?h)))" by simp
  moreover have "client_passes route_crate_sample rp_sample ?r conn_sample" by code_simp
  moreover have "\<not> prefix RESOURCE_PREFIX (rq_path ?r)" "is_logout ?r" by code_simp+
  moreover have "request_token route_crate_sample (rq_headers ?r) (rq_query ?r) = Some ''tok''" by code_simp
  moreover have "store_is_valid (ps_store state_sample) ''tok'' (rp_route_key rp_sample)" by code_simp
  ultimately show ?thesis
    using logout_revokes [of rp_sample route_crate_sample ?r conn_sample "''tok''" state_sample]
      rp_sample_facts(1) by blast
qed

theorem identity_headers_exact_witness:
  "forwarded_headers route_crate_sample rp_sample (request_sample ''/'' None) conn_sample False ''x-real-ip'' = []"
proof -
  have "c_hide_client (rp_cfg rp_sample)" "''x-real-ip'' \<in> set IDENTITY_HEADERS" by code_simp+
  then show ?thesis
    using identity_headers_exact [of rp_sample route_crate_sample "request_sample ''/'' None" conn_sample False]
    by (simp del: rp_sample_facts)
qed

definition signature_sample :: string where
  "signature_sample = store_sign route_crate_sample memory_sample [''p.io'', ''http'', ''cdn'']"

theorem signature_covers_host_witness:
  "resource_begin route_crate_sample rp_sample state_sample
     (request_sample (resource_path (Some signature_sample) ''http'' ''cdn'' ''private/other'') None)
   = Inr (resource_outbound route_crate_sample rp_sample
       (request_sample (resource_path (Some signature_sample) ''http'' ''cdn'' ''private/other'') None)
       ''http'' ''cdn'' ''private/other'')"
proof (rule signature_covers_host)
  show "resource_granted route_crate_sample rp_sample state_sample
      (request_sample (resource_path (Some signature_sample) ''http'' ''cdn'' ''movie'') None)
      (Some signature_sample) ''http'' ''cdn'' ''movie''" by code_simp
qed (simp_all add: request_sample_def route_crate_sample_def)

definition old_session_state :: proxy_state where
  "old_session_state = state_sample\<lparr>ps_store := memory_sample\<lparr>st_sessions :=
     [''old'' \<mapsto> \<lparr>s_route = ''p.io'', s_user_id = [], s_user_name = ''Bob'', s_created_at = []\<rparr>]\<rparr>\<rparr>"

theorem removed_user_keeps_access_witness:
  "\<exists>out w effs. handle_begin route_crate_sample rp_sample io_sample old_session_state
     (request_sample ''/Items'' (Some ''api_key=old'')) conn_sample = (Inr (out, w), old_session_state, effs)"
proof (rule removed_user_keeps_access)
  let ?r = "request_sample ''/Items'' (Some ''api_key=old'')"
  show "client_passes route_crate_sample rp_sample ?r conn_sample" by code_simp
  show "\<not> prefix RESOURCE_PREFIX (rq_path ?r)" "\<not> asks_user_list ?r" by code_simp+
  show "upstream_ready route_crate_sample rp_sample ?r" by code_simp
  show "request_token route_crate_sample (rq_headers ?r) (rq_query ?r) = Some ''old''" by code_simp
  show "st_sessions (ps_store old_session_state) ''old''
      = Some \<lparr>s_route = ''p.io'', s_user_id = [], s_user_name = ''Bob'', s_created_at = []\<rparr>"
    by (simp add: old_session_state_def)
qed (simp_all add: route_crate_sample_def to_ascii_lowercase_def ascii_lower_def)

end
