(* ===== verification/Resource_Links.thy ===== *)
theory Resource_Links
  imports Route_Safety
begin

text \<open>
  The rewriter and the resource endpoint together: which rewritten URLs the endpoint of the
  same route serves, and as what.
\<close>

section \<open>Joining and escaping paths\<close>

lemma trim_char_id:
  assumes "c \<notin> set s"
  shows "trim_char c s = s"
proof -
  have "dropWhile (\<lambda>x. x = c) t = t" if "c \<notin> set t" for t using that by (cases t) auto
  with assms show ?thesis by (simp add: trim_char_def)
qed

lemma trim_char_start [simp]: "trim_char c (trim_start_char c s) = trim_char c s"
  by (simp add: trim_char_def trim_start_char_def dropWhile_idem)

lemma escape_path_append [simp]: "escape_path (a @ b) = escape_path a @ escape_path b"
  by (simp add: escape_path_def)

lemma escape_path_Cons [simp]: "escape_path (c # s) = escape_path_byte c @ escape_path s"
  by (simp add: escape_path_def)

lemma escape_path_Nil [simp]: "escape_path [] = []"
  by (simp add: escape_path_def)

lemma escape_slash [simp]: "escape_path_byte (CHR ''/'') = ''/''"
  by (simp add: escape_path_byte_def)

definition plain :: "string \<Rightarrow> bool" where
  "plain s \<longleftrightarrow> (\<forall>c\<in>set s. is_ascii_alnum c \<or> c \<in> set ''-._:'')"

lemma plain_escape: "plain s \<Longrightarrow> escape_path s = s"
  by (induction s) (auto simp: plain_def escape_path_byte_def)

lemma plain_no_sep: "plain s \<Longrightarrow> set ''/?#@'' \<inter> set s = {}"
proof -
  have "\<not> is_ascii_alnum c \<and> c \<notin> set ''-._:''" if "c \<in> set ''/?#@''" for c
    using that by (auto simp: is_ascii_alnum_def is_ascii_digit_def)
  moreover assume "plain s"
  ultimately show ?thesis unfolding plain_def by blast
qed

lemma http_scheme_plain: "is_http_scheme s \<Longrightarrow> plain s"
proof -
  have "plain ''http''" "plain ''https''" by code_simp+
  moreover assume "is_http_scheme s"
  ultimately show ?thesis by (auto simp: is_http_scheme_def)
qed

definition slashed :: "string \<Rightarrow> string" where
  "slashed part = (let part = trim_char (CHR ''/'') part in if part \<noteq> [] then ''/'' @ part else [])"

lemma join_url_path_slashed:
  "join_url_path base parts =
     (let out = concat (map slashed (base # parts)) in if out = [] then ''/'' else out)"
proof -
  have "foldl (\<lambda>out part. let part = trim_char (CHR ''/'') part in
          if part \<noteq> [] then out @ ''/'' @ part else out) acc ps = acc @ concat (map slashed ps)" for acc ps
    by (induction ps arbitrary: acc) (auto simp: slashed_def Let_def)
  then show ?thesis by (simp only: join_url_path_def append_Nil)
qed

lemma slashed_plain: "plain s \<Longrightarrow> s \<noteq> [] \<Longrightarrow> slashed s = CHR ''/'' # s"
  using plain_no_sep [of s] by (auto simp: slashed_def trim_char_id)

lemma slashed_escape: "escape_path (slashed s) = (if trim_char (CHR ''/'') s = [] then []
    else CHR ''/'' # escape_path (trim_char (CHR ''/'') s))"
  by (simp add: slashed_def Let_def)

section \<open>Absolute URLs\<close>

definition absolute_url :: "string \<Rightarrow> string \<Rightarrow> string \<Rightarrow> string option \<Rightarrow> string" where
  "absolute_url scheme host tail query =
     scheme @ ''://'' @ host @ tail @ (case query of Some q \<Rightarrow> ''?'' @ q | None \<Rightarrow> [])"

definition url_fields_ok :: "string \<Rightarrow> string \<Rightarrow> string \<Rightarrow> string option \<Rightarrow> bool" where
  "url_fields_ok scheme host tail query \<longleftrightarrow>
     is_http_scheme scheme \<and> valid_host host \<and> plain host
     \<and> (tail = [] \<or> hd tail = CHR ''/'') \<and> CHR ''?'' \<notin> set tail \<and> CHR ''#'' \<notin> set tail
     \<and> (case query of Some q \<Rightarrow> CHR ''#'' \<notin> set q | None \<Rightarrow> True)
     \<and> list_all (\<lambda>b. 0x20 \<le> byte b \<and> byte b \<noteq> 0x7F) (absolute_url scheme host tail query)"

lemma url_scheme_absolute:
  "is_http_scheme scheme \<Longrightarrow> url_scheme (absolute_url scheme host tail query)
     = Some (scheme, host @ tail @ (case query of Some q \<Rightarrow> ''?'' @ q | None \<Rightarrow> []))"
  by (auto simp: is_http_scheme_def url_scheme_def absolute_url_def strip_prefix_def)

lemma cut_at_host: "CHR ''/'' \<notin> set host \<Longrightarrow> tail = [] \<or> hd tail = CHR ''/'' \<Longrightarrow>
    cut_at (CHR ''/'') (host @ tail) = (host, tail)"
  by (induction host; cases tail) (auto simp: cut_at_def)

definition query_suffix :: "string option \<Rightarrow> string" where
  "query_suffix query = (case query of Some q \<Rightarrow> if q \<noteq> [] then ''?'' @ q else [] | None \<Rightarrow> [])"

lemma rewrite_url_absolute:
  assumes "url_fields_ok scheme host tail query" "percent_decode tail False = Some path"
  shows "rewrite_url rw reg (absolute_url scheme host tail query) =
    Some ((u_scheme (rw_public_url rw) @ ''://'' @ u_host (rw_public_url rw)
      @ escape_path (join_url_path (rw_public_path rw) ([''_proxy'']
          @ (case rw_sign rw of Some sign \<Rightarrow> [sign scheme host] | None \<Rightarrow> [])
          @ [scheme, host, trim_start_char (CHR ''/'') path]))
      @ query_suffix query, scheme, host), registry_allow reg host scheme)"
proof -
  let ?rest = "host @ tail @ (case query of Some q \<Rightarrow> ''?'' @ q | None \<Rightarrow> [])"
  have h: "set ''/?#@'' \<inter> set host = {}" using assms(1) plain_no_sep by (simp add: url_fields_ok_def)
  have frag: "before_first (CHR ''#'') ?rest = ?rest"
    using assms(1) h by (auto simp: before_first_def url_fields_ok_def takeWhile_eq_all_conv split: option.splits)
  have cut: "cut_at (CHR ''/'') (host @ tail) = (host, tail)"
    using assms(1) h by (intro cut_at_host) (auto simp: url_fields_ok_def)
  have qm: "CHR ''?'' \<notin> set (host @ tail)" using assms(1) h by (auto simp: url_fields_ok_def)
  have q: "split_once (CHR ''?'') ?rest = map_option (Pair (host @ tail)) query"
    using split_once_append [OF qm] qm split_once_None [of "CHR ''?''" "host @ tail"]
    by (cases query) auto
  have ctrl: "\<not> list_ex (\<lambda>b. byte b < 0x20 \<or> byte b = 0x7F) (absolute_url scheme host tail query)"
    using assms(1) by (fastforce simp: url_fields_ok_def list_all_iff list_ex_iff)
  have "after_last (CHR ''@'') host = host" using h by (intro after_last_id) auto
  then show ?thesis
    using assms url_scheme_absolute [of scheme host tail query] frag cut q ctrl
    by (cases query; cases "rw_sign rw") (simp_all add: rewrite_url_def url_fields_ok_def query_suffix_def Let_def)
qed

section \<open>Links\<close>

text \<open>
  What is relied on of the URL-safe base64: it can be decoded, it uses letters, digits, minus
  and underscore, and it is not shorter than the data.
\<close>

definition base64_laws :: "'x auth_crate_scheme \<Rightarrow> bool" where
  "base64_laws X \<longleftrightarrow> signing_laws X
     \<and> (\<forall>bs. (\<forall>c\<in>set (b64url_encode X bs). is_ascii_alnum c \<or> c \<in> set ''-_'')
            \<and> length bs \<le> length (b64url_encode X bs))"

lemma signature_plain:
  assumes "base64_laws X"
  shows "plain (store_sign X s parts) \<and> \<not> is_http_scheme (store_sign X s parts)
    \<and> store_sign X s parts \<noteq> [] \<and> CHR ''/'' \<notin> set (store_sign X s parts)"
proof -
  let ?s = "store_sign X s parts" and ?m = "take 16 (store_mac X s parts)"
  have "length ?m = 16"
    using assms by (simp add: base64_laws_def signing_laws_def store_mac_def)
  moreover have "length ?m \<le> length ?s"
    using assms unfolding base64_laws_def store_sign_def by blast
  ultimately have l: "16 \<le> length ?s" by simp
  have p: "plain ?s" using assms unfolding plain_def base64_laws_def store_sign_def by fastforce
  from l have "\<not> is_http_scheme ?s" "?s \<noteq> []" by (auto simp: is_http_scheme_def)
  with p show ?thesis using plain_no_sep [OF p] by auto
qed

lemma verify_same_secret:
  "st_secret s = st_secret s' \<Longrightarrow> store_verify X s sig parts = store_verify X s' sig parts"
  by (auto simp: store_verify_def store_mac_def split: option.splits)

definition link_signature ::
  "'x route_crate_scheme \<Rightarrow> route \<Rightarrow> store option \<Rightarrow> string \<Rightarrow> string \<Rightarrow> string option" where
  "link_signature X rt auth scheme host =
     map_option (\<lambda>s. store_sign X s
       [to_ascii_lowercase (url_hostname (r_public_url rt)), scheme, host]) auth"

lemma route_proxy_new_facts:
  "rw_public_url (rp_rewriter (route_proxy_new X cfg rt auth stats debug)) = r_public_url rt"
  "rw_public_path (rp_rewriter (route_proxy_new X cfg rt auth stats debug))
     = rw_public_path (rewriter_new (r_public_url rt))"
  "rp_route_key (route_proxy_new X cfg rt auth stats debug)
     = to_ascii_lowercase (url_hostname (r_public_url rt))"
  "rp_auth (route_proxy_new X cfg rt auth stats debug) \<longleftrightarrow> auth \<noteq> None"
  "rp_cfg (route_proxy_new X cfg rt auth stats debug) = cfg"
  "rp_allowed_users (route_proxy_new X cfg rt auth stats debug) = map (unicode_lower X) (c_allowed_users cfg)"
  "(case rw_sign (rp_rewriter (route_proxy_new X cfg rt auth stats debug)) of
      Some sign \<Rightarrow> [sign scheme host] | None \<Rightarrow> []) =
   (case link_signature X rt auth scheme host of Some s \<Rightarrow> [s] | None \<Rightarrow> [])"
  by (auto simp: route_proxy_new_def rewriter_new_def with_signer_def link_signature_def Let_def
      split: option.splits)

text \<open>The path of a link, up to the host.\<close>

lemma link_path:
  assumes "base64_laws X" "is_http_scheme scheme" "plain host" "host \<noteq> []"
    and "trim_char (CHR ''/'') base = []"
  shows "escape_path (join_url_path base ([''_proxy'']
      @ (case link_signature X rt auth scheme host of Some s \<Rightarrow> [s] | None \<Rightarrow> [])
      @ [scheme, host, trim_start_char (CHR ''/'') path])) =
    RESOURCE_PREFIX @ (case link_signature X rt auth scheme host of Some s \<Rightarrow> s @ ''/'' | None \<Rightarrow> [])
      @ scheme @ ''/'' @ host @ escape_path (slashed path)"
proof -
  have p: "plain ''_proxy''" by code_simp
  have "\<forall>c\<in>set ''_proxy''. escape_path_byte c = [c]" by code_simp
  then have e: "escape_path_byte c = [c]" if "c \<in> set ''_proxy''" for c using that by blast
  have b: "slashed base = []" using assms(5) by (simp add: slashed_def)
  have s: "plain scheme" "scheme \<noteq> []"
    using assms(2) http_scheme_plain by (auto simp: is_http_scheme_def)
  have r: "slashed (trim_start_char (CHR ''/'') path) = slashed path" by (simp add: slashed_def)
  note simps = join_url_path_slashed Let_def b r slashed_plain [OF p] slashed_plain [OF s]
    slashed_plain [OF assms(3,4)] e plain_escape [OF s(1)] plain_escape [OF assms(3)]
  show ?thesis
  proof (cases auth)
    case None
    then show ?thesis by (simp add: simps link_signature_def RESOURCE_PREFIX_def)
  next
    case (Some a)
    let ?g = "store_sign X a [to_ascii_lowercase (url_hostname (r_public_url rt)), scheme, host]"
    have g: "slashed ?g = CHR ''/'' # ?g" "escape_path ?g = ?g"
      using signature_plain [OF assms(1)] by (auto intro: slashed_plain plain_escape)
    then show ?thesis using Some by (simp add: simps link_signature_def RESOURCE_PREFIX_def)
  qed
qed

lemma valid_host_ne: "valid_host host \<Longrightarrow> host \<noteq> []"
  by (auto simp: valid_host_def)

lemma link_path_ok:
  assumes "base64_laws X" "is_http_scheme scheme" "plain host" "host \<noteq> []"
  shows "resource_path_ok (auth \<noteq> None) (link_signature X rt auth scheme host) scheme host"
  using assms signature_plain [OF assms(1)] plain_no_sep [OF assms(3)]
  by (auto simp: resource_path_ok_def link_signature_def split: option.splits)

text \<open>
  A rewritten URL leads back to the original resource. When the public URL has no path,
  an absolute URL with a plain host and a non-empty path is rewritten to a link on the public
  host; a request for that link's path, at any later moment at which the signing secret is
  the same and the host is still registered, passes the resource endpoint (its signature
  verifies, no token is needed) and is sent to the original scheme and host, with the path
  that decodes to the original one without its outer slashes.
\<close>

lemma rewritten_url_resolves:
  assumes "base64_laws X" "rp = route_proxy_new X cfg rt auth stats debug"
    and "trim_char (CHR ''/'') (rw_public_path (rp_rewriter rp)) = []"
    and "url_fields_ok scheme host tail query" "percent_decode tail False = Some path"
    and "trim_char (CHR ''/'') path \<noteq> []"
  shows "\<exists>link reg'. rewrite_url (rp_rewriter rp) reg (absolute_url scheme host tail query) =
      Some ((u_scheme (r_public_url rt) @ ''://'' @ u_host (r_public_url rt) @ link
        @ query_suffix query, scheme, host), reg')
    \<and> registry_lookup reg' host \<noteq> None \<and> prefix RESOURCE_PREFIX link
    \<and> (\<forall>st req. rq_path req = link \<and> registry_lookup (ps_registry st) host \<noteq> None
        \<and> (\<forall>s. auth = Some s \<longrightarrow> st_secret (ps_store st) = st_secret s)
        \<and> uri_path_of X (resource_target req scheme host (escape_path (trim_char (CHR ''/'') path))) \<noteq> None
        \<longrightarrow> resource_begin X rp st req
          = Inr (resource_outbound X rp req scheme host (escape_path (trim_char (CHR ''/'') path))))"
proof -
  let ?sig = "link_signature X rt auth scheme host" and ?rest = "escape_path (trim_char (CHR ''/'') path)"
  have f: "is_http_scheme scheme" "plain host" "host \<noteq> []"
    using assms(4) by (auto simp: url_fields_ok_def valid_host_ne)
  have url: "rewrite_url (rp_rewriter rp) reg (absolute_url scheme host tail query) =
      Some ((u_scheme (r_public_url rt) @ ''://'' @ u_host (r_public_url rt)
        @ resource_path ?sig scheme host ?rest @ query_suffix query, scheme, host),
        registry_allow reg host scheme)"
    using link_path [OF assms(1) f assms(3), of rt auth path] assms(6)
    by (simp add: rewrite_url_absolute [OF assms(4,5)] assms(2) route_proxy_new_facts
        slashed_escape resource_path_def)
  have "resource_begin X rp st req = Inr (resource_outbound X rp req scheme host ?rest)"
    if "rq_path req = resource_path ?sig scheme host ?rest" "registry_lookup (ps_registry st) host \<noteq> None"
      "\<forall>s. auth = Some s \<longrightarrow> st_secret (ps_store st) = st_secret s"
      "uri_path_of X (resource_target req scheme host ?rest) \<noteq> None" for st req
  proof (rule resource_begin_granted)
    have "may_use_resource X rp (ps_store st) req ?sig scheme host"
    proof (cases auth)
      case (Some s)
      have "signing_laws X" using assms(1) by (simp add: base64_laws_def)
      with Some that(3) show ?thesis
        using verify_same_secret [of "ps_store st" s X] store_verify_sign [of X s]
        by (simp add: may_use_resource_def assms(2) route_proxy_new_facts link_signature_def)
    qed (simp add: may_use_resource_def assms(2) route_proxy_new_facts)
    with that show "resource_granted X rp st req ?sig scheme host ?rest"
      using link_path_ok [OF assms(1) f, of auth rt]
      by (simp add: resource_granted_def assms(2) route_proxy_new_facts)
  qed
  moreover have "prefix RESOURCE_PREFIX (resource_path ?sig scheme host ?rest)" by (simp add: resource_path_def)
  ultimately show ?thesis using url f(3) reg.allow_known [of reg host scheme host] by blast
qed

text \<open>
  C38: A rewritten URL with an empty path leads nowhere. Joining drops empty parts, so the
  link ends with the host, and the resource endpoint answers 400 to it, although the host was
  registered for it.
\<close>

theorem rewritten_root_refused:
  assumes "base64_laws X" "rp = route_proxy_new X cfg rt auth stats debug"
    and "trim_char (CHR ''/'') (rw_public_path (rp_rewriter rp)) = []"
    and "url_fields_ok scheme host tail query" "percent_decode tail False = Some path"
    and "trim_char (CHR ''/'') path = []"
  shows "\<exists>link. rewrite_url (rp_rewriter rp) reg (absolute_url scheme host tail query) =
      Some ((u_scheme (r_public_url rt) @ ''://'' @ u_host (r_public_url rt) @ link
        @ query_suffix query, scheme, host), registry_allow reg host scheme)
    \<and> (\<forall>st req. rq_path req = link \<longrightarrow>
        resource_begin X rp st req = Inl (text_response 400 ''missing proxied resource host''))"
proof -
  let ?sig = "link_signature X rt auth scheme host"
  let ?link = "RESOURCE_PREFIX @ (case ?sig of Some s \<Rightarrow> s @ ''/'' | None \<Rightarrow> []) @ scheme @ ''/'' @ host"
  have f: "is_http_scheme scheme" "plain host" "host \<noteq> []"
    using assms(4) by (auto simp: url_fields_ok_def valid_host_ne)
  have "resource_parts (auth \<noteq> None) ?link = Inl (text_response 400 ''missing proxied resource host'')"
    using link_path_ok [OF assms(1) f, of auth rt] http_scheme_no_slash [OF f(1)]
      split_once_None [of "CHR ''/''" host]
    by (auto simp: resource_parts_def resource_path_ok_def Let_def split: option.splits)
  then have "resource_begin X rp st req = Inl (text_response 400 ''missing proxied resource host'')"
    if "rq_path req = ?link" for st req
    using that by (simp add: resource_begin_def assms(2) route_proxy_new_facts)
  moreover have "rewrite_url (rp_rewriter rp) reg (absolute_url scheme host tail query) =
      Some ((u_scheme (r_public_url rt) @ ''://'' @ u_host (r_public_url rt)
        @ ?link @ query_suffix query, scheme, host), registry_allow reg host scheme)"
    using link_path [OF assms(1) f assms(3), of rt auth path] assms(6)
    by (simp add: rewrite_url_absolute [OF assms(4,5)] assms(2) route_proxy_new_facts slashed_escape)
  ultimately show ?thesis by blast
qed

lemma prefix_before_slash:
  assumes "prefix ''_proxy/'' (u @ CHR ''/'' # v)"
  shows "prefix ''_proxy/'' (u @ ''/'')"
proof (rule ccontr)
  assume n: "\<not> prefix ''_proxy/'' (u @ ''/'')"
  have "prefix ''_proxy/'' ((u @ ''/'') @ v)" using assms by simp
  with n obtain w where w: "''_proxy/'' = (u @ ''/'') @ w" "w \<noteq> []"
    unfolding prefix_append by auto
  then have "butlast ''_proxy/'' = u @ ''/'' @ butlast w" by (simp add: butlast_append)
  then have "CHR ''/'' \<in> set (butlast ''_proxy/'')" by simp
  then show False by simp
qed

text \<open>
  C39: A public URL with a path breaks the links. The rewriter puts the path of the public URL
  in front of \<^verbatim>\<open>/_proxy/\<close>, as the README documents, but the handler looks for \<^verbatim>\<open>/_proxy/\<close> at
  the start of the request path only: a request for such a link is sent to the upstream
  server like any other path.
\<close>

theorem base_path_not_served:
  assumes "rp = route_proxy_new X cfg rt auth stats debug"
    and "base = trim_char (CHR ''/'') (rw_public_path (rp_rewriter rp))" "base \<noteq> []"
    and "\<not> prefix ''_proxy/'' (escape_path base @ ''/'')"
    and "url_fields_ok scheme host tail query" "percent_decode tail False = Some path"
  shows "\<exists>link. rewrite_url (rp_rewriter rp) reg (absolute_url scheme host tail query) =
      Some ((u_scheme (r_public_url rt) @ ''://'' @ u_host (r_public_url rt) @ link
        @ query_suffix query, scheme, host), registry_allow reg host scheme)
    \<and> (\<forall>st req conn. rq_path req = link \<longrightarrow>
        route_request X rp st req conn = begin_upstream X rp req conn None)"
proof -
  let ?parts = "(case rw_sign (rp_rewriter rp) of Some sign \<Rightarrow> [sign scheme host] | None \<Rightarrow> [])
    @ [scheme, host, trim_start_char (CHR ''/'') path]"
  let ?link = "escape_path (join_url_path (rw_public_path (rp_rewriter rp)) (''_proxy'' # ?parts))"
  have "plain ''_proxy''" by code_simp
  then have "slashed ''_proxy'' = ''/_proxy''" by (simp add: slashed_plain)
  moreover have "slashed (rw_public_path (rp_rewriter rp)) = ''/'' @ base"
    using assms(2,3) by (simp add: slashed_def)
  ultimately obtain v where v: "?link = CHR ''/'' # escape_path base @ CHR ''/'' # v"
    by (simp add: join_url_path_slashed)
  have "\<not> prefix RESOURCE_PREFIX ?link"
    unfolding v using assms(4) prefix_before_slash by (auto simp: RESOURCE_PREFIX_def)
  then have "route_request X rp st req conn = begin_upstream X rp req conn None"
    if "rq_path req = ?link" for st req conn using that by (simp add: route_request_def)
  moreover have "rewrite_url (rp_rewriter rp) reg (absolute_url scheme host tail query) =
      Some ((u_scheme (r_public_url rt) @ ''://'' @ u_host (r_public_url rt) @ ?link
        @ query_suffix query, scheme, host), registry_allow reg host scheme)"
    using rewrite_url_absolute [OF assms(5,6), of "rp_rewriter rp" reg]
    by (simp add: assms(1) route_proxy_new_facts)
  ultimately show ?thesis by blast
qed

section \<open>Samples\<close>

lemma base64_sample: "base64_laws route_crate_sample"
proof -
  have "is_ascii_alnum (HEX ! n)" if "n < 16" for n using HEX_unhex that by blast
  then have "\<forall>c\<in>set (hex_encode bs). is_ascii_alnum c" for bs
    using byte_nibbles by (auto simp: hex_encode_def)
  moreover have "length bs \<le> length (hex_encode bs)" for bs
    by (induction bs) (auto simp: hex_encode_def)
  ultimately show ?thesis
    using route_crate_sample_laws by (auto simp: base64_laws_def route_crate_sample_def)
qed

theorem rewritten_root_refused_witness:
  "\<exists>link. rewrite_url (rp_rewriter rp_sample) Map.empty (absolute_url ''http'' ''h'' [] None)
     = Some ((''https://p.io'' @ link, ''http'', ''h''), registry_allow Map.empty ''h'' ''http'')"
proof -
  have "trim_char (CHR ''/'') (rw_public_path (rp_rewriter rp_sample)) = []" by code_simp
  moreover have "url_fields_ok ''http'' ''h'' [] None" by code_simp
  moreover have "percent_decode [] False = Some []" "trim_char (CHR ''/'') [] = []" by code_simp+
  ultimately show ?thesis
    using rewritten_root_refused [OF base64_sample rp_sample_def, of "''http''" "''h''" "[]" None "[]" Map.empty]
    by (auto simp: route_sample_def query_suffix_def)
qed

definition base_route_sample :: route where
  "base_route_sample = route_sample\<lparr>r_public_url := \<lparr>u_scheme = ''https'', u_host = ''p.io'',
     u_path = ''/emby/'', u_query = []\<rparr>\<rparr>"

definition base_rp_sample :: route_proxy where
  "base_rp_sample = route_proxy_new route_crate_sample config_sample base_route_sample None False False"

theorem base_path_not_served_witness:
  "\<exists>link. rewrite_url (rp_rewriter base_rp_sample) Map.empty (absolute_url ''http'' ''h'' ''/x'' None)
     = Some ((''https://p.io'' @ link, ''http'', ''h''), registry_allow Map.empty ''h'' ''http'')"
proof -
  have "''emby'' = trim_char (CHR ''/'') (rw_public_path (rp_rewriter base_rp_sample))" by code_simp
  moreover have "''emby'' \<noteq> []" by simp
  moreover have "\<not> prefix ''_proxy/'' (escape_path ''emby'' @ ''/'')" by code_simp
  moreover have "url_fields_ok ''http'' ''h'' ''/x'' None" by code_simp
  moreover have "percent_decode ''/x'' False = Some ''/x''" by code_simp
  moreover have "r_public_url base_route_sample
      = \<lparr>u_scheme = ''https'', u_host = ''p.io'', u_path = ''/emby/'', u_query = []\<rparr>"
    by (simp add: base_route_sample_def)
  ultimately show ?thesis
    using base_path_not_served [OF base_rp_sample_def, of "''emby''" "''http''" "''h''" "''/x''" None
        "''/x''" Map.empty]
    by (fastforce simp: query_suffix_def)
qed

end
