(* ===== verification/Server.thy ===== *)
theory Server
  imports Resource_Links Stats
begin

text \<open>
  \<^verbatim>\<open>Server\<close> of \<^verbatim>\<open>src/src/server/mod.rs\<close>: building the routes and choosing one for a
  request; the answers of the admin listener (\<^verbatim>\<open>src/src/server/admin.rs\<close>); and all the
  handlers running side by side as a transition system.
\<close>

section \<open>Building the server\<close>

record server =
  sv_routes :: "string \<rightharpoonup> route_proxy"
  sv_stats :: "stats option"

definition route_names :: "config \<Rightarrow> string list" where
  "route_names cfg = map (\<lambda>route. to_ascii_lowercase (url_hostname (r_public_url route))) (c_routes cfg)"

text \<open>
  The store the routes share, if any: \<open>memory\<close> is what \<^verbatim>\<open>Store::memory\<close> gives, used when no
  store was passed in.
\<close>

definition server_auth :: "config \<Rightarrow> store option \<Rightarrow> store \<Rightarrow> store option" where
  "server_auth cfg store memory =
     (if c_allowed_users cfg = [] then None
      else Some (case store of Some s \<Rightarrow> s | None \<Rightarrow> memory))"

text \<open>
  One entry of the route map, or \<open>None\<close> where \<^verbatim>\<open>expect\<close> panics because the statistics do not
  know the route.
\<close>

definition server_entry ::
  "'x route_crate_scheme \<Rightarrow> config \<Rightarrow> logger \<Rightarrow> store option \<Rightarrow> stats option \<Rightarrow> route
   \<Rightarrow> (string \<times> route_proxy) option" where
  "server_entry X cfg lg auth stats rt =
     (let name = to_ascii_lowercase (url_hostname (r_public_url rt));
          debug = log_enabled lg Debug in
      case stats of
        None \<Rightarrow> Some (name, route_proxy_new X cfg rt auth False debug)
      | Some s \<Rightarrow>
          map_option (\<lambda>_. (name, route_proxy_new X cfg rt auth True debug)) (stats_route s name))"

text \<open>Collecting into a map: a later entry replaces an earlier one with the same name.\<close>

definition server_with_stats ::
  "'x route_crate_scheme \<Rightarrow> config \<Rightarrow> logger \<Rightarrow> store option \<Rightarrow> store \<Rightarrow> stats option \<Rightarrow> server option" where
  "server_with_stats X cfg lg store memory stats =
     (let entries = map (server_entry X cfg lg (server_auth cfg store memory) stats) (c_routes cfg) in
      if list_ex (\<lambda>e. e = None) entries then None
      else Some \<lparr>sv_routes = map_of (rev (map the entries)), sv_stats = stats\<rparr>)"

definition server_new ::
  "'x route_crate_scheme \<Rightarrow> stats_crate \<Rightarrow> string \<Rightarrow> config \<Rightarrow> logger \<Rightarrow> store option \<Rightarrow> store \<Rightarrow> server option" where
  "server_new X Y now cfg lg store memory =
     server_with_stats X cfg lg store memory
       (if c_stats_enable cfg
        then (case stats_open Y True now (route_names cfg) None Map.empty of Inr s \<Rightarrow> Some s | Inl _ \<Rightarrow> None)
        else None)"

section \<open>Serving a request\<close>

text \<open>What all routes together keep: a registry each, the shared sessions, the disk.\<close>

record server_state =
  sy_registry :: "string \<Rightarrow> registry"
  sy_store :: store
  sy_files :: files

definition route_view :: "server_state \<Rightarrow> string \<Rightarrow> proxy_state" where
  "route_view s key = \<lparr>ps_registry = sy_registry s key, ps_store = sy_store s, ps_files = sy_files s\<rparr>"

definition route_update :: "server_state \<Rightarrow> string \<Rightarrow> proxy_state \<Rightarrow> server_state" where
  "route_update s key st =
     \<lparr>sy_registry = (sy_registry s)(key := ps_registry st), sy_store = ps_store st, sy_files = ps_files st\<rparr>"

definition server_initial :: "config \<Rightarrow> store \<Rightarrow> files \<Rightarrow> server_state" where
  "server_initial cfg store fs =
     \<lparr>sy_registry = (\<lambda>_. route_registry cfg), sy_store = store, sy_files = fs\<rparr>"

definition server_key :: "'x http_crate_scheme \<Rightarrow> request \<Rightarrow> string" where
  "server_key X req = to_ascii_lowercase (hostname (request_host X req))"

definition not_found :: response where
  "not_found = text_response 404 ''404 page not found''"

definition server_begin ::
  "'x route_crate_scheme \<Rightarrow> server \<Rightarrow> write_io \<Rightarrow> server_state \<Rightarrow> request \<Rightarrow> conn_info
   \<Rightarrow> (response, outbound \<times> waiting) res \<times> server_state \<times> effect list" where
  "server_begin X sv io s req conn =
     (let key = server_key X req in
      case sv_routes sv key of
        None \<Rightarrow> (Inl not_found, s, [])
      | Some rp \<Rightarrow>
          (let (r, st, effs) = handle_begin X rp io (route_view s key) req conn in
           (r, route_update s key st, effs)))"

text \<open>The second half on the route that was chosen.\<close>

definition server_finish ::
  "'x route_crate_scheme \<Rightarrow> route_proxy \<Rightarrow> write_io \<Rightarrow> write_io \<Rightarrow> string \<Rightarrow> server_state \<Rightarrow> string
   \<Rightarrow> string \<Rightarrow> waiting \<Rightarrow> upstream_result \<Rightarrow> response \<times> server_state \<times> spawned list \<times> effect list" where
  "server_finish X rp io io' now s key path w r =
     (let (resp, st, tasks, effs) = handle_finish X rp io io' now (route_view s key) path w r in
      (resp, route_update s key st, tasks, effs))"

definition server_handle ::
  "'x route_crate_scheme \<Rightarrow> server \<Rightarrow> write_io \<Rightarrow> write_io \<Rightarrow> string \<Rightarrow> (outbound \<Rightarrow> upstream_result)
   \<Rightarrow> server_state \<Rightarrow> request \<Rightarrow> conn_info \<Rightarrow> response \<times> server_state \<times> spawned list \<times> effect list" where
  "server_handle X sv io io' now net s req conn =
     (let key = server_key X req in
      case sv_routes sv key of
        None \<Rightarrow> (not_found, s, [], [])
      | Some rp \<Rightarrow>
          (let (resp, st, tasks, effs) = handle X rp io io' now net (route_view s key) req conn in
           (resp, route_update s key st, tasks, effs)))"

section \<open>The admin listener\<close>

text \<open>\<open>report_json\<close> is \<^verbatim>\<open>serde_json::to_vec_pretty\<close> on the report, empty when it fails.\<close>

definition admin_response ::
  "(report \<Rightarrow> bytes) \<Rightarrow> string \<Rightarrow> string \<Rightarrow> stats \<Rightarrow> request \<Rightarrow> response" where
  "admin_response report_json version today st req =
     (if rq_method req \<noteq> ''GET'' \<and> rq_method req \<noteq> ''HEAD'' then text_response 405 ''method not allowed''
      else
        (let ok = (\<lambda>body content_type.
               \<lparr>rs_status = 200, rs_headers = header_insert no_headers ''content-type'' content_type,
                rs_body = body_full body\<rparr>) in
         if rq_path req = ''/stats'' then ok (report_json (report_on version today st)) ''application/json''
         else if rq_path req = ''/metrics'' then
           ok (prometheus version st) ''text/plain; version=0.0.4; charset=utf-8''
         else not_found))"

section \<open>The routes\<close>

lemma server_entry_Some:
  assumes "server_entry X cfg lg auth stats rt = Some (name, rp)"
  shows "name = route_key_of rt
    \<and> rp = route_proxy_new X cfg rt auth (stats \<noteq> None) (log_enabled lg Debug)"
  using assms by (auto simp: server_entry_def route_key_of_def Let_def split: option.splits)

lemma route_names_keys: "route_names cfg = map route_key_of (c_routes cfg)"
  by (simp add: route_names_def route_key_of_def)

definition server_route ::
  "'x route_crate_scheme \<Rightarrow> config \<Rightarrow> logger \<Rightarrow> store option \<Rightarrow> stats option \<Rightarrow> route \<Rightarrow> route_proxy" where
  "server_route X cfg lg auth stats rt = route_proxy_new X cfg rt auth (stats \<noteq> None) (log_enabled lg Debug)"

lemma server_with_stats_Some:
  assumes "server_with_stats X cfg lg store memory stats = Some sv"
  shows "sv_routes sv = map_of (rev (map (\<lambda>rt. (route_key_of rt,
      server_route X cfg lg (server_auth cfg store memory) stats rt)) (c_routes cfg)))"
proof -
  let ?e = "server_entry X cfg lg (server_auth cfg store memory) stats"
  from assms have n: "None \<notin> ?e ` set (c_routes cfg)"
    and s: "sv_routes sv = map_of (rev (map (the \<circ> ?e) (c_routes cfg)))"
    by (auto simp: server_with_stats_def Let_def list_ex_iff split: if_splits)
  have "(the \<circ> ?e) rt = (route_key_of rt, server_route X cfg lg (server_auth cfg store memory) stats rt)"
    if "rt \<in> set (c_routes cfg)" for rt
  proof -
    have "None \<noteq> ?e rt" using n that by (metis image_eqI)
    then obtain name rp where "?e rt = Some (name, rp)" by (cases "?e rt") auto
    with server_entry_Some [OF this] show ?thesis by (simp add: server_route_def)
  qed
  then have "map (the \<circ> ?e) (c_routes cfg) = map (\<lambda>rt. (route_key_of rt,
      server_route X cfg lg (server_auth cfg store memory) stats rt)) (c_routes cfg)"
    by (intro map_cong refl)
  then show ?thesis unfolding s by (rule arg_cong)
qed

lemma server_routes_Some:
  assumes "server_with_stats X cfg lg store memory stats = Some sv" "sv_routes sv key = Some rp"
  shows "\<exists>rt\<in>set (c_routes cfg). route_key_of rt = key
    \<and> rp = server_route X cfg lg (server_auth cfg store memory) stats rt"
  using assms(2) map_of_SomeD by (fastforce simp: server_with_stats_Some [OF assms(1)])


lemma stats_open_routes:
  assumes "stats_open Y ok now names path fs = Inr s" "name \<in> set names"
  shows "stats_route s name \<noteq> None"
proof -
  from assms(1) have "map rt_name (ss_routes s) = names"
    by (auto simp: stats_open_def Let_def bind_res_Inr_iff comp_def)
  with assms(2) show ?thesis by (auto simp: stats_route_def find_None_iff')
qed

text \<open>
  Building the server never panics with statistics that were opened for the route names of
  the same configuration, nor without statistics.
\<close>

lemma server_builds:
  assumes "stats = None \<or> (\<exists>ok path fs s. stats_open Y ok now (route_names cfg) path fs = Inr s \<and> stats = Some s)"
  shows "\<exists>sv. server_with_stats X cfg lg store memory stats = Some sv
    \<and> dom (sv_routes sv) = set (route_names cfg)"
proof -
  let ?e = "server_entry X cfg lg (server_auth cfg store memory) stats"
  have "?e rt \<noteq> None" if "rt \<in> set (c_routes cfg)" for rt
    using assms
  proof
    assume "\<exists>ok path fs s. stats_open Y ok now (route_names cfg) path fs = Inr s \<and> stats = Some s"
    then obtain ok path fs s where o: "stats_open Y ok now (route_names cfg) path fs = Inr s"
      and s: "stats = Some s" by blast
    have "route_key_of rt \<in> set (route_names cfg)" using that by (simp add: route_names_keys)
    then have "stats_route s (route_key_of rt) \<noteq> None" by (rule stats_open_routes [OF o])
    with s show ?thesis by (auto simp: server_entry_def route_key_of_def Let_def)
  qed (simp add: server_entry_def Let_def)
  then have "None \<notin> ?e ` set (c_routes cfg)" by force
  then obtain sv where sv: "server_with_stats X cfg lg store memory stats = Some sv"
    by (auto simp: server_with_stats_def Let_def list_ex_iff image_iff)
  moreover have "dom (sv_routes sv) = set (route_names cfg)"
    by (simp add: server_with_stats_Some [OF sv] dom_map_of_conv_image_fst route_names_keys image_image)
  ultimately show ?thesis by blast
qed

section \<open>A sample server\<close>

definition logger_sample :: logger where
  "logger_sample = \<lparr>lg_config = log_config_default, lg_attrs = []\<rparr>"

definition server_sample :: server where
  "server_sample = the (server_with_stats route_crate_sample config_sample logger_sample
     (Some memory_sample) memory_sample None)"

lemma server_sample_built:
  "server_with_stats route_crate_sample config_sample logger_sample (Some memory_sample) memory_sample None
     = Some server_sample"
proof -
  have "server_with_stats route_crate_sample config_sample logger_sample (Some memory_sample) memory_sample None
      \<noteq> None" by (simp add: server_with_stats_def server_entry_def Let_def list_ex_iff image_iff)
  then show ?thesis by (auto simp: server_sample_def)
qed

lemma config_sample_ok: "config_ok config_sample"
  by code_simp


end
