(* ===== verification/Server_Runs.thy ===== *)
theory Server_Runs
  imports Server
begin

text \<open>
  All requests of a server running side by side. A state is what the server keeps together
  with the requests that were sent to other servers and are not answered yet; a step is the
  first half of a handler, the second half of one that waits, or the end of a handler whose
  client went away. Between the halves of one handler any others may run.
\<close>

section \<open>Steps\<close>

type_synonym in_flight = "string \<times> string \<times> outbound \<times> waiting"

datatype label = Arrived request | Answered string waiting upstream_result | Abandoned

inductive sys_step ::
  "'x route_crate_scheme \<Rightarrow> server \<Rightarrow> server_state \<times> in_flight list \<Rightarrow> label
   \<Rightarrow> server_state \<times> in_flight list \<Rightarrow> bool"
  for X :: "'x route_crate_scheme" and sv :: server where
  answer_now: "server_begin X sv io s req conn = (Inl resp, s', effs)
    \<Longrightarrow> sys_step X sv (s, ws) (Arrived req) (s', ws)"
| send: "server_begin X sv io s req conn = (Inr (out, w), s', effs)
    \<Longrightarrow> sys_step X sv (s, ws) (Arrived req) (s', (server_key X req, rq_path req, out, w) # ws)"
| answered: "(key, path, out, w) \<in> set ws \<Longrightarrow> sv_routes sv key = Some rp
    \<Longrightarrow> server_finish X rp io io' now s key path w r = (resp, s', tasks, effs)
    \<Longrightarrow> sys_step X sv (s, ws) (Answered key w r) (s', remove1 (key, path, out, w) ws)"
| abandoned: "f \<in> set ws \<Longrightarrow> sys_step X sv (s, ws) Abandoned (s, remove1 f ws)"

inductive sys_run ::
  "'x route_crate_scheme \<Rightarrow> server \<Rightarrow> server_state \<times> in_flight list \<Rightarrow> label list
   \<Rightarrow> server_state \<times> in_flight list \<Rightarrow> bool"
  for X :: "'x route_crate_scheme" and sv :: server and init :: "server_state \<times> in_flight list" where
  start: "sys_run X sv init [] init"
| next_step: "sys_run X sv init ls a \<Longrightarrow> sys_step X sv a l b \<Longrightarrow> sys_run X sv init (ls @ [l]) b"

interpretation sys: labelled_runs "sys_step X sv" "sys_run X sv" for X sv
proof unfold_locales
  show "sys_run X sv a [] b \<longleftrightarrow> b = a" for a b
    by (auto elim: sys_run.cases intro: sys_run.start)
  show "sys_run X sv a (ls @ [l]) c \<longleftrightarrow> (\<exists>b. sys_run X sv a ls b \<and> sys_step X sv b l c)" for a ls l c
  proof
    assume "sys_run X sv a (ls @ [l]) c"
    then show "\<exists>b. sys_run X sv a ls b \<and> sys_step X sv b l c" by (cases rule: sys_run.cases) auto
  qed (auto intro: sys_run.next_step)
qed

section \<open>What a handler does to the state\<close>

definition announces ::
  "'x route_crate_scheme \<Rightarrow> route_proxy \<Rightarrow> waiting \<Rightarrow> upstream_result \<Rightarrow> string \<Rightarrow> bool" where
  "announces X rp w r h \<longleftrightarrow>
     (\<exists>wu token resp body reg e. w = WaitUpstream wu token \<and> wu_buffer wu \<and> r = Answer resp
        \<and> read_body X (rp_cfg rp) (us_frames resp) (remove_hop_by_hop X (us_headers resp)) = Inr body
        \<and> e \<in> set (fst (snd (rewrite_playback_info (json_str X) (rp_rewriter rp) reg body)))
        \<and> e_host e = h)"

text \<open>The sessions that may appear, and how the rest of the state may change.\<close>

definition state_grows ::
  "(session \<Rightarrow> bool) \<Rightarrow> (string \<Rightarrow> bool) \<Rightarrow> proxy_state \<Rightarrow> proxy_state \<Rightarrow> bool" where
  "state_grows new_session new_host st st' \<longleftrightarrow>
     (\<forall>t e. st_sessions (ps_store st') t = Some e \<longrightarrow> st_sessions (ps_store st) t = Some e \<or> new_session e)
     \<and> st_secret (ps_store st') = st_secret (ps_store st)
     \<and> (\<forall>h. registry_lookup (ps_registry st) h \<noteq> None \<longrightarrow> registry_lookup (ps_registry st') h \<noteq> None)
     \<and> (\<forall>h. registry_lookup (ps_registry st') h \<noteq> None \<longrightarrow>
          registry_lookup (ps_registry st) h \<noteq> None \<or> new_host h)"

lemma state_grows_refl [simp]: "state_grows p q st st"
  by (simp add: state_grows_def)

lemma state_grows_trans:
  assumes "state_grows p q a b" "state_grows p q b c"
  shows "state_grows p q a c"
  using assms unfolding state_grows_def by metis

lemma state_grows_mono:
  assumes "state_grows p q a b" "\<And>e. p e \<Longrightarrow> p' e" "\<And>h. q h \<Longrightarrow> q' h"
  shows "state_grows p' q' a b"
  using assms unfolding state_grows_def by metis

lemma logout_session_grows: "state_grows p q st (logout_session X io token st)"
proof (cases token)
  case (Some t)
  then show ?thesis
    by (auto simp: state_grows_def logout_session_def store_remove_def Let_def
        split: prod.splits if_splits)
qed (simp add: logout_session_def)

definition allowed_session :: "'x route_crate_scheme \<Rightarrow> route_proxy \<Rightarrow> session \<Rightarrow> bool" where
  "allowed_session X rp e \<longleftrightarrow>
     s_route e = rp_route_key rp \<and> unicode_lower X (s_user_name e) \<in> set (rp_allowed_users rp)"

lemma store_add_grows:
  assumes "store_add X io s t sess fs = (res, s', fs')"
  shows "(st_sessions s' t' = Some e \<longrightarrow> st_sessions s t' = Some e \<or> e = sess)
    \<and> st_secret s' = st_secret s"
  using assms by (auto simp: store_add_def Let_def split: if_splits prod.splits)

lemma login_response_grows:
  assumes "handle_login_response X rp io now st resp p = (r, st', tasks)"
  shows "state_grows (allowed_session X rp) q st st'"
  using assms
proof (cases rule: login_response_cases)
  case (granted body token user uid res fs)
  have "allowed_session X rp (session_new now (rp_route_key rp) uid user)"
    using granted(1) by (simp add: allowed_session_def session_new_def login_grants_def)
  then show ?thesis
    using store_add_grows [OF granted(2)] granted(3) by (auto simp: state_grows_def)
qed simp

lemma rewrite_grows:
  assumes "route_rewrite_playback_info X rp st resp = (r, st')"
  shows "state_grows p (\<lambda>h. \<exists>body reg. read_body X (rp_cfg rp) (us_frames resp) (us_headers resp) = Inr body
      \<and> (\<exists>e\<in>set (fst (snd (rewrite_playback_info (json_str X) (rp_rewriter rp) reg body))). e_host e = h)) st st'"
proof (cases "read_body X (rp_cfg rp) (us_frames resp) (us_headers resp)")
  case (Inl e)
  with assms show ?thesis by (auto simp: route_rewrite_playback_info_def)
next
  case (Inr body)
  obtain out events reg' where w: "rewrite_playback_info (json_str X) (rp_rewriter rp) (ps_registry st) body
      = (out, events, reg')" by (metis surj_pair)
  have st': "st' = st\<lparr>ps_registry := reg'\<rparr>"
    using assms Inr w by (auto simp: route_rewrite_playback_info_def Let_def)
  have k: "registry_lookup reg' h \<noteq> None \<longleftrightarrow>
      registry_lookup (ps_registry st) h \<noteq> None \<or> (\<exists>e\<in>set events. e_host e = h)" for h
    using playback_registry [OF w] .
  have "events = fst (snd (rewrite_playback_info (json_str X) (rp_rewriter rp) (ps_registry st) body))"
    using w by simp
  with k Inr show ?thesis unfolding state_grows_def st' by auto
qed

lemma upstream_finish_grows:
  assumes "upstream_finish X rp io now st w r = (resp, st', tasks)"
  shows "state_grows (allowed_session X rp) (announces X rp (WaitUpstream w token) r) st st'"
proof (cases r)
  case (Answer a)
  let ?a = "a\<lparr>us_headers := remove_hop_by_hop X (us_headers a)\<rparr>"
  consider (login) "us_status a \<noteq> 101" "wu_login w"
    | (rewrite) "us_status a \<noteq> 101" "\<not> wu_login w" "wu_buffer w"
        "is_json_content_type X (us_headers ?a)"
    | (other) "st' = st"
    using assms Answer
    by (auto simp: upstream_finish_def send_upstream_def Let_def split: if_splits prod.splits)
  then show ?thesis
  proof cases
    case login
    then have "handle_login_response X rp io now st ?a (wu_out_path w) = (resp, st', tasks)"
      using assms Answer by (simp add: upstream_finish_def send_upstream_def Let_def)
    then show ?thesis by (rule login_response_grows)
  next
    case rewrite
    then obtain b where b: "route_rewrite_playback_info X rp st ?a = (b, st')"
      using assms Answer
      by (auto simp: upstream_finish_def send_upstream_def Let_def split: prod.splits)
    show ?thesis
      by (rule state_grows_mono [OF rewrite_grows [OF b]])
        (use rewrite Answer in \<open>auto simp: announces_def\<close>)
  qed simp
qed (use assms in \<open>auto simp: upstream_finish_def send_upstream_def\<close>)

lemma handle_finish_grows:
  assumes "handle_finish X rp io io' now st path w r = (resp, st', tasks, effs)"
  shows "state_grows (allowed_session X rp) (announces X rp w r) st st'"
proof (cases w)
  case WaitResource
  with assms show ?thesis by (auto simp: handle_finish_def Let_def split: prod.splits)
next
  case (WaitUpstream wu token)
  obtain a st1 ts where u: "upstream_finish X rp io now st wu r = (a, st1, ts)" by (metis surj_pair)
  have "st' = logout_session X io' token st1"
    using assms u WaitUpstream by (auto simp: handle_finish_def Let_def split: prod.splits)
  then show ?thesis
    using state_grows_trans [OF upstream_finish_grows [OF u] logout_session_grows] WaitUpstream by simp
qed

lemma handle_begin_grows:
  assumes "handle_begin X rp io st req conn = (r, st', effs)"
  shows "state_grows p q st st'"
  using assms logout_session_grows
  by (auto simp: handle_begin_def Let_def split: sum.splits prod.splits)

section \<open>Where requests go\<close>

definition sent_ok ::
  "'x route_crate_scheme \<Rightarrow> route_proxy \<Rightarrow> (string \<Rightarrow> bool) \<Rightarrow> outbound \<Rightarrow> waiting \<Rightarrow> bool" where
  "sent_ok X rp known out w \<longleftrightarrow>
     (case w of
        WaitUpstream _ _ \<Rightarrow> (\<exists>req. ob_target out = upstream_target rp req)
      | WaitResource \<Rightarrow>
          (\<exists>scheme host. is_http_scheme scheme \<and> CHR ''/'' \<notin> set host \<and> known host
             \<and> prefix (scheme @ ''://'' @ host @ ''/'') (ob_target out)))"

lemma upstream_sent_ok:
  "begin_upstream X rp req conn token = Inr (out, w) \<Longrightarrow> sent_ok X rp known out w"
  by (auto simp: begin_upstream_def upstream_begin_def sent_ok_def Let_def
      split: sum.splits prod.splits option.splits)

lemma resource_sent_ok:
  assumes "begin_resource X rp st req = Inr (out, w)" "prefix RESOURCE_PREFIX (rq_path req)"
  shows "sent_ok X rp (\<lambda>h. registry_lookup (ps_registry st) h \<noteq> None) out w"
proof -
  have b: "resource_begin X rp st req = Inr out" "w = WaitResource"
    using assms(1) by (auto simp: begin_resource_def split: sum.splits)
  from resource_begin_Inr [OF b(1) assms(2)] obtain sig scheme host rest where
    g: "resource_granted X rp st req sig scheme host rest" by blast
  have "ob_target out = (scheme @ ''://'' @ host @ ''/'') @ rest
      @ (case rq_query req of Some q \<Rightarrow> ''?'' @ q | None \<Rightarrow> [])"
    using resource_begin_granted [OF g] b by (auto simp: resource_outbound_def resource_target_def)
  then have "prefix (scheme @ ''://'' @ host @ ''/'') (ob_target out)" by (metis prefixI)
  with g b(2) show ?thesis
    unfolding sent_ok_def resource_granted_def resource_path_ok_def by auto
qed

lemma handle_begin_sent_ok:
  assumes "handle_begin X rp io st req conn = (Inr (out, w), st', effs)"
  shows "sent_ok X rp (\<lambda>h. registry_lookup (ps_registry st) h \<noteq> None) out w"
proof -
  have c: "handle_checked X rp st req conn = Inr (out, w)" using assms by (simp add: handle_begin_sends)
  then have "client_passes X rp req conn" using handle_checked_sends [of X rp st req conn] by blast
  with c have "(if rp_auth rp then handle_with_auth X rp st req conn else route_request X rp st req conn)
      = Inr (out, w)" by (simp add: handle_checked_passes)
  then show ?thesis
    using resource_sent_ok [of X rp st req out w] upstream_sent_ok [of X rp req conn _ out w]
    by (auto simp: handle_with_auth_def route_request_def Let_def split: if_splits option.splits)
qed

section \<open>Invariants of a run\<close>

definition allowed_somewhere :: "'x route_crate_scheme \<Rightarrow> server \<Rightarrow> session \<Rightarrow> bool" where
  "allowed_somewhere X sv e \<longleftrightarrow> (\<exists>key rp. sv_routes sv key = Some rp \<and> allowed_session X rp e)"

definition announced :: "'x route_crate_scheme \<Rightarrow> server \<Rightarrow> label list \<Rightarrow> string \<Rightarrow> string \<Rightarrow> bool" where
  "announced X sv ls key h \<longleftrightarrow>
     (\<exists>w r rp. Answered key w r \<in> set ls \<and> sv_routes sv key = Some rp \<and> announces X rp w r h)"

lemma route_update_grows:
  assumes "state_grows p q (route_view s k) st" "\<And>h. key = k \<Longrightarrow> q h \<Longrightarrow> q' h"
  shows "state_grows p q' (route_view s key) (route_view (route_update s k st) key)"
  using assms by (cases "key = k") (auto simp: state_grows_def route_view_def route_update_def)

lemma server_begin_grows:
  assumes "server_begin X sv io s req conn = (r, s', effs)"
  shows "state_grows p q (route_view s key) (route_view s' key)"
proof (cases "sv_routes sv (server_key X req)")
  case (Some rp)
  obtain r' st effs' where h: "handle_begin X rp io (route_view s (server_key X req)) req conn = (r', st, effs')"
    by (metis surj_pair)
  then have s': "s' = route_update s (server_key X req) st" using assms Some by (simp add: server_begin_def Let_def)
  show ?thesis unfolding s' by (rule route_update_grows [OF handle_begin_grows [OF h, of p q]])
qed (use assms in \<open>simp add: server_begin_def\<close>)

lemma sys_step_grows:
  assumes "sys_step X sv (s, ws) l (s', ws')"
  shows "state_grows (allowed_somewhere X sv) (announced X sv [l] key) (route_view s key) (route_view s' key)"
  using assms
proof (cases rule: sys_step.cases)
  case (answered k path out w rp io io' now r resp tasks effs)
  obtain a st ts es where h: "handle_finish X rp io io' now (route_view s k) path w r = (a, st, ts, es)"
    by (metis surj_pair)
  then have s': "s' = route_update s k st" using answered by (simp add: server_finish_def)
  have "state_grows (allowed_somewhere X sv) (announces X rp w r) (route_view s k) st"
    by (rule state_grows_mono [OF handle_finish_grows [OF h]])
      (use answered in \<open>auto simp: allowed_somewhere_def\<close>)
  then show ?thesis unfolding s'
    by (rule route_update_grows) (use answered in \<open>auto simp: announced_def\<close>)
qed (auto intro: server_begin_grows)

lemma announced_append:
  "announced X sv (ls @ ls') key h \<longleftrightarrow> announced X sv ls key h \<or> announced X sv ls' key h"
  by (auto simp: announced_def)

lemma sys_run_grows:
  assumes "sys_run X sv init ls fin"
  shows "state_grows (allowed_somewhere X sv) (announced X sv ls key)
    (route_view (fst init) key) (route_view (fst fin) key)"
  using assms
proof (induction rule: sys_run.induct)
  case (next_step ls a l b)
  let ?q = "announced X sv (ls @ [l]) key"
  have "state_grows (allowed_somewhere X sv) ?q (route_view (fst init) key) (route_view (fst a) key)"
    using next_step.IH by (rule state_grows_mono) (auto simp: announced_append)
  moreover have "state_grows (allowed_somewhere X sv) ?q (route_view (fst a) key) (route_view (fst b) key)"
    using next_step.hyps(2) sys_step_grows [of X sv "fst a" "snd a" l "fst b" "snd b" key]
      state_grows_mono [of "allowed_somewhere X sv" "announced X sv [l] key" _ _ "allowed_somewhere X sv" ?q]
    by (simp add: announced_append)
  ultimately show ?case by (rule state_grows_trans)
qed simp

definition flight_ok :: "'x route_crate_scheme \<Rightarrow> server \<Rightarrow> (string \<Rightarrow> string \<Rightarrow> bool) \<Rightarrow> in_flight \<Rightarrow> bool" where
  "flight_ok X sv known f \<longleftrightarrow>
     (case f of (key, path, out, w) \<Rightarrow>
        \<exists>rp. sv_routes sv key = Some rp \<and> sent_ok X rp (known key) out w)"

lemma sent_ok_mono:
  assumes "sent_ok X rp p out w" "\<And>h. p h \<Longrightarrow> p' h"
  shows "sent_ok X rp p' out w"
  using assms unfolding sent_ok_def by (auto split: waiting.splits)

lemma flight_ok_mono:
  assumes "flight_ok X sv p f" "\<And>k h. p k h \<Longrightarrow> p' k h"
  shows "flight_ok X sv p' f"
  using assms sent_ok_mono unfolding flight_ok_def by (cases f) (simp, blast)

lemma sys_step_flights:
  assumes "sys_step X sv (s, ws) l (s', ws')" "f \<in> set ws'"
  shows "f \<in> set ws \<or> flight_ok X sv (\<lambda>k h. registry_lookup (sy_registry s k) h \<noteq> None) f"
  using assms(1)
proof (cases rule: sys_step.cases)
  case (send io req conn out w effs)
  then show ?thesis
    using assms(2) handle_begin_sent_ok [of X _ io "route_view s (server_key X req)" req conn out w]
    by (fastforce simp: flight_ok_def server_begin_def route_view_def Let_def
        split: option.splits prod.splits)
qed (use assms(2) in \<open>auto dest: set_remove1_subset [THEN subsetD]\<close>)

lemma sys_run_flights:
  assumes "sys_run X sv (s0, []) ls fin" "f \<in> set (snd fin)"
  shows "flight_ok X sv (\<lambda>k h. registry_lookup (sy_registry s0 k) h \<noteq> None \<or> announced X sv ls k h) f"
  using assms
proof (induction rule: sys_run.induct)
  case (next_step ls a l b)
  have known: "registry_lookup (sy_registry (fst a) k) h \<noteq> None \<Longrightarrow>
      registry_lookup (sy_registry s0 k) h \<noteq> None \<or> announced X sv (ls @ [l]) k h" for k h
    using sys_run_grows [OF next_step.hyps(1), of k]
    by (auto simp: state_grows_def route_view_def announced_append)
  from sys_step_flights [of X sv "fst a" "snd a" l "fst b" "snd b" f] next_step.hyps(2) next_step.prems
  have "f \<in> set (snd a) \<or> flight_ok X sv (\<lambda>k h. registry_lookup (sy_registry (fst a) k) h \<noteq> None) f"
    by simp
  then show ?case
  proof
    assume "f \<in> set (snd a)"
    from next_step.IH [OF this] show ?thesis
      by (rule flight_ok_mono) (auto simp: announced_append)
  next
    assume "flight_ok X sv (\<lambda>k h. registry_lookup (sy_registry (fst a) k) h \<noteq> None) f"
    then show ?thesis by (rule flight_ok_mono) (use known in blast)
  qed
qed simp

lemma initial_registry:
  "registry_lookup (sy_registry (server_initial cfg store fs) k) h \<noteq> None \<longleftrightarrow>
   h \<in> set (c_allowed_hosts cfg) \<and> h \<noteq> []"
  by (simp add: server_initial_def route_registry_def registry_new_lookup)

text \<open>
  C2: The proxy is not an open relay. However requests, answers and aborted connections are
  interleaved, every request that a handler has sent and waits for goes either to the upstream server of the
  route it came in on, or to a host that is configured as allowed or that occurs in a URL of
  an upstream answer that this same route has rewritten earlier in the run.
\<close>

theorem no_open_relay:
  assumes "sys_run X sv (server_initial cfg store fs, []) ls (s, ws)"
    and "(key, path, out, w) \<in> set ws"
  shows "\<exists>rp. sv_routes sv key = Some rp
    \<and> (case w of
         WaitUpstream _ _ \<Rightarrow> \<exists>req. ob_target out = upstream_target rp req
       | WaitResource \<Rightarrow> \<exists>scheme host. is_http_scheme scheme \<and> CHR ''/'' \<notin> set host
           \<and> prefix (scheme @ ''://'' @ host @ ''/'') (ob_target out)
           \<and> (host \<in> set (c_allowed_hosts cfg) \<or> announced X sv ls key host))"
proof -
  from sys_run_flights [OF assms(1), of "(key, path, out, w)"] assms(2) obtain rp where
    rp: "sv_routes sv key = Some rp"
    and s: "sent_ok X rp (\<lambda>h. registry_lookup (sy_registry (server_initial cfg store fs) key) h \<noteq> None
      \<or> announced X sv ls key h) out w"
    by (auto simp: flight_ok_def)
  have "sent_ok X rp (\<lambda>h. h \<in> set (c_allowed_hosts cfg) \<or> announced X sv ls key h) out w"
    by (rule sent_ok_mono [OF s]) (use initial_registry in blast)
  with rp show ?thesis unfolding sent_ok_def by (cases w) auto
qed

definition sessions_ok :: "'x route_crate_scheme \<Rightarrow> config \<Rightarrow> store \<Rightarrow> bool" where
  "sessions_ok X cfg st \<longleftrightarrow>
     (\<forall>t e. st_sessions st t = Some e \<longrightarrow> s_route e \<in> set (route_names cfg)
        \<and> unicode_lower X (s_user_name e) \<in> unicode_lower X ` set (c_allowed_users cfg))"

lemma server_allowed:
  assumes "server_with_stats X cfg lg store memory stats = Some sv" "allowed_somewhere X sv e"
  shows "s_route e \<in> set (route_names cfg)
    \<and> unicode_lower X (s_user_name e) \<in> unicode_lower X ` set (c_allowed_users cfg)"
proof -
  from assms(2) obtain key rp where r: "sv_routes sv key = Some rp" "allowed_session X rp e"
    by (auto simp: allowed_somewhere_def)
  from server_routes_Some [OF assms(1) r(1)] obtain rt where
    "rt \<in> set (c_routes cfg)" "rp = server_route X cfg lg (server_auth cfg store memory) stats rt" by blast
  with r(2) show ?thesis
    by (auto simp: allowed_session_def server_route_def route_proxy_new_facts route_names_keys route_key_of_def)
qed

text \<open>
  C8: Sessions belong to allowed users at every moment. Starting from a store whose sessions
  all belong to configured users and routes (an empty one, for instance), this still holds
  after any interleaving of requests and answers, with any of the saves failing; and the
  secret that signs resource URLs never changes.
\<close>

theorem sessions_belong_to_allowed_users:
  assumes "server_with_stats X cfg lg store memory stats = Some sv"
    and "sys_run X sv (server_initial cfg st0 fs, []) ls (s, ws)" "sessions_ok X cfg st0"
  shows "sessions_ok X cfg (sy_store s) \<and> st_secret (sy_store s) = st_secret st0"
proof -
  have g: "state_grows (allowed_somewhere X sv) (announced X sv ls [])
      (route_view (server_initial cfg st0 fs) []) (route_view s [])"
    using sys_run_grows [OF assms(2), of "[]"] by simp
  have "st_sessions st0 t = Some e \<or> allowed_somewhere X sv e" if "st_sessions (sy_store s) t = Some e" for t e
    using g that by (auto simp: state_grows_def route_view_def server_initial_def)
  then have "sessions_ok X cfg (sy_store s)"
    using assms(3) server_allowed [OF assms(1)] unfolding sessions_ok_def by blast
  with g show ?thesis by (simp add: state_grows_def route_view_def server_initial_def)
qed

text \<open>
  A signed link keeps working. When a signed resource request is granted at some moment
  of a run, it is granted at every later moment, whatever other requests do: nothing removes
  a host from a registry or changes the secret while the server runs.
\<close>

lemma links_keep_working:
  assumes "sys_run X sv (s, ws) ls (s', ws')"
    and "resource_granted X rp (route_view s key) req (Some sig) scheme host rest"
  shows "resource_begin X rp (route_view s' key) req = Inr (resource_outbound X rp req scheme host rest)"
proof (rule resource_begin_granted)
  have g: "state_grows (allowed_somewhere X sv) (announced X sv ls key) (route_view s key) (route_view s' key)"
    using sys_run_grows [OF assms(1), of key] by simp
  then have "store_verify X (ps_store (route_view s' key)) sig parts
      = store_verify X (ps_store (route_view s key)) sig parts" for parts
    by (intro verify_same_secret) (simp add: state_grows_def)
  with g assms(2) show "resource_granted X rp (route_view s' key) req (Some sig) scheme host rest"
    by (auto simp: resource_granted_def may_use_resource_def state_grows_def)
qed

section \<open>A sample run\<close>

definition signed_request :: request where
  "signed_request = request_sample (resource_path (Some signature_sample) ''http'' ''cdn'' ''movie'') None"

lemma sample_step:
  "\<exists>s out. sys_step route_crate_sample server_sample
     (server_initial config_sample memory_sample Map.empty, []) (Arrived signed_request)
     (s, [(''p.io'', rq_path signed_request, out, WaitResource)])"
proof -
  let ?i = "server_initial config_sample memory_sample Map.empty"
  let ?b = "server_begin route_crate_sample server_sample io_sample ?i signed_request conn_sample"
  have "\<not> isl (fst ?b) \<and> snd (projr (fst ?b)) = WaitResource" by code_simp
  then have b: "?b = (Inr (fst (projr (fst ?b)), WaitResource), fst (snd ?b), snd (snd ?b))"
    by (metis prod.collapse sum.collapse(2))
  have k: "server_key route_crate_sample signed_request = ''p.io''" by code_simp
  from sys_step.send [OF b, of "[]"] show ?thesis unfolding k by blast
qed

lemma sample_run:
  "\<exists>s out. sys_run route_crate_sample server_sample
     (server_initial config_sample memory_sample Map.empty, []) [Arrived signed_request]
     (s, [(''p.io'', rq_path signed_request, out, WaitResource)])"
proof -
  obtain s out where "sys_step route_crate_sample server_sample
     (server_initial config_sample memory_sample Map.empty, []) (Arrived signed_request)
     (s, [(''p.io'', rq_path signed_request, out, WaitResource)])" using sample_step by blast
  from sys_run.next_step [OF sys_run.start this] show ?thesis unfolding append_Nil by blast
qed

theorem no_open_relay_witness:
  "\<exists>s out ls scheme host. sys_run route_crate_sample server_sample
      (server_initial config_sample memory_sample Map.empty, []) ls
      (s, [(''p.io'', rq_path signed_request, out, WaitResource)])
    \<and> prefix (scheme @ ''://'' @ host @ ''/'') (ob_target out)
    \<and> (host \<in> set (c_allowed_hosts config_sample) \<or> announced route_crate_sample server_sample ls ''p.io'' host)"
proof -
  obtain s out where r: "sys_run route_crate_sample server_sample
     (server_initial config_sample memory_sample Map.empty, []) [Arrived signed_request]
     (s, [(''p.io'', rq_path signed_request, out, WaitResource)])" using sample_run by blast
  from no_open_relay [OF r, of "''p.io''" "rq_path signed_request" out WaitResource]
  have "\<exists>scheme host. prefix (scheme @ ''://'' @ host @ ''/'') (ob_target out)
      \<and> (host \<in> set (c_allowed_hosts config_sample)
         \<or> announced route_crate_sample server_sample [Arrived signed_request] ''p.io'' host)"
    by auto
  with r show ?thesis by blast
qed

theorem sessions_belong_to_allowed_users_witness:
  "\<exists>s ws. sys_run route_crate_sample server_sample
      (server_initial config_sample memory_sample Map.empty, []) [Arrived signed_request] (s, ws)
    \<and> sessions_ok route_crate_sample config_sample (sy_store s)"
proof -
  obtain s ws where r: "sys_run route_crate_sample server_sample
     (server_initial config_sample memory_sample Map.empty, []) [Arrived signed_request] (s, ws)"
    using sample_run by blast
  have "unicode_lower route_crate_sample ''Ann'' \<in> unicode_lower route_crate_sample ` set (c_allowed_users config_sample)"
    by (simp add: config_sample_def)
  moreover have "''p.io'' \<in> set (route_names config_sample)" by code_simp
  ultimately have "sessions_ok route_crate_sample config_sample memory_sample"
    by (auto simp: sessions_ok_def memory_sample_def split: if_splits)
  from sessions_belong_to_allowed_users [OF server_sample_built r this] r show ?thesis by blast
qed

end
