(* ===== verification/Access_Control.thy ===== *)
theory Access_Control
  imports Server_Runs
begin

text \<open>
  What the server promises of access, without its machinery: who holds which token, and which
  hosts each route may fetch from. The interleaved handlers refine it.
\<close>

section \<open>The abstract machine\<close>

record access =
  ac_sessions :: "string \<rightharpoonup> string \<times> string"
  ac_hosts :: "string \<Rightarrow> string set"

text \<open>
  A token is given to a user of a route the policy allows, a token is withdrawn, hosts become
  known to a route.
\<close>

inductive access_step :: "(string \<Rightarrow> string \<Rightarrow> bool) \<Rightarrow> access \<Rightarrow> access \<Rightarrow> bool"
  for may :: "string \<Rightarrow> string \<Rightarrow> bool" where
  grant: "may r u \<Longrightarrow> t \<noteq> [] \<Longrightarrow> access_step may a (a\<lparr>ac_sessions := (ac_sessions a)(t \<mapsto> (r, u))\<rparr>)"
| revoke: "access_step may a (a\<lparr>ac_sessions := (ac_sessions a)(t := None)\<rparr>)"
| learn: "access_step may a (a\<lparr>ac_hosts := (ac_hosts a)(k := ac_hosts a k \<union> H)\<rparr>)"

inductive_cases access_stepE: "access_step may a b"

definition access_ok :: "(string \<Rightarrow> string \<Rightarrow> bool) \<Rightarrow> access \<Rightarrow> bool" where
  "access_ok may a \<longleftrightarrow> (\<forall>t r u. ac_sessions a t = Some (r, u) \<longrightarrow> may r u)"

lemma access_step_ok: "access_step may a b \<Longrightarrow> access_ok may a \<Longrightarrow> access_ok may b"
  by (erule access_stepE) (auto simp: access_ok_def)

lemma access_steps_ok: "(access_step may)\<^sup>*\<^sup>* a b \<Longrightarrow> access_ok may a \<Longrightarrow> access_ok may b"
  by (induction rule: rtranclp_induct) (auto intro: access_step_ok)

section \<open>The abstraction\<close>

definition abs_sessions :: "store \<Rightarrow> string \<rightharpoonup> string \<times> string" where
  "abs_sessions st t = map_option (\<lambda>e. (s_route e, s_user_name e)) (st_sessions st t)"

definition abs_hosts :: "registry \<Rightarrow> string set" where
  "abs_hosts reg = {h. registry_lookup reg h \<noteq> None}"

definition abs_state :: "server_state \<Rightarrow> access" where
  "abs_state s = \<lparr>ac_sessions = abs_sessions (sy_store s), ac_hosts = (\<lambda>k. abs_hosts (sy_registry s k))\<rparr>"

definition policy :: "'x route_crate_scheme \<Rightarrow> config \<Rightarrow> string \<Rightarrow> string \<Rightarrow> bool" where
  "policy X cfg r u \<longleftrightarrow>
     r \<in> set (route_names cfg) \<and> unicode_lower X u \<in> unicode_lower X ` set (c_allowed_users cfg)"

lemma abs_sessions_upd:
  "abs_sessions (s\<lparr>st_sessions := (st_sessions s)(t \<mapsto> e)\<rparr>)
     = (abs_sessions s)(t \<mapsto> (s_route e, s_user_name e))"
  "abs_sessions (s\<lparr>st_sessions := (st_sessions s)(t := None)\<rparr>) = (abs_sessions s)(t := None)"
  by (auto simp: abs_sessions_def fun_eq_iff)

section \<open>One handler\<close>

text \<open>A change of a route's view that is some steps of the abstract machine.\<close>

definition refines ::
  "(string \<Rightarrow> string \<Rightarrow> bool) \<Rightarrow> server_state \<Rightarrow> string \<Rightarrow> proxy_state \<Rightarrow> proxy_state \<Rightarrow> bool" where
  "refines may s key st st' \<longleftrightarrow>
     (access_step may)\<^sup>*\<^sup>* (abs_state (route_update s key st)) (abs_state (route_update s key st'))"

lemma refines_refl [simp]: "refines may s key st st"
  by (simp add: refines_def)

lemma refines_trans: "refines may s key a b \<Longrightarrow> refines may s key b c \<Longrightarrow> refines may s key a c"
  by (simp add: refines_def)

lemma refines_sessions:
  assumes "\<And>H. access_step may \<lparr>ac_sessions = abs_sessions (ps_store st), ac_hosts = H\<rparr>
      \<lparr>ac_sessions = abs_sessions (ps_store st'), ac_hosts = H\<rparr>"
    and "ps_registry st' = ps_registry st"
  shows "refines may s key st st'"
proof -
  have "abs_state (route_update s key a) = \<lparr>ac_sessions = abs_sessions (ps_store a),
      ac_hosts = (\<lambda>k. abs_hosts (((sy_registry s)(key := ps_registry a)) k))\<rparr>" for a
    by (simp add: abs_state_def route_update_def)
  then show ?thesis
    unfolding refines_def assms(2) by (simp only: assms(2)) (rule r_into_rtranclp, rule assms(1))
qed

lemma refines_logout: "refines may s key st (logout_session X io token st)"
proof (cases token)
  case (Some t)
  show ?thesis
  proof (cases "st_sessions (ps_store st) t = None")
    case True
    then show ?thesis using Some by (simp add: logout_session_def store_remove_def)
  next
    case False
    have "ps_store (logout_session X io token st)
        = (ps_store st)\<lparr>st_sessions := (st_sessions (ps_store st))(t := None)\<rparr>"
      "ps_registry (logout_session X io token st) = ps_registry st"
      using Some False by (auto simp: logout_session_def store_remove_def Let_def split: prod.splits)
    then show ?thesis
      using access_step.revoke [of may "\<lparr>ac_sessions = abs_sessions (ps_store st), ac_hosts = H\<rparr>" t for H]
      by (intro refines_sessions) (simp_all add: abs_sessions_upd)
  qed
qed (simp add: logout_session_def)

lemma refines_registry:
  assumes "ps_store st' = ps_store st" "abs_hosts (ps_registry st') = abs_hosts (ps_registry st) \<union> H"
  shows "refines may s key st st'"
proof -
  let ?a = "abs_state (route_update s key st)"
  have "abs_state (route_update s key st') = ?a\<lparr>ac_hosts := (ac_hosts ?a)(key := ac_hosts ?a key \<union> H)\<rparr>"
    using assms by (auto simp: abs_state_def route_update_def fun_eq_iff)
  then show ?thesis by (simp add: refines_def access_step.learn r_into_rtranclp)
qed

definition permits :: "(string \<Rightarrow> string \<Rightarrow> bool) \<Rightarrow> 'x route_crate_scheme \<Rightarrow> route_proxy \<Rightarrow> bool" where
  "permits may X rp \<longleftrightarrow> (\<forall>e. allowed_session X rp e \<longrightarrow> may (s_route e) (s_user_name e))"

lemma refines_login:
  assumes "handle_login_response X rp io now st resp p = (r, st', tasks)"
    and "permits may X rp"
  shows "refines may s key st st'"
  using assms(1)
proof (cases rule: login_response_cases)
  case (granted body token user uid res fs)
  let ?e = "session_new now (rp_route_key rp) uid user"
  have t: "token \<noteq> []" and "allowed_session X rp ?e"
    using granted(1) by (auto simp: allowed_session_def session_new_def login_grants_def)
  then have e: "may (s_route ?e) (s_user_name ?e)" using assms(2) unfolding permits_def by blast
  have "ps_store st' = (ps_store st)\<lparr>st_sessions := (st_sessions (ps_store st))(token \<mapsto> ?e)\<rparr>"
    using granted(2) t by (auto simp: store_add_def Let_def split: prod.splits)
  then show ?thesis
    using access_step.grant [of may "s_route ?e" "s_user_name ?e" token
        "\<lparr>ac_sessions = abs_sessions (ps_store st), ac_hosts = H\<rparr>" for H] e t granted(3)
    by (intro refines_sessions) (simp_all add: abs_sessions_upd)
qed simp

lemma refines_rewrite:
  assumes "route_rewrite_playback_info X rp st resp = (r, st')"
  shows "refines may s key st st'"
proof (cases "read_body X (rp_cfg rp) (us_frames resp) (us_headers resp)")
  case (Inl e)
  with assms show ?thesis by (auto simp: route_rewrite_playback_info_def)
next
  case (Inr body)
  obtain out events reg' where w: "rewrite_playback_info (json_str X) (rp_rewriter rp) (ps_registry st) body
      = (out, events, reg')" by (metis surj_pair)
  have st': "st' = st\<lparr>ps_registry := reg'\<rparr>"
    using assms Inr w by (auto simp: route_rewrite_playback_info_def Let_def)
  show ?thesis
    by (rule refines_registry [of _ _ "e_host ` set events"])
      (use playback_registry [OF w] in \<open>auto simp: st' abs_hosts_def\<close>)
qed

lemma refines_upstream_finish:
  assumes "upstream_finish X rp io now st w r = (resp, st', tasks)"
    and "permits may X rp"
  shows "refines may s key st st'"
proof (cases r)
  case (Answer a)
  let ?a = "a\<lparr>us_headers := remove_hop_by_hop X (us_headers a)\<rparr>"
  consider (login) "handle_login_response X rp io now st ?a (wu_out_path w) = (resp, st', tasks)"
    | (rewrite) b where "route_rewrite_playback_info X rp st ?a = (b, st')"
    | (other) "st' = st"
    using assms(1) Answer
    by (auto simp: upstream_finish_def send_upstream_def Let_def split: if_splits prod.splits)
  then show ?thesis by cases (auto intro: refines_login refines_rewrite assms(2))
qed (use assms in \<open>auto simp: upstream_finish_def send_upstream_def\<close>)

lemma refines_handle_finish:
  assumes "handle_finish X rp io io' now st path w r = (resp, st', tasks, effs)"
    and "permits may X rp"
  shows "refines may s key st st'"
proof (cases w)
  case WaitResource
  with assms(1) show ?thesis by (auto simp: handle_finish_def Let_def split: prod.splits)
next
  case (WaitUpstream wu token)
  obtain a st1 ts where u: "upstream_finish X rp io now st wu r = (a, st1, ts)" by (metis surj_pair)
  have "st' = logout_session X io' token st1"
    using assms(1) u WaitUpstream by (auto simp: handle_finish_def Let_def split: prod.splits)
  then show ?thesis using refines_trans [OF refines_upstream_finish [OF u assms(2)] refines_logout] by simp
qed

lemma refines_handle_begin:
  assumes "handle_begin X rp io st req conn = (r, st', effs)"
  shows "refines may s key st st'"
  using assms refines_logout by (auto simp: handle_begin_def Let_def split: sum.splits prod.splits)

section \<open>The server\<close>

lemma abs_state_view: "abs_state (route_update s key (route_view s key)) = abs_state s"
  by (simp add: abs_state_def route_update_def route_view_def)

lemma refines_steps:
  "refines may s key (route_view s key) st \<Longrightarrow>
   (access_step may)\<^sup>*\<^sup>* (abs_state s) (abs_state (route_update s key st))"
  by (simp add: refines_def abs_state_view)

text \<open>
  C3: The server refines the abstract access control. Every step of the interleaved handlers,
  with all its HTTP, JSON, file and timeout cases, is a sequence of abstract steps that grant a
  token to an allowed user of a configured route, revoke a token, or add hosts to a route; and
  a step that only sends a request on changes nothing.
\<close>

theorem server_refines_access_control:
  assumes "server_with_stats X cfg lg store memory stats = Some sv"
    and "sys_step X sv (s, ws) l (s', ws')"
  shows "(access_step (policy X cfg))\<^sup>*\<^sup>* (abs_state s) (abs_state s')
    \<and> (length ws < length ws' \<longrightarrow> abs_state s' = abs_state s)"
  using assms(2)
proof (cases rule: sys_step.cases)
  case (answer_now io req conn resp effs)
  show ?thesis
  proof (cases "sv_routes sv (server_key X req)")
    case (Some rp)
    obtain r st es where h: "handle_begin X rp io (route_view s (server_key X req)) req conn = (r, st, es)"
      by (metis surj_pair)
    then have "s' = route_update s (server_key X req) st"
      using answer_now Some by (simp add: server_begin_def Let_def)
    with answer_now show ?thesis using refines_steps [OF refines_handle_begin [OF h]] by simp
  qed (use answer_now in \<open>simp add: server_begin_def\<close>)
next
  case (send io req conn out w effs)
  then obtain rp where "s' = route_update s (server_key X req) (route_view s (server_key X req))"
    by (auto simp: server_begin_def handle_begin_sends Let_def split: option.splits prod.splits)
  then show ?thesis by (simp add: abs_state_view)
next
  case (answered k path out w rp io io' now r resp tasks effs)
  obtain a st ts es where h: "handle_finish X rp io io' now (route_view s k) path w r = (a, st, ts, es)"
    by (metis surj_pair)
  have "s' = route_update s k st" using answered h by (simp add: server_finish_def)
  moreover have "permits (policy X cfg) X rp"
    using server_allowed [OF assms(1)] answered
    by (auto simp: permits_def policy_def allowed_somewhere_def)
  ultimately show ?thesis
    using refines_steps [OF refines_handle_finish [OF h]] answered by (auto simp: length_remove1)
next
  case (abandoned f)
  then show ?thesis by (auto simp: length_remove1)
qed

definition answer_label :: "(outbound \<Rightarrow> upstream_result) \<Rightarrow> in_flight \<Rightarrow> label" where
  "answer_label net f = (case f of (key, path, out, w) \<Rightarrow> Answered key w (net out))"

lemma drain:
  assumes "\<forall>f\<in>set ws. sv_routes sv (fst f) \<noteq> None"
  shows "\<exists>s'. sys_run X sv (s, ws) (map (answer_label net) ws) (s', [])"
  using assms
proof (induction ws arbitrary: s)
  case Nil
  then show ?case using sys_run.start [of X sv "(s, [])"] by auto
next
  case (Cons f ws)
  obtain key path out w where f: "f = (key, path, out, w)" by (cases f)
  then obtain rp where rp: "sv_routes sv key = Some rp" using Cons.prems by auto
  obtain resp s1 tasks effs where
    "server_finish X rp io_sample io_sample [] s key path w (net out) = (resp, s1, tasks, effs)"
    by (metis surj_pair)
  from sys_step.answered [OF _ rp this, of out "f # ws"]
  have st: "sys_step X sv (s, f # ws) (answer_label net f) (s1, ws)" by (simp add: f answer_label_def)
  from Cons obtain s' where "sys_run X sv (s1, ws) (map (answer_label net) ws) (s', [])" by fastforce
  with st have "sys_run X sv (s, f # ws) (answer_label net f # map (answer_label net) ws) (s', [])"
    unfolding sys.run_Cons by blast
  then show ?case by auto
qed


theorem server_refines_access_control_witness:
  "\<exists>s ws. sys_run route_crate_sample server_sample
      (server_initial config_sample memory_sample Map.empty, []) [Arrived signed_request] (s, ws)
    \<and> (access_step (policy route_crate_sample config_sample))\<^sup>*\<^sup>*
        (abs_state (server_initial config_sample memory_sample Map.empty)) (abs_state s)"
proof -
  obtain s out where t: "sys_step route_crate_sample server_sample
     (server_initial config_sample memory_sample Map.empty, []) (Arrived signed_request)
     (s, [(''p.io'', rq_path signed_request, out, WaitResource)])" using sample_step by blast
  have r: "sys_run route_crate_sample server_sample
     (server_initial config_sample memory_sample Map.empty, []) [Arrived signed_request]
     (s, [(''p.io'', rq_path signed_request, out, WaitResource)])"
    using sys_run.next_step [OF sys_run.start t] by simp
  from server_refines_access_control [OF server_sample_built t] r show ?thesis by blast
qed


end
