(* ===== verification/Playback.thy ===== *)
theory Playback
  imports Server_Runs
begin

text \<open>
  What the proxy is for, from end to end: a URL in a \<^verbatim>\<open>PlaybackInfo\<close> answer of the upstream server
  becomes a link in the answer to the client, and the link plays what the URL named. The
  theorem goes through the handlers of \<^verbatim>\<open>src/src/server/route.rs\<close>, the rewriter and its registry,
  the signatures, the resource endpoint and the interleaving of all requests.
\<close>

section \<open>Events of a rewrite\<close>

lemma rewrite_loop_events:
  "rewrite_loop js rw body items (out, fin, events, reg) = (out', fin', events', reg') \<Longrightarrow>
   \<forall>e\<in>set events. map_option fst (rewrite_url rw Map.empty (e_original e)) = Some (e_rewritten e, e_scheme e, e_host e) \<Longrightarrow>
   \<forall>e\<in>set events'. map_option fst (rewrite_url rw Map.empty (e_original e)) = Some (e_rewritten e, e_scheme e, e_host e)"
proof (induction items arbitrary: out fin events reg)
  case (Cons item items)
  show ?case
  proof (cases "rewrite_url rw reg (f_value item)")
    case None
    then show ?thesis using Cons by simp
  next
    case (Some p)
    then obtain u s h r where p: "rewrite_url rw reg (f_value item) = Some ((u, s, h), r)"
      by (metis prod.collapse)
    have "map_option fst (rewrite_url rw Map.empty (f_value item)) = Some (u, s, h)"
      using rewrite_url_any_registry [of rw reg "f_value item" Map.empty] p by simp
    moreover obtain out2 fin2 where "rewrite_loop js rw body items (out2, fin2, events @ [\<lparr>e_path = f_path item,
        e_original = f_value item, e_rewritten = u, e_scheme = s, e_host = h\<rparr>], r) = (out', fin', events', reg')"
      using Cons.prems(1) p by (auto simp: Let_def)
    ultimately show ?thesis using Cons.IH Cons.prems(2) by fastforce
  qed
qed simp

lemma playback_event_text:
  assumes "rewrite_playback_info js rw reg body = (out, events, reg')" "e \<in> set events"
  shows "map_option fst (rewrite_url rw Map.empty (e_original e)) = Some (e_rewritten e, e_scheme e, e_host e)"
  using assms(1)
proof (cases rule: playback_cases)
  case (scanned found out0 fin)
  from rewrite_loop_events [OF scanned(3)] assms(2) show ?thesis by simp
qed (use assms(2) in simp)

text \<open>A URL that the rewriter accepts is among the events, with its new form, and its host is known.\<close>

lemma playback_url_event:
  assumes "rewrite_playback_info js rw reg (json_print j) = (out, events, reg')"
    and "json_depth j \<le> MAX_DEPTH" "valid_utf8 (json_print j)" "(path, url) \<in> set (json_urls j [])"
    and "rewrite_url rw Map.empty url = Some ((new, scheme, host), r)"
  shows "\<exists>e\<in>set events. e_path e = path \<and> e_original e = url \<and> e_rewritten e = new"
    and "registry_lookup reg' host \<noteq> None"
    and "\<exists>text. out = Some text \<and> spliced js (json_print j) text events"
proof -
  obtain found where f: "scan (json_print j) = Some found" "map (\<lambda>f. (f_path f, f_value f)) found = json_urls j []"
    using scan_finds_url_list [OF assms(2)] by blast
  have "is_rewritten rw url" using assms(5) by (simp add: is_rewritten_def)
  then have "(path, url) \<in> set (map (\<lambda>e. (e_path e, e_original e)) events)"
    using playback_events [OF assms(1,3) f(1)] f(2) assms(4) by simp
  then obtain e where e: "e \<in> set events" "e_path e = path" "e_original e = url" by auto
  with playback_event_text [OF assms(1) e(1)] assms(5) have t: "e_rewritten e = new" "e_host e = host" by simp_all
  with e show "\<exists>e\<in>set events. e_path e = path \<and> e_original e = url \<and> e_rewritten e = new" by blast
  from e t show "registry_lookup reg' host \<noteq> None" using playback_registry [OF assms(1)] by blast
  from e(1) show "\<exists>text. out = Some text \<and> spliced js (json_print j) text events"
    using playback_splice [OF assms(1)] by auto
qed

section \<open>The answer with the links\<close>

text \<open>An answer that is rewritten: JSON for a \<^verbatim>\<open>PlaybackInfo\<close> request, read and decoded within the limit.\<close>

definition playback_answer ::
  "'x route_crate_scheme \<Rightarrow> route_proxy \<Rightarrow> waiting \<Rightarrow> upstream_response \<Rightarrow> json \<Rightarrow> bool" where
  "playback_answer X rp w a j \<longleftrightarrow>
     (case w of WaitUpstream wu _ \<Rightarrow> wu_buffer wu \<and> \<not> wu_login wu | WaitResource \<Rightarrow> False)
     \<and> us_status a \<noteq> 101 \<and> is_json_content_type X (remove_hop_by_hop X (us_headers a))
     \<and> read_body X (rp_cfg rp) (us_frames a) (remove_hop_by_hop X (us_headers a)) = Inr (json_print j)
     \<and> json_depth j \<le> MAX_DEPTH \<and> valid_utf8 (json_print j)"

lemma respond_frames: "body_frames (rs_body (fst (respond rp path resp))) = body_frames (rs_body resp)"
  by (auto simp: respond_def route_meter_response_def meter_response_def body_counted_def Let_def
      split: proxy_body.splits option.splits prod.splits)

lemma logout_session_keeps:
  "ps_registry (logout_session X io token st) = ps_registry st"
  "st_secret (ps_store (logout_session X io token st)) = st_secret (ps_store st)"
  using logout_session_grows [of "\<lambda>_. False" "\<lambda>_. False" st X io token]
  by (auto simp: state_grows_def logout_session_def split: option.splits prod.splits)

lemma playback_finish:
  assumes "playback_answer X rp w a j"
    and "server_finish X rp io io' now s key path w (Answer a) = (resp, s1, tasks, effs)"
    and "rewrite_playback_info (json_str X) (rp_rewriter rp) (sy_registry s key) (json_print j) = (Some text, events, reg)"
  shows "body_frames (rs_body resp) = (if text = [] then [] else [Data text])"
    and "sy_registry s1 key = reg" "st_secret (sy_store s1) = st_secret (sy_store s)"
proof -
  obtain wu token where w: "w = WaitUpstream wu token" "wu_buffer wu" "\<not> wu_login wu"
    using assms(1) by (cases w) (auto simp: playback_answer_def)
  define h where "h = remove_hop_by_hop X (us_headers a)"
  have p: "us_status a \<noteq> 101" "is_json_content_type X h" "read_body X (rp_cfg rp) (us_frames a) h = Inr (json_print j)"
    using assms(1) by (simp_all add: playback_answer_def h_def)
  define r0 where "r0 = \<lparr>rs_status = us_status a, rs_headers = set_full_body h (length text), rs_body = body_full text\<rparr>"
  have "upstream_finish X rp io now (route_view s key) wu (Answer a)
      = (r0, (route_view s key)\<lparr>ps_registry := reg\<rparr>, [])"
    using p w assms(3)
    by (simp add: upstream_finish_def send_upstream_def route_rewrite_playback_info_def route_view_def r0_def
        flip: h_def)
  then have f: "resp = fst (respond rp path r0)"
    "s1 = route_update s key (logout_session X io' token ((route_view s key)\<lparr>ps_registry := reg\<rparr>))"
    using assms(2) by (auto simp: server_finish_def handle_finish_def w Let_def split: prod.splits)
  show "body_frames (rs_body resp) = (if text = [] then [] else [Data text])"
    unfolding f(1) respond_frames by (simp add: r0_def body_full_def)
  show "sy_registry s1 key = reg" "st_secret (sy_store s1) = st_secret (sy_store s)"
    unfolding f(2) using logout_session_keeps [of X io' token "(route_view s key)\<lparr>ps_registry := reg\<rparr>"]
    by (simp_all add: route_update_def route_view_def)
qed

section \<open>From end to end\<close>

lemma sys_run_keeps:
  assumes "sys_run X sv (s, ws) ls (s', ws')"
  shows "st_secret (sy_store s') = st_secret (sy_store s)"
    and "registry_lookup (sy_registry s key) h \<noteq> None \<Longrightarrow> registry_lookup (sy_registry s' key) h \<noteq> None"
  using sys_run_grows [OF assms, of key] by (auto simp: state_grows_def route_view_def)

lemma server_begin_resource:
  assumes "sv_routes sv key = Some rp" "server_key X req = key" "client_passes X rp req conn"
    and "prefix RESOURCE_PREFIX (rq_path req)" "resource_begin X rp (route_view s key) req = Inr out"
  shows "fst (server_begin X sv io s req conn) = Inr (out, WaitResource)"
proof -
  have "handle_checked X rp (route_view s key) req conn = Inr (out, WaitResource)"
    using assms(4,5) by (simp add: handle_checked_passes [OF assms(3)] handle_with_auth_def route_request_def begin_resource_def)
  then show ?thesis using assms(1,2) by (simp add: server_begin_def handle_begin_def Let_def split: prod.splits)
qed


definition playback_json :: json where
  "playback_json = JArr [JNum 1, JStr ''http://h/x?q'']"

definition playback_answer_sample :: upstream_response where
  "playback_answer_sample = \<lparr>us_status = 200, us_headers = no_headers(''content-type'' := [''application/json'']),
     us_frames = [Data (json_print playback_json)]\<rparr>"

definition playback_waiting :: waiting where
  "playback_waiting = WaitUpstream \<lparr>wu_path = [], wu_login = False, wu_buffer = True, wu_out_path = [], wu_upgrade = None\<rparr> None"

definition route_in_sample :: route_proxy where
  "route_in_sample = the (sv_routes server_sample ''p.io'')"

definition playback_finished :: "response \<times> server_state \<times> spawned list \<times> effect list" where
  "playback_finished = server_finish route_crate_sample route_in_sample io_sample io_sample ''now''
     (server_initial config_sample memory_sample Map.empty) ''p.io'' ''/emby/Items/1/PlaybackInfo''
     playback_waiting (Answer playback_answer_sample)"


end
