(* ===== verification/Traffic.thy ===== *)
theory Traffic
  imports Server_Runs
begin

text \<open>
  Traffic accounting over a whole run: the handlers of \<^verbatim>\<open>src/src/server/route.rs\<close>, the bodies of
  \<^verbatim>\<open>src/src/server/body.rs\<close> that hyper polls and drops whenever it likes, and the counters of
  \<^verbatim>\<open>src/src/stats.rs\<close>, which get one operation at a time from any thread.
\<close>

section \<open>What passes\<close>

text \<open>
  What an observer between the clients and the program counts: a request that arrives, and bytes in
  either direction, with the route and the kind they belong to. An answer that is held in memory
  counts with its length when it is given to hyper, a streamed body with every frame that is read
  from it, and a tunnel when it ends.
\<close>

datatype wire = Arrives string kind | To_client string kind nat | From_client string kind nat

datatype side = Client_side | Server_side

fun memory_len :: "proxy_body \<Rightarrow> nat" where
  "memory_len (Full (Some d)) = length d"
| "memory_len (Counted inner n armed) = memory_len inner"
| "memory_len _ = 0"

fun in_memory :: "proxy_body \<Rightarrow> bool" where
  "in_memory (Full d) \<longleftrightarrow> True"
| "in_memory (Counted inner n armed) \<longleftrightarrow> in_memory inner"
| "in_memory _ \<longleftrightarrow> False"

definition wire_poll :: "string \<Rightarrow> kind \<Rightarrow> side \<Rightarrow> proxy_body \<Rightarrow> frame option \<Rightarrow> wire list" where
  "wire_poll key k sd b f =
     (case data_len f of
        Some n \<Rightarrow> if in_memory b then []
                  else [case sd of Client_side \<Rightarrow> To_client key k n | Server_side \<Rightarrow> From_client key k n]
      | None \<Rightarrow> [])"

section \<open>Runs with bodies\<close>

text \<open>
  The server, its waiting handlers, the bodies that are alive, each with the route and the kind of
  its request and the side that reads it, and the effects on the counters of each route so far.
\<close>

record traffic =
  tr_state :: server_state
  tr_waiting :: "in_flight list"
  tr_bodies :: "(string \<times> kind \<times> side \<times> proxy_body) list"
  tr_log :: "(string \<times> effect) list"

definition log_effects :: "string \<Rightarrow> effect list \<Rightarrow> traffic \<Rightarrow> traffic" where
  "log_effects key effs t = t\<lparr>tr_log := tr_log t @ map (Pair key) effs\<rparr>"

definition add_body :: "string \<Rightarrow> kind \<Rightarrow> side \<Rightarrow> proxy_body \<Rightarrow> traffic \<Rightarrow> traffic" where
  "add_body key k sd b t = t\<lparr>tr_bodies := tr_bodies t @ [(key, k, sd, b)]\<rparr>"

text \<open>
  A request body of which hyper says at the start that it has ended delivers no data. The label of a
  step is what passes in it.
\<close>

inductive traffic_step ::
  "'x route_crate_scheme \<Rightarrow> server \<Rightarrow> traffic \<Rightarrow> wire list \<Rightarrow> traffic \<Rightarrow> bool"
  for X :: "'x route_crate_scheme" and sv :: server where
  answers: "server_begin X sv io (tr_state t) req conn = (Inl resp, s', effs) \<Longrightarrow> key = server_key X req
    \<Longrightarrow> k = classify (rq_path req)
    \<Longrightarrow> traffic_step X sv t [Arrives key k, To_client key k (memory_len (rs_body resp))]
          (log_effects key effs (add_body key k Client_side (rs_body resp) (t\<lparr>tr_state := s'\<rparr>)))"
| sends: "server_begin X sv io (tr_state t) req conn = (Inr (out, w), s', effs) \<Longrightarrow> key = server_key X req
    \<Longrightarrow> k = classify (rq_path req) \<Longrightarrow> (rq_ended req \<longrightarrow> data_bytes (rq_frames req) = 0)
    \<Longrightarrow> traffic_step X sv t [Arrives key k]
          (log_effects key effs (add_body key k Server_side (ob_body out)
             (t\<lparr>tr_state := s', tr_waiting := (key, rq_path req, out, w) # tr_waiting t\<rparr>)))"
| finishes: "(key, path, out, w) \<in> set (tr_waiting t) \<Longrightarrow> sv_routes sv key = Some rp
    \<Longrightarrow> server_finish X rp io io' now (tr_state t) key path w r = (resp, s', tasks, effs)
    \<Longrightarrow> k = classify path
    \<Longrightarrow> traffic_step X sv t [To_client key k (memory_len (rs_body resp))]
          (log_effects key effs (add_body key k Client_side (rs_body resp)
             (t\<lparr>tr_state := s', tr_waiting := remove1 (key, path, out, w) (tr_waiting t)\<rparr>)))"
| gives_up: "f \<in> set (tr_waiting t)
    \<Longrightarrow> traffic_step X sv t [] (t\<lparr>tr_waiting := remove1 f (tr_waiting t)\<rparr>)"
| polls: "tr_bodies t = before @ (key, k, sd, b) # after \<Longrightarrow> poll_frame b = (frame, b', effs)
    \<Longrightarrow> traffic_step X sv t (wire_poll key k sd b frame)
          (log_effects key effs (t\<lparr>tr_bodies := before @ (key, k, sd, b') # after\<rparr>))"
| drops: "tr_bodies t = before @ (key, k, sd, b) # after
    \<Longrightarrow> traffic_step X sv t [] (log_effects key (body_drop b) (t\<lparr>tr_bodies := before @ after\<rparr>))"
| tunnel_ends: "sv_routes sv key = Some rp
    \<Longrightarrow> traffic_step X sv t
          (case copied of Some (sent, received) \<Rightarrow> [From_client key Api (unat sent), To_client key Api (unat received)]
           | None \<Rightarrow> [])
          (log_effects key (tunnel_done rp copied) t)"

inductive traffic_run ::
  "'x route_crate_scheme \<Rightarrow> server \<Rightarrow> traffic \<Rightarrow> wire list list \<Rightarrow> traffic \<Rightarrow> bool"
  for X :: "'x route_crate_scheme" and sv :: server and init :: traffic where
  begins: "traffic_run X sv init [] init"
| goes_on: "traffic_run X sv init ls t \<Longrightarrow> traffic_step X sv t l t' \<Longrightarrow> traffic_run X sv init (ls @ [l]) t'"

interpretation traffic: labelled_runs "traffic_step X sv" "traffic_run X sv" for X sv
proof unfold_locales
  show "traffic_run X sv a [] b \<longleftrightarrow> b = a" for a b
    by (auto elim: traffic_run.cases intro: traffic_run.begins)
  show "traffic_run X sv a (ls @ [l]) c \<longleftrightarrow> (\<exists>b. traffic_run X sv a ls b \<and> traffic_step X sv b l c)" for a ls l c
  proof
    assume "traffic_run X sv a (ls @ [l]) c"
    then show "\<exists>b. traffic_run X sv a ls b \<and> traffic_step X sv b l c" by (cases rule: traffic_run.cases) auto
  qed (auto intro: traffic_run.goes_on)
qed

definition traffic_initial :: "config \<Rightarrow> store \<Rightarrow> files \<Rightarrow> traffic" where
  "traffic_initial cfg store fs =
     \<lparr>tr_state = server_initial cfg store fs, tr_waiting = [], tr_bodies = [], tr_log = []\<rparr>"

section \<open>Operations of one kind\<close>

definition ops_at :: "string \<Rightarrow> kind \<Rightarrow> (string \<times> effect) list \<Rightarrow> counter_op list" where
  "ops_at key k log = List.map_filter (\<lambda>(key', e). case e of
     Count k' x \<Rightarrow> if key' = key \<and> k' = k then Some x else None | Done _ \<Rightarrow> None) log"

lemma ops_at_append [simp]: "ops_at key k (a @ b) = ops_at key k a @ ops_at key k b"
  by (simp add: ops_at_def List.map_filter_def)

lemma ops_at_Nil [simp]: "ops_at key k [] = []"
  by (simp add: ops_at_def List.map_filter_def)

lemma ops_at_Cons [simp]:
  "ops_at key k ((key', e) # log) =
     (case e of Count k' x \<Rightarrow> if key' = key \<and> k' = k then [x] else [] | Done _ \<Rightarrow> []) @ ops_at key k log"
  by (simp add: ops_at_def List.map_filter_def split: effect.split)

text \<open>What the operations on one set of counters add, and what passes for it.\<close>

definition totals_sum :: "totals list \<Rightarrow> totals" where
  "totals_sum ts = foldr totals_add ts no_totals"

definition ops_totals :: "counter_op list \<Rightarrow> totals" where
  "ops_totals xs = totals_sum (map op_totals xs)"

definition ops_active :: "counter_op list \<Rightarrow> int" where
  "ops_active xs = sum_list (map op_active xs)"

fun wire_total :: "string \<Rightarrow> kind \<Rightarrow> wire \<Rightarrow> totals" where
  "wire_total key k (Arrives key' k') =
     (if key' = key \<and> k' = k then \<lparr>t_requests = 1, t_bytes_out = 0, t_bytes_in = 0\<rparr> else no_totals)"
| "wire_total key k (To_client key' k' n) =
     (if key' = key \<and> k' = k then \<lparr>t_requests = 0, t_bytes_out = of_nat n, t_bytes_in = 0\<rparr> else no_totals)"
| "wire_total key k (From_client key' k' n) =
     (if key' = key \<and> k' = k then \<lparr>t_requests = 0, t_bytes_out = 0, t_bytes_in = of_nat n\<rparr> else no_totals)"

definition wire_totals :: "string \<Rightarrow> kind \<Rightarrow> wire list \<Rightarrow> totals" where
  "wire_totals key k ws = totals_sum (map (wire_total key k) ws)"

lemma totals_sum_simps [simp]:
  "totals_sum [] = no_totals" "totals_sum (t # ts) = totals_add t (totals_sum ts)"
  "totals_sum (ts @ us) = totals_add (totals_sum ts) (totals_sum us)"
  by (simp_all add: totals_sum_def) (induction ts; simp add: totals_add_assoc)

lemma totals_sum_foldl: "foldl totals_add t ts = totals_add t (totals_sum ts)"
  by (induction ts arbitrary: t) (simp_all add: totals_add_assoc)

lemma ops_sums [simp]:
  "ops_totals [] = no_totals" "ops_totals (xs @ ys) = totals_add (ops_totals xs) (ops_totals ys)"
  "ops_totals (x # xs) = totals_add (op_totals x) (ops_totals xs)"
  "ops_active [] = 0" "ops_active (xs @ ys) = ops_active xs + ops_active ys"
  "ops_active (x # xs) = op_active x + ops_active xs"
  by (simp_all add: ops_totals_def ops_active_def)

lemma wire_totals_simps [simp]:
  "wire_totals key k [] = no_totals" "wire_totals key k (w # ws) = totals_add (wire_total key k w) (wire_totals key k ws)"
  "wire_totals key k (ws @ us) = totals_add (wire_totals key k ws) (wire_totals key k us)"
  by (simp_all add: wire_totals_def)

text \<open>A body that counts as an active stream of a kind.\<close>

fun streams :: "kind \<Rightarrow> proxy_body \<Rightarrow> bool" where
  "streams k (Metered fs m) \<longleftrightarrow> m_response m \<and> m_kind m = k"
| "streams k (Counted inner n armed) \<longleftrightarrow> streams k inner"
| "streams k _ \<longleftrightarrow> False"

definition open_streams :: "string \<Rightarrow> kind \<Rightarrow> (string \<times> kind \<times> side \<times> proxy_body) list \<Rightarrow> nat" where
  "open_streams key k bodies = length (filter (\<lambda>(key', _, _, b). key' = key \<and> streams k b) bodies)"

text \<open>The meter of a body is the one of the kind of its request and of the side that reads it.\<close>

fun rightly_metered :: "kind \<Rightarrow> side \<Rightarrow> proxy_body \<Rightarrow> bool" where
  "rightly_metered k sd (Metered fs m) \<longleftrightarrow> m = \<lparr>m_kind = k, m_response = (sd = Client_side)\<rparr>"
| "rightly_metered k sd (Incoming fs) \<longleftrightarrow> data_bytes fs = 0"
| "rightly_metered k sd (Counted inner n armed) \<longleftrightarrow> rightly_metered k sd inner"
| "rightly_metered k sd _ \<longleftrightarrow> True"

lemma poll_active:
  assumes "poll_frame b = (f, b', effs)"
  shows "streams k b' = streams k b \<and> ops_active (ops_at key k (map (Pair key') effs)) = 0"
  using assms
proof (induction b arbitrary: f b' effs)
  case (Metered fs m)
  then show ?case by (cases fs) (auto simp: meter_add_def split: option.splits)
next
  case (Counted b n armed)
  obtain g c es where "poll_frame b = (g, c, es)" by (metis surj_pair)
  with Counted show ?case by auto
qed (auto split: list.splits)

lemma wire_poll_counted: "wire_poll key k sd (Counted b n armed) f = wire_poll key k sd b f"
  by (simp add: wire_poll_def split: option.split)

lemma poll_metered:
  assumes "poll_frame b = (f, b', effs)" "rightly_metered k' sd b"
  shows "rightly_metered k' sd b'
    \<and> ops_totals (ops_at key k (map (Pair key') effs)) = wire_totals key k (wire_poll key' k' sd b f)"
  using assms
proof (induction b arbitrary: f b' effs)
  case (Incoming fs)
  have none: "wire_totals key k (wire_poll key' k' sd (Incoming fs) (Some g)) = no_totals" if "frame_len g = 0" for g
  proof -
    from that have "g = Data [] \<or> data_len (Some g) = None" by (cases g) (simp_all add: data_len_def)
    then show ?thesis
      by (cases sd) (auto simp: wire_poll_def data_len_def no_totals_def [symmetric])
  qed
  with Incoming show ?case by (cases fs) (auto simp: data_bytes_def wire_poll_def data_len_def)
next
  case (Metered fs m)
  show ?case
  proof (cases fs)
    case (Cons g gs)
    with Metered show ?thesis
      by (cases g; cases sd) (auto simp: wire_poll_def meter_add_def data_len_def)
  qed (use Metered in \<open>auto simp: wire_poll_def data_len_def\<close>)
next
  case (Counted b n armed)
  obtain g c es where "poll_frame b = (g, c, es)" by (metis surj_pair)
  with Counted show ?case by (auto simp: wire_poll_counted)
qed (auto simp: wire_poll_def data_len_def split: option.splits)

text \<open>What happens to the bodies of other routes leaves the counters of this route alone.\<close>

lemma other_route:
  "key' \<noteq> key \<Longrightarrow> ops_at key k (map (Pair key') effs) = []"
  "key' \<noteq> key \<Longrightarrow> wire_totals key k (wire_poll key' k' sd b f) = no_totals"
  by (induction effs) (auto simp: wire_poll_def split: effect.splits option.splits side.splits)

lemma drop_effects:
  "ops_totals (ops_at key k (map (Pair key') (body_drop b))) = no_totals
   \<and> ops_active (ops_at key k (map (Pair key') (body_drop b))) = (if key' = key \<and> streams k b then - 1 else 0)"
  by (induction b) (auto simp: meter_drop_def)

section \<open>Effects of the handlers\<close>

text \<open>The bodies that the handlers make do not stream yet; \<open>respond\<close> turns the streamed ones into streams.\<close>

definition unmetered :: "proxy_body \<Rightarrow> bool" where
  "unmetered b \<longleftrightarrow> (case b of Metered _ _ \<Rightarrow> False | Counted _ _ _ \<Rightarrow> False | _ \<Rightarrow> True)"

lemma unmetered_simps [simp]:
  "unmetered (Incoming fs)" "unmetered (Full d)" "unmetered Empty" "unmetered (body_full data)"
  by (simp_all add: unmetered_def body_full_def)

lemma unmetered_responses [simp]:
  "unmetered (rs_body (text_response status msg))" "unmetered (rs_body (empty_response status))"
  "unmetered (rs_body empty_user_list)" "unmetered (rs_body not_found)"
  by (simp_all add: text_response_def empty_response_def empty_user_list_def not_found_def)

lemma respond_active:
  assumes "respond rp path resp = (resp', effs)" "unmetered (rs_body resp)"
  shows "ops_active (ops_at key k (map (Pair key') effs)) = (if key' = key \<and> streams k (rs_body resp') then 1 else 0)"
proof -
  have "\<And>k. streams k (body_counted b) = streams k b" for b by (simp add: body_counted_def)
  with assms show ?thesis
    by (cases "rs_body resp")
      (auto simp: respond_def route_meter_response_def meter_response_def unmetered_def Let_def
        split: if_splits option.splits)
qed

lemma respond_metered:
  assumes "respond rp path resp = (resp', effs)" "unmetered (rs_body resp)" "rp_stats rp"
  shows "rightly_metered (classify path) Client_side (rs_body resp')
    \<and> ops_totals (ops_at key k (map (Pair key') effs))
      = wire_totals key k [To_client key' (classify path) (memory_len (rs_body resp'))]"
  using assms
  by (cases "rs_body resp")
    (auto simp: respond_def route_meter_response_def meter_response_def unmetered_def body_counted_def
      no_totals_def [symmetric] Let_def split: if_splits option.splits)

lemma resource_begin_unmetered: "resource_begin X rp st req = Inl resp \<Longrightarrow> unmetered (rs_body resp)"
  by (auto simp: resource_begin_def resource_parts_def bind_res_def Let_def
      split: sum.splits prod.splits option.splits if_splits)

lemma upstream_begin_unmetered: "upstream_begin X rp req conn = Inl resp \<Longrightarrow> unmetered (rs_body resp)"
  by (auto simp: upstream_begin_def Let_def split: option.splits)

lemma handle_checked_unmetered:
  assumes "handle_checked X rp st req conn = Inl (resp, token)"
  shows "unmetered (rs_body resp)"
  using assms
  by (auto simp: handle_checked_def filter_client_def handle_with_auth_def route_request_def begin_resource_def
      begin_upstream_def Let_def dest: resource_begin_unmetered upstream_begin_unmetered
      split: if_splits option.splits sum.splits prod.splits)

text \<open>What is sent on is the body of the request.\<close>

lemma handle_checked_outbound:
  assumes "handle_checked X rp st req conn = Inr (out, w)"
  shows "ob_body out = request_body rp req"
proof -
  have "resource_begin X rp st req = Inr out \<Longrightarrow> ob_body out = request_body rp req" for out
    by (auto simp: resource_begin_def bind_res_def Let_def split: sum.splits prod.splits option.splits if_splits)
  moreover have "upstream_begin X rp req conn = Inr (out, wu) \<Longrightarrow> ob_body out = request_body rp req" for out wu
    by (auto simp: upstream_begin_def Let_def split: option.splits)
  ultimately show ?thesis using assms
    by (auto simp: handle_checked_def handle_with_auth_def route_request_def begin_resource_def
        begin_upstream_def Let_def split: if_splits option.splits sum.splits prod.splits)
qed

lemma request_body_streams: "\<not> streams k (request_body rp req)"
  by (simp add: request_body_def meter_request_def)

lemma request_body_metered:
  "rp_stats rp \<Longrightarrow> (rq_ended req \<longrightarrow> data_bytes (rq_frames req) = 0)
    \<Longrightarrow> rightly_metered (classify (rq_path req)) Server_side (request_body rp req)"
  by (simp add: request_body_def meter_request_def)

lemma login_response_unmetered:
  "handle_login_response X rp io now st a out_path = (resp, st', tasks) \<Longrightarrow> unmetered (rs_body resp)"
  by (auto simp: handle_login_response_def Let_def split: if_splits sum.splits prod.splits)

lemma rewrite_unmetered: "route_rewrite_playback_info X rp st a = (resp, st') \<Longrightarrow> unmetered (rs_body resp)"
  by (auto simp: route_rewrite_playback_info_def Let_def split: sum.splits prod.splits)

lemma upgrade_unmetered: "handle_upgrade_response X a u = (resp, tasks) \<Longrightarrow> unmetered (rs_body resp)"
  by (auto simp: handle_upgrade_response_def split: option.splits if_splits)

lemma upstream_finish_unmetered:
  assumes "upstream_finish X rp io now st wu r = (resp, st', tasks)"
  shows "unmetered (rs_body resp)"
proof (cases "send_upstream r")
  case (Inr a)
  with assms show ?thesis
    by (auto simp: upstream_finish_def Let_def
        dest: rewrite_unmetered upgrade_unmetered login_response_unmetered split: if_splits prod.splits)
qed (use assms in \<open>auto simp: upstream_finish_def\<close>)

text \<open>The two halves of a handler: the body they make, and what they count.\<close>

definition begin_body :: "(response, outbound \<times> waiting) res \<Rightarrow> proxy_body" where
  "begin_body r = (case r of Inl resp \<Rightarrow> rs_body resp | Inr (out, _) \<Rightarrow> ob_body out)"

definition begin_wire :: "string \<Rightarrow> kind \<Rightarrow> (response, outbound \<times> waiting) res \<Rightarrow> wire list" where
  "begin_wire key k r = Arrives key k #
     (case r of Inl resp \<Rightarrow> [To_client key k (memory_len (rs_body resp))] | Inr _ \<Rightarrow> [])"

definition begin_side :: "(response, outbound \<times> waiting) res \<Rightarrow> side" where
  "begin_side r = (case r of Inl _ \<Rightarrow> Client_side | Inr _ \<Rightarrow> Server_side)"

lemma server_begin_parts:
  assumes "server_begin X sv io s req conn = (r, s', effs)" "sv_routes sv (server_key X req) = Some rp"
  obtains (answer) resp0 resp effs' where "r = Inl resp" "respond rp (rq_path req) resp0 = (resp, effs')"
      "unmetered (rs_body resp0)" "effs = (if rp_stats rp then [Count (classify (rq_path req)) Request] else []) @ effs'"
  | (request) out w where "r = Inr (out, w)" "ob_body out = request_body rp req"
      "effs = (if rp_stats rp then [Count (classify (rq_path req)) Request] else [])"
proof -
  obtain st where h: "handle_begin X rp io (route_view s (server_key X req)) req conn = (r, st, effs)"
    using assms by (auto simp: server_begin_def Let_def split: prod.splits)
  show thesis
  proof (cases "handle_checked X rp (route_view s (server_key X req)) req conn")
    case (Inl p)
    then obtain resp token where p: "handle_checked X rp (route_view s (server_key X req)) req conn = Inl (resp, token)"
      by (cases p) auto
    obtain resp' effs' where rs: "respond rp (rq_path req) resp = (resp', effs')" by fastforce
    with h p answer [OF _ rs handle_checked_unmetered [OF p]] show thesis by (simp add: handle_begin_def Let_def)
  next
    case (Inr ow)
    then obtain out w where o: "handle_checked X rp (route_view s (server_key X req)) req conn = Inr (out, w)"
      by (cases ow) auto
    with h have "r = Inr (out, w)"
      "effs = (if rp_stats rp then [Count (classify (rq_path req)) Request] else [])"
      by (auto simp: handle_begin_def Let_def)
    with request handle_checked_outbound [OF o] show thesis by blast
  qed
qed

lemma server_begin_active:
  assumes "server_begin X sv io s req conn = (r, s', effs)"
  shows "ops_active (ops_at key k (map (Pair (server_key X req)) effs))
      = (if server_key X req = key \<and> streams k (begin_body r) then 1 else 0)"
proof (cases "sv_routes sv (server_key X req)")
  case None
  then have "r = Inl not_found" "effs = []" using assms by (auto simp: server_begin_def Let_def)
  then show ?thesis by (simp add: begin_body_def not_found_def text_response_def body_full_def)
next
  case (Some rp)
  from assms Some show ?thesis
  proof (cases rule: server_begin_parts)
    case (answer resp0 resp effs')
    with respond_active [OF answer(2,3), of key k "server_key X req"] show ?thesis by (simp add: begin_body_def)
  qed (simp add: begin_body_def request_body_streams)
qed

lemma server_begin_metered:
  assumes "server_begin X sv io s req conn = (r, s', effs)" "sv_routes sv (server_key X req) = Some rp" "rp_stats rp"
    and "\<not> isl r \<Longrightarrow> rq_ended req \<longrightarrow> data_bytes (rq_frames req) = 0"
  shows "rightly_metered (classify (rq_path req)) (begin_side r) (begin_body r)
    \<and> ops_totals (ops_at key k (map (Pair (server_key X req)) effs))
      = wire_totals key k (begin_wire (server_key X req) (classify (rq_path req)) r)"
  using assms(1,2)
proof (cases rule: server_begin_parts)
  case (answer resp0 resp effs')
  with respond_metered [OF answer(2,3) assms(3), of key k "server_key X req"] assms(3) show ?thesis
    by (simp add: begin_body_def begin_side_def begin_wire_def)
next
  case (request out w)
  with request_body_metered [OF assms(3), of req] assms(3,4) show ?thesis
    by (simp add: begin_body_def begin_side_def begin_wire_def)
qed

lemma server_finish_parts:
  assumes "server_finish X rp io io' now s key' path w r = (resp, s', tasks, effs)"
  obtains resp0 where "respond rp path resp0 = (resp, effs)" "unmetered (rs_body resp0)"
proof (cases w)
  case WaitResource
  have "unmetered (rs_body (resource_finish X r))" by (simp add: resource_finish_def split: sum.splits)
  with assms WaitResource that show thesis
    by (auto simp: server_finish_def handle_finish_def Let_def split: prod.splits)
next
  case (WaitUpstream wu token)
  obtain a st ts where f: "upstream_finish X rp io now (route_view s key') wu r = (a, st, ts)" by (metis surj_pair)
  with assms WaitUpstream that [OF _ upstream_finish_unmetered [OF f]] show thesis
    by (auto simp: server_finish_def handle_finish_def Let_def split: prod.splits)
qed

lemma tunnel_effects:
  "ops_active (ops_at key k (map (Pair key') (tunnel_done rp copied))) = 0"
  "rp_stats rp \<Longrightarrow> ops_totals (ops_at key k (map (Pair key') (tunnel_done rp copied)))
     = wire_totals key k (case copied of Some (sent, received) \<Rightarrow>
         [From_client key' Api (unat sent), To_client key' Api (unat received)] | None \<Rightarrow> [])"
  by (auto simp: tunnel_done_def split: option.splits)

section \<open>The invariant\<close>

lemma open_streams_simps [simp]:
  "open_streams key k [] = 0"
  "open_streams key k (bs @ cs) = open_streams key k bs + open_streams key k cs"
  "open_streams key k ((key', k', sd, b) # bs) = (if key' = key \<and> streams k b then 1 else 0) + open_streams key k bs"
  by (simp_all add: open_streams_def)

lemma log_effects_fields [simp]:
  "tr_log (log_effects key effs t) = tr_log t @ map (Pair key) effs" "tr_bodies (log_effects key effs t) = tr_bodies t"
  "tr_log (add_body key k sd b t) = tr_log t" "tr_bodies (add_body key k sd b t) = tr_bodies t @ [(key, k, sd, b)]"
  by (simp_all add: log_effects_def add_body_def)

lemma traffic_step_active:
  assumes "traffic_step X sv t l t'"
  shows "ops_active (ops_at key k (tr_log t')) - int (open_streams key k (tr_bodies t'))
    = ops_active (ops_at key k (tr_log t)) - int (open_streams key k (tr_bodies t))"
  using assms
proof (cases rule: traffic_step.cases)
  case (answers io req conn resp s' effs key' k')
  then show ?thesis using server_begin_active [OF answers(3), of key k] by (simp add: begin_body_def)
next
  case (sends io req conn out w s' effs key' k')
  then show ?thesis using server_begin_active [OF sends(3), of key k] by (simp add: begin_body_def)
next
  case (finishes key' path out w rp io io' now r resp s' tasks effs k')
  obtain resp0 where "respond rp path resp0 = (resp, effs)" "unmetered (rs_body resp0)"
    by (rule server_finish_parts [OF finishes(5)])
  then show ?thesis using finishes respond_active [of rp path resp0 resp effs key k key'] by simp
next
  case (polls before key' k' sd b "after" frame b' effs)
  then show ?thesis using poll_active [OF polls(4), of k key key'] by simp
next
  case (drops before key' k' sd b "after")
  then show ?thesis using drop_effects [of key k key' b] by simp
next
  case (tunnel_ends key' rp copied)
  then show ?thesis using tunnel_effects(1) [of key k key' rp copied] by simp
qed simp

text \<open>Of a route that counts, the bodies are rightly metered, and the operations are what passes.\<close>

definition metered_traffic :: "string \<Rightarrow> traffic \<Rightarrow> bool" where
  "metered_traffic key t \<longleftrightarrow> (\<forall>(key', k, sd, b)\<in>set (tr_bodies t). key' = key \<longrightarrow> rightly_metered k sd b)"

lemma metered_add [simp]:
  "metered_traffic key (log_effects key' effs (add_body key' k sd b t))
    \<longleftrightarrow> metered_traffic key t \<and> (key' = key \<longrightarrow> rightly_metered k sd b)"
  by (auto simp: metered_traffic_def)

lemma metered_fields [simp]:
  "metered_traffic key (t\<lparr>tr_state := s\<rparr>) = metered_traffic key t"
  "metered_traffic key (t\<lparr>tr_state := s, tr_waiting := ws\<rparr>) = metered_traffic key t"
  "metered_traffic key (t\<lparr>tr_waiting := ws\<rparr>) = metered_traffic key t"
  by (simp_all add: metered_traffic_def)

lemma other_begin: "key' \<noteq> key \<Longrightarrow> wire_totals key k (begin_wire key' k' r) = no_totals"
  by (simp add: begin_wire_def split: sum.split)

lemma begin_counts:
  assumes "server_begin X sv io s req conn = (r, s', effs)" "sv_routes sv key = Some rp" "rp_stats rp"
    and "\<not> isl r \<Longrightarrow> rq_ended req \<longrightarrow> data_bytes (rq_frames req) = 0"
  shows "(server_key X req = key \<longrightarrow> rightly_metered (classify (rq_path req)) (begin_side r) (begin_body r))
    \<and> ops_totals (ops_at key k (map (Pair (server_key X req)) effs))
      = wire_totals key k (begin_wire (server_key X req) (classify (rq_path req)) r)"
proof (cases "server_key X req = key")
  case True
  with server_begin_metered [OF assms(1) _ assms(3,4), where key = key and k = k] assms(2) show ?thesis by simp
qed (simp add: other_route other_begin)

lemma traffic_step_totals:
  assumes "traffic_step X sv t l t'" "sv_routes sv key = Some rp" "rp_stats rp" "metered_traffic key t"
  shows "metered_traffic key t'
    \<and> ops_totals (ops_at key k (tr_log t')) = totals_add (ops_totals (ops_at key k (tr_log t))) (wire_totals key k l)"
  using assms(1)
proof (cases rule: traffic_step.cases)
  case (answers io req conn resp s' effs key' k')
  then show ?thesis using begin_counts [OF answers(3) assms(2,3), of k] assms(4)
    by (simp add: begin_body_def begin_side_def begin_wire_def)
next
  case (sends io req conn out w s' effs key' k')
  then show ?thesis using begin_counts [OF sends(3) assms(2,3), of k] assms(4)
    by (simp add: begin_body_def begin_side_def begin_wire_def)
next
  case (finishes key' path out w rp' io io' now r resp s' tasks effs k')
  obtain resp0 where r: "respond rp' path resp0 = (resp, effs)" "unmetered (rs_body resp0)"
    by (rule server_finish_parts [OF finishes(5)])
  show ?thesis
  proof (cases "key' = key")
    case True
    with finishes(4) assms(2,3) have "rp_stats rp'" by simp
    with finishes True assms(4) respond_metered [OF r, of key k key'] show ?thesis by simp
  qed (use finishes assms(4) in \<open>simp add: other_route\<close>)
next
  case (polls before key' k' sd b "after" frame b' effs)
  show ?thesis
  proof (cases "key' = key")
    case True
    then have "rightly_metered k' sd b" using assms(4) polls(3) by (simp add: metered_traffic_def)
    with poll_metered [OF polls(4) this, of key k key'] polls assms(4) show ?thesis
      by (auto simp: metered_traffic_def)
  qed (use polls assms(4) in \<open>auto simp: metered_traffic_def other_route\<close>)
next
  case (drops before key' k' sd b "after")
  then show ?thesis using drop_effects [of key k key' b] assms(4) by (simp add: metered_traffic_def)
next
  case (tunnel_ends key' rp' copied)
  show ?thesis
  proof (cases "key' = key")
    case True
    with tunnel_ends(3) assms(2,3) have "rp_stats rp'" by simp
    with tunnel_effects(2) [of rp' key k key' copied] tunnel_ends True assms(4) show ?thesis
      by (simp add: metered_traffic_def)
  qed (use tunnel_ends assms(4) in \<open>simp add: metered_traffic_def other_route split: option.splits\<close>)
qed (use assms(4) in simp)

lemma traffic_run_totals:
  assumes "traffic_run X sv (traffic_initial cfg store fs) ls t" "sv_routes sv key = Some rp" "rp_stats rp"
  shows "metered_traffic key t \<and> ops_totals (ops_at key k (tr_log t)) = wire_totals key k (concat ls)"
  using assms(1)
proof (induction ls arbitrary: t rule: rev_induct)
  case Nil
  then show ?case by (simp add: traffic.run_Nil traffic_initial_def metered_traffic_def)
next
  case (snoc l ls)
  then obtain m where "traffic_run X sv (traffic_initial cfg store fs) ls m" "traffic_step X sv m l t"
    by (auto simp: traffic.run_snoc)
  with snoc.IH traffic_step_totals [OF _ assms(2,3), of X m l t k] show ?case by simp
qed

lemma traffic_run_active:
  assumes "traffic_run X sv (traffic_initial cfg store fs) ls t"
  shows "ops_active (ops_at key k (tr_log t)) = int (open_streams key k (tr_bodies t))"
proof -
  let ?d = "\<lambda>t. ops_active (ops_at key k (tr_log t)) - int (open_streams key k (tr_bodies t))"
  have "?d t = ?d (traffic_initial cfg store fs)"
    by (rule traffic.run_keeps [OF assms, where kept = "\<lambda>x. ?d x = ?d (traffic_initial cfg store fs)"])
      (simp_all add: traffic_step_active)
  then show ?thesis by (simp add: traffic_initial_def)
qed

section \<open>The counters\<close>

text \<open>The observer's numbers for one route and kind.\<close>

definition arrivals :: "string \<Rightarrow> kind \<Rightarrow> wire list \<Rightarrow> nat" where
  "arrivals key k ws = count_list ws (Arrives key k)"

definition bytes_to_client :: "string \<Rightarrow> kind \<Rightarrow> wire list \<Rightarrow> nat" where
  "bytes_to_client key k ws =
     sum_list (map (\<lambda>w. case w of To_client key' k' n \<Rightarrow> if key' = key \<and> k' = k then n else 0 | _ \<Rightarrow> 0) ws)"

definition bytes_from_client :: "string \<Rightarrow> kind \<Rightarrow> wire list \<Rightarrow> nat" where
  "bytes_from_client key k ws =
     sum_list (map (\<lambda>w. case w of From_client key' k' n \<Rightarrow> if key' = key \<and> k' = k then n else 0 | _ \<Rightarrow> 0) ws)"

lemma wire_totals_observed:
  "wire_totals key k ws = \<lparr>t_requests = of_nat (arrivals key k ws), t_bytes_out = of_nat (bytes_to_client key k ws),
     t_bytes_in = of_nat (bytes_from_client key k ws)\<rparr>"
proof (induction ws)
  case (Cons w ws)
  then show ?case
    by (cases w) (simp_all add: arrivals_def bytes_to_client_def bytes_from_client_def totals_add_def no_totals_def)
qed (simp add: arrivals_def bytes_to_client_def bytes_from_client_def no_totals_def)


definition counting_server :: server where
  "counting_server = the (server_with_stats route_crate_sample config_sample logger_sample
     (Some memory_sample) memory_sample (Some stats_sample))"


end
