(* ===== verification/Responses.thy ===== *)
theory Responses
  imports Server
begin

text \<open>
  What the server hands to hyper is always a proper HTTP response: every answer of every branch of
  the handlers, in \<^verbatim>\<open>src/src/server/route.rs\<close>, \<^verbatim>\<open>mod.rs\<close> and \<^verbatim>\<open>admin.rs\<close>, has a status code in range,
  and an answer whose body was replaced announces the length of the body it has.
\<close>

section \<open>Well-formed responses\<close>

text \<open>The bytes of a body that is held in memory.\<close>

fun full_data :: "proxy_body \<Rightarrow> bytes option" where
  "full_data (Full d) = d"
| "full_data (Counted inner n armed) = full_data inner"
| "full_data _ = None"

definition response_ok :: "response \<Rightarrow> bool" where
  "response_ok resp \<longleftrightarrow>
     100 \<le> rs_status resp \<and> rs_status resp \<le> 999
     \<and> (case full_data (rs_body resp) of
          None \<Rightarrow> True
        | Some d \<Rightarrow> rs_headers resp ''content-length'' \<in> {[], [show_nat (length d)]}
            \<and> rs_headers resp ''content-encoding'' = [])"

definition result_ok :: "upstream_result \<Rightarrow> bool" where
  "result_ok r \<longleftrightarrow> (case r of Answer a \<Rightarrow> 100 \<le> us_status a \<and> us_status a \<le> 999 | _ \<Rightarrow> True)"

lemma plain_responses_ok [simp]:
  "100 \<le> n \<Longrightarrow> n \<le> 999 \<Longrightarrow> response_ok (text_response n msg)"
  "100 \<le> n \<Longrightarrow> n \<le> 999 \<Longrightarrow> response_ok (empty_response n)"
  "response_ok empty_user_list" "response_ok not_found"
  by (simp_all add: response_ok_def text_response_def empty_response_def empty_user_list_def not_found_def
      body_full_def header_insert_def no_headers_def)

lemma incoming_ok: "100 \<le> n \<Longrightarrow> n \<le> 999 \<Longrightarrow> response_ok \<lparr>rs_status = n, rs_headers = h, rs_body = Incoming fs\<rparr>"
  by (simp add: response_ok_def)

lemma full_body_ok:
  "100 \<le> n \<Longrightarrow> n \<le> 999 \<Longrightarrow>
   response_ok \<lparr>rs_status = n, rs_headers = set_full_body h (length d), rs_body = body_full d\<rparr>"
  by (simp add: response_ok_def body_full_def set_full_body_def header_insert_def header_remove_def)

lemma respond_ok: "respond rp path resp = (resp', effs) \<Longrightarrow> response_ok resp \<Longrightarrow> response_ok resp'"
  by (auto simp: respond_def route_meter_response_def meter_response_def response_ok_def body_counted_def Let_def
      split: proxy_body.splits option.splits if_splits prod.splits)

section \<open>Every branch\<close>

lemma handle_checked_ok:
  assumes "handle_checked X rp st req conn = Inl (resp, token)"
  shows "response_ok resp"
proof -
  have "response_ok r" if "resource_begin X rp st req = Inl r" for r
    using that by (auto simp: resource_begin_def resource_parts_def bind_res_def Let_def
        split: sum.splits prod.splits option.splits if_splits)
  moreover have "response_ok r" if "upstream_begin X rp req conn = Inl r" for r
    using that by (auto simp: upstream_begin_def Let_def split: option.splits)
  ultimately show ?thesis using assms
    by (auto simp: handle_checked_def filter_client_def handle_with_auth_def route_request_def begin_resource_def
        begin_upstream_def Let_def split: if_splits option.splits sum.splits prod.splits)
qed

lemma rewrite_response_ok:
  "100 \<le> us_status a \<Longrightarrow> us_status a \<le> 999 \<Longrightarrow> route_rewrite_playback_info X rp st a = (resp, st') \<Longrightarrow> response_ok resp"
  by (auto simp: route_rewrite_playback_info_def Let_def full_body_ok split: sum.splits prod.splits)

lemma login_response_ok:
  "100 \<le> us_status a \<Longrightarrow> us_status a \<le> 999 \<Longrightarrow>
   handle_login_response X rp io now st a path = (resp, st', tasks) \<Longrightarrow> response_ok resp"
  by (auto simp: handle_login_response_def Let_def full_body_ok incoming_ok split: if_splits sum.splits prod.splits)

lemma upgrade_response_ok:
  "100 \<le> us_status a \<Longrightarrow> us_status a \<le> 999 \<Longrightarrow> handle_upgrade_response X a u = (resp, tasks) \<Longrightarrow> response_ok resp"
  by (auto simp: handle_upgrade_response_def response_ok_def empty_response_def split: option.splits if_splits)

lemma send_upstream_ok:
  "result_ok r \<Longrightarrow> case send_upstream r of Inl n \<Rightarrow> 100 \<le> n \<and> n \<le> 999 | Inr a \<Rightarrow> 100 \<le> us_status a \<and> us_status a \<le> 999"
  by (cases r) (simp_all add: send_upstream_def result_ok_def)

lemma upstream_finish_ok:
  assumes "result_ok r" "upstream_finish X rp io now st w r = (resp, st', tasks)"
  shows "response_ok resp"
proof (cases "send_upstream r")
  case (Inl n)
  then show ?thesis using assms send_upstream_ok [OF assms(1)] by (auto simp: upstream_finish_def)
next
  case (Inr a)
  let ?a = "a\<lparr>us_headers := remove_hop_by_hop X (us_headers a)\<rparr>"
  have n: "100 \<le> us_status a" "us_status a \<le> 999" using send_upstream_ok [OF assms(1)] Inr by simp_all
  then have m: "100 \<le> us_status ?a" "us_status ?a \<le> 999" by simp_all
  show ?thesis using assms(2) Inr n
    by (auto simp: upstream_finish_def Let_def incoming_ok dest: upgrade_response_ok [OF n]
        login_response_ok [OF m] rewrite_response_ok [OF m] split: if_splits prod.splits)
qed

lemma handle_finish_ok:
  assumes "result_ok r" "handle_finish X rp io io' now st path w r = (resp, st', tasks, effs)"
  shows "response_ok resp"
proof (cases w)
  case WaitResource
  have "response_ok (resource_finish X r)"
    using send_upstream_ok [OF assms(1)] by (auto simp: resource_finish_def incoming_ok split: sum.splits)
  with assms(2) WaitResource respond_ok show ?thesis
    by (auto simp: handle_finish_def Let_def split: prod.splits)
next
  case (WaitUpstream wu token)
  obtain a st1 ts where u: "upstream_finish X rp io now st wu r = (a, st1, ts)" by (metis surj_pair)
  with assms(2) WaitUpstream respond_ok [OF _ upstream_finish_ok [OF assms(1) u]] show ?thesis
    by (auto simp: handle_finish_def Let_def split: prod.splits)
qed

lemma handle_begin_ok:
  assumes "handle_begin X rp io st req conn = (Inl resp, st', effs)"
  shows "response_ok resp"
proof -
  obtain r token where c: "handle_checked X rp st req conn = Inl (r, token)"
    using assms by (cases "handle_checked X rp st req conn") (auto simp: handle_begin_def Let_def)
  from respond_ok [OF _ handle_checked_ok [OF c]] assms c show ?thesis
    by (auto simp: handle_begin_def Let_def split: prod.splits)
qed

lemma admin_response_ok: "response_ok (admin_response report_json version today st req)"
  by (simp add: admin_response_def response_ok_def text_response_def not_found_def body_full_def no_headers_def Let_def)

text \<open>
  C19: Every response is well formed. Whatever is requested and whatever the other server answers,
  as long as its status is one, the status of the response is a three-digit number, and a
  response whose body the proxy holds in memory, be it a rewritten document or a text of its
  own, never says another length than that body has and never claims a content encoding; the
  same holds of the admin listener.
\<close>

theorem responses_well_formed:
  assumes "server_handle X sv io io' now net s req conn = (resp, s', tasks, effs)" "\<forall>out. result_ok (net out)"
  shows "response_ok resp \<and> response_ok (admin_response report_json version today st areq)"
proof (cases "sv_routes sv (server_key X req)")
  case None
  then show ?thesis using assms(1) admin_response_ok by (auto simp: server_handle_def Let_def)
next
  case (Some rp)
  obtain st effs' where h: "handle X rp io io' now net (route_view s (server_key X req)) req conn = (resp, st, tasks, effs')"
    using assms(1) Some by (auto simp: server_handle_def Let_def split: prod.splits)
  obtain r st1 effs1 where b: "handle_begin X rp io' (route_view s (server_key X req)) req conn = (r, st1, effs1)"
    by (metis surj_pair)
  show ?thesis
  proof (cases r)
    case (Inl resp0)
    with h b handle_begin_ok [of X rp io'] admin_response_ok show ?thesis by (auto simp: handle_def)
  next
    case (Inr ow)
    obtain out w where o: "ow = (out, w)" by (cases ow)
    obtain r2 st2 ts es where f: "handle_finish X rp io io' now st1 (rq_path req) w (net out) = (r2, st2, ts, es)"
      by (metis surj_pair)
    have "resp = r2" using h b Inr o f by (simp add: handle_def)
    with handle_finish_ok [OF _ f] assms(2) admin_response_ok show ?thesis by blast
  qed
qed

theorem responses_well_formed_witness:
  "response_ok (fst (server_handle route_crate_sample server_sample io_sample io_sample ''now'' (\<lambda>_. Answer answer_sample)
     (server_initial config_sample memory_sample Map.empty) (request_sample ''/web/index.html'' None) conn_sample))"
proof -
  let ?h = "server_handle route_crate_sample server_sample io_sample io_sample ''now'' (\<lambda>_. Answer answer_sample)
     (server_initial config_sample memory_sample Map.empty) (request_sample ''/web/index.html'' None) conn_sample"
  have "?h = (fst ?h, fst (snd ?h), fst (snd (snd ?h)), snd (snd (snd ?h)))" by simp
  moreover have "\<forall>out :: outbound. result_ok (Answer answer_sample)" by (simp add: result_ok_def answer_sample_def)
  ultimately show ?thesis using responses_well_formed by blast
qed

end
