(* ===== verification/Audit_Log.thy ===== *)
theory Audit_Log
  imports Route_Proxy
begin

text \<open>
  The records that handlers log: the macros and conversions of \<^verbatim>\<open>src/src/logging.rs\<close>, the error
  chains of \<^verbatim>\<open>src/src/server/mod.rs\<close>, and the decision and rewrite records of
  \<^verbatim>\<open>src/src/server/route.rs\<close>, with the proof that what is logged of a resource request is what is
  done with it.
\<close>

section \<open>Loggers and macros\<close>

definition logger_new :: "log_config \<Rightarrow> logger" where
  "logger_new cfg = \<lparr>lg_config = cfg, lg_attrs = []\<rparr>"

text \<open>\<^verbatim>\<open>Logger::discard\<close>; what it still formats goes to a sink that drops it.\<close>

definition logger_discard :: logger where
  "logger_discard = logger_new (log_config_default\<lparr>l_level := Error\<rparr>)"

text \<open>\<^verbatim>\<open>v as i64\<close>: a count above the signed range wraps.\<close>

definition value_from_u64 :: "64 word \<Rightarrow> log_value" where
  "value_from_u64 v = VInt (sint v)"

definition log_at :: "logger \<Rightarrow> nat \<Rightarrow> level \<Rightarrow> string \<Rightarrow> (string \<times> log_value) list \<Rightarrow> string option" where
  "log_at lg now level msg attrs =
     (if log_enabled lg level then log_line lg now level msg attrs else None)"

definition log_debug :: "logger \<Rightarrow> nat \<Rightarrow> string \<Rightarrow> (string \<times> log_value) list \<Rightarrow> string option" where
  "log_debug lg now = log_at lg now Debug"

definition log_info :: "logger \<Rightarrow> nat \<Rightarrow> string \<Rightarrow> (string \<times> log_value) list \<Rightarrow> string option" where
  "log_info lg now = log_at lg now Info"

definition log_warn :: "logger \<Rightarrow> nat \<Rightarrow> string \<Rightarrow> (string \<times> log_value) list \<Rightarrow> string option" where
  "log_warn lg now = log_at lg now Warn"

definition log_error :: "logger \<Rightarrow> nat \<Rightarrow> string \<Rightarrow> (string \<times> log_value) list \<Rightarrow> string option" where
  "log_error lg now = log_at lg now Error"

text \<open>An error is its own message and the messages of its sources, the outermost first.\<close>

definition error_chain :: "string \<Rightarrow> string list \<Rightarrow> string" where
  "error_chain err sources = foldl (\<lambda>out e. out @ '': '' @ e) err sources"

section \<open>Rewrites\<close>

definition log_rewrite_events ::
  "logger \<Rightarrow> nat \<Rightarrow> string \<Rightarrow> string option \<Rightarrow> rewrite_event list \<Rightarrow> string list" where
  "log_rewrite_events lg now path query events =
     (if \<not> log_enabled lg Debug then []
      else
        List.map_filter id
          (log_debug lg now ''playbackinfo rewrite''
             [(''path'', VStr (sanitize_request_uri path query)),
              (''count'', value_from_u64 (of_nat (length events)))]
           # map (\<lambda>event. log_debug lg now ''playbackinfo rewrite item''
                 [(''json_path'', VStr (e_path event)), (''scheme'', VStr (e_scheme event)),
                  (''host'', VStr (e_host event)),
                  (''from'', VStr (sanitize_url_string (e_original event))),
                  (''to'', VStr (sanitize_url_string (e_rewritten event)))]) events))"

section \<open>Resource decisions\<close>

record decision =
  de_allowed :: bool
  de_reason :: string
  de_scheme :: string
  de_host :: string

text \<open>The decision that \<^verbatim>\<open>proxy_resource\<close> logs, with its early returns.\<close>

definition resource_decision ::
  "'x route_crate_scheme \<Rightarrow> route_proxy \<Rightarrow> proxy_state \<Rightarrow> request \<Rightarrow> decision" where
  "resource_decision X rp st req =
     (let rest = drop (length RESOURCE_PREFIX) (rq_path req);
          (first, remainder) = split_first_segment rest;
          (scheme, remainder) =
            (if rp_auth rp \<and> \<not> is_http_scheme first then
               (case remainder of Some rest \<Rightarrow> split_first_segment rest | None \<Rightarrow> (first, remainder))
             else (first, remainder));
          reject = (\<lambda>reason host. \<lparr>de_allowed = False, de_reason = reason, de_scheme = scheme, de_host = host\<rparr>) in
      case (if is_http_scheme scheme then remainder else None) of
        None \<Rightarrow> reject ''invalid_scheme'' []
      | Some remainder \<Rightarrow>
          (case (case split_once (CHR ''/'') remainder of
                   Some (host, rest) \<Rightarrow> if host \<noteq> [] then Some host else None | None \<Rightarrow> None) of
             None \<Rightarrow> reject ''missing_host'' (before_first (CHR ''/'') remainder)
           | Some host \<Rightarrow>
               (case (if rp_auth rp then
                        if is_http_scheme first then
                          (let token = (case request_token X (rq_headers req) (rq_query req) of Some t \<Rightarrow> t | None \<Rightarrow> []) in
                           if \<not> store_is_valid (ps_store st) token (rp_route_key rp)
                           then Some ''unsigned_without_token'' else None)
                        else if \<not> store_verify X (ps_store st) first [rp_route_key rp, scheme, host]
                        then Some ''invalid_signature'' else None
                      else None) of
                  Some reason \<Rightarrow> reject reason host
                | None \<Rightarrow>
                    if registry_lookup (ps_registry st) host = None then reject ''host_not_allowed'' host
                    else \<lparr>de_allowed = True, de_reason = [], de_scheme = scheme, de_host = host\<rparr>)))"

definition log_resource_decision :: "logger \<Rightarrow> nat \<Rightarrow> request \<Rightarrow> decision \<Rightarrow> string option" where
  "log_resource_decision lg now req d =
     log_at lg now (if de_allowed d then Debug else Warn)
       (if de_allowed d then ''resource proxy decision'' else ''resource proxy rejected request'')
       [(''allowed'', VBool (de_allowed d)), (''reason'', VStr (de_reason d)),
        (''scheme'', VStr (de_scheme d)), (''host'', VStr (de_host d)),
        (''path'', VStr (sanitize_request_uri (rq_path req) (rq_query req)))]"

section \<open>What is logged is what is done\<close>

text \<open>The answer that goes with each logged reason.\<close>

definition rejection :: "string \<Rightarrow> response" where
  "rejection reason =
     (if reason = ''invalid_scheme'' then text_response 400 ''missing or invalid proxied resource scheme''
      else if reason = ''missing_host'' then text_response 400 ''missing proxied resource host''
      else if reason = ''host_not_allowed'' then text_response 403 ''proxied resource host is not allowed''
      else text_response 403 ''proxied resource is not authorized'')"

lemma resource_decision_parts:
  "case resource_parts (rp_auth rp) (rq_path req) of
     Inl resp \<Rightarrow> \<not> de_allowed (resource_decision X rp st req)
       \<and> resp = rejection (de_reason (resource_decision X rp st req))
   | Inr (first, scheme, host, rest) \<Rightarrow>
       resource_decision X rp st req =
         (let bad = rp_auth rp \<and> \<not> resource_authorized X rp (ps_store st) req first scheme host;
              unknown = registry_lookup (ps_registry st) host = None in
          \<lparr>de_allowed = \<not> bad \<and> \<not> unknown,
           de_reason = (if bad then if is_http_scheme first then ''unsigned_without_token'' else ''invalid_signature''
                        else if unknown then ''host_not_allowed'' else []),
           de_scheme = scheme, de_host = host\<rparr>)"
proof -
  obtain first r where f: "split_first_segment (drop (length RESOURCE_PREFIX) (rq_path req)) = (first, r)" by fastforce
  obtain scheme remainder where s: "(if rp_auth rp \<and> \<not> is_http_scheme first then
       (case r of Some rest \<Rightarrow> split_first_segment rest | None \<Rightarrow> (first, r)) else (first, r)) = (scheme, remainder)"
    by fastforce
  note d = resource_decision_def [of X rp st req, unfolded Let_def f split_conv s]
    resource_parts_def [of "rp_auth rp" "rq_path req", unfolded Let_def f split_conv s]
  show ?thesis
  proof (cases "if is_http_scheme scheme then remainder else None")
    case None
    then have "de_reason (resource_decision X rp st req) = ''invalid_scheme''"
      "\<not> de_allowed (resource_decision X rp st req)" by (simp_all add: d(1))
    moreover have "resource_parts (rp_auth rp) (rq_path req)
        = Inl (text_response 400 ''missing or invalid proxied resource scheme'')"
      using None by (auto simp: d(2) split: option.splits if_splits)
    ultimately show ?thesis by (simp add: rejection_def)
  next
    case (Some rem)
    then have h: "is_http_scheme scheme" "remainder = Some rem" by (simp_all split: if_splits)
    show ?thesis
    proof (cases "\<exists>host rest. split_once (CHR ''/'') rem = Some (host, rest) \<and> host \<noteq> []")
      case True
      then obtain host rest where "split_once (CHR ''/'') rem = Some (host, rest)" "host \<noteq> []" by blast
      with h show ?thesis by (simp add: d resource_authorized_def Let_def)
    next
      case False
      then have "(case split_once (CHR ''/'') rem of
          Some (host, rest) \<Rightarrow> if host \<noteq> [] then Some host else None | None \<Rightarrow> None) = None"
        by (auto split: option.splits prod.splits)
      with h have "de_reason (resource_decision X rp st req) = ''missing_host''"
        "\<not> de_allowed (resource_decision X rp st req)" by (simp_all add: d(1))
      moreover have "resource_parts (rp_auth rp) (rq_path req) = Inl (text_response 400 ''missing proxied resource host'')"
        using False h by (auto simp: d(2) split: option.splits)
      ultimately show ?thesis by (simp add: rejection_def)
    qed
  qed
qed

lemma resource_begin_decided:
  "case resource_begin X rp st req of
     Inl resp \<Rightarrow>
       resp = (if de_allowed (resource_decision X rp st req)
               then text_response 400 ''invalid proxied resource URL''
               else rejection (de_reason (resource_decision X rp st req)))
   | Inr out \<Rightarrow>
       de_allowed (resource_decision X rp st req)
       \<and> prefix (de_scheme (resource_decision X rp st req) @ ''://'' @ de_host (resource_decision X rp st req) @ ''/'')
           (ob_target out)
       \<and> registry_lookup (ps_registry st) (de_host (resource_decision X rp st req)) \<noteq> None"
proof (cases "resource_parts (rp_auth rp) (rq_path req)")
  case (Inl resp)
  then show ?thesis using resource_decision_parts [where X = X and rp = rp and req = req and st = st]
    by (simp add: resource_begin_def)
next
  case (Inr parts)
  obtain first scheme host rest where p: "parts = (first, scheme, host, rest)" by (cases parts)
  define bad unknown where "bad \<longleftrightarrow> rp_auth rp \<and> \<not> resource_authorized X rp (ps_store st) req first scheme host"
    and "unknown \<longleftrightarrow> registry_lookup (ps_registry st) host = None"
  have d: "resource_decision X rp st req =
      \<lparr>de_allowed = \<not> bad \<and> \<not> unknown,
       de_reason = (if bad then if is_http_scheme first then ''unsigned_without_token'' else ''invalid_signature''
                    else if unknown then ''host_not_allowed'' else []),
       de_scheme = scheme, de_host = host\<rparr>"
    using resource_decision_parts [where X = X and rp = rp and req = req and st = st]
    by (simp add: Inr p Let_def bad_def unknown_def)
  note b = resource_begin_def [of X rp st req, unfolded Inr p bind_res_simps split_conv, folded bad_def unknown_def]
  show ?thesis
  proof (cases "bad \<or> unknown")
    case True
    then show ?thesis by (cases bad) (simp_all add: b d rejection_def)
  next
    case False
    then have "registry_lookup (ps_registry st) host \<noteq> None" "\<not> bad" "\<not> unknown" by (simp_all add: unknown_def)
    then show ?thesis unfolding b d
      by (cases "uri_path_of X (scheme @ ''://'' @ host @ ''/'' @ rest
            @ (case rq_query req of Some q \<Rightarrow> ''?'' @ q | None \<Rightarrow> []))") (simp_all add: Let_def)
  qed
qed


end
