(* ===== verification/Calendar.thy ===== *)
theory Calendar
  imports Logging
begin

text \<open>
  The dates in log records and reports: \<^verbatim>\<open>civil_from_days\<close> of \<^verbatim>\<open>src/src/logging.rs\<close> computes the
  Gregorian date of a day number with a few divisions; here it is compared with the calendar
  as it is usually written down, day by day.
\<close>

section \<open>The calendar\<close>

definition leap :: "int \<Rightarrow> bool" where
  "leap y \<longleftrightarrow> y mod 4 = 0 \<and> (y mod 100 \<noteq> 0 \<or> y mod 400 = 0)"

definition month_days :: "int \<Rightarrow> int \<Rightarrow> int" where
  "month_days y m =
     (if m = 2 then (if leap y then 29 else 28) else if m \<in> {4, 6, 9, 11} then 30 else 31)"

fun next_date :: "int \<times> int \<times> int \<Rightarrow> int \<times> int \<times> int" where
  "next_date (y, m, d) =
     (if d < month_days y m then (y, m, d + 1)
      else if m < 12 then (y, m + 1, 1)
      else (y + 1, 1, 1))"

section \<open>Years that begin in March\<close>

text \<open>The days before March 1 of a year, and the days of the year from then on.\<close>

definition days_before :: "int \<Rightarrow> int" where
  "days_before y = 365 * y + y div 4 - y div 100 + y div 400"

definition year_days :: "int \<Rightarrow> int" where
  "year_days y = (if leap (y + 1) then 366 else 365)"

lemma div_succ:
  assumes "0 < (n :: int)"
  shows "(y + 1) div n = y div n + (if (y + 1) mod n = 0 then 1 else 0)"
proof -
  have r: "0 \<le> y mod n" "y mod n < n" using assms by simp_all
  show ?thesis
  proof (cases "y mod n + 1 = n")
    case True
    moreover have "n * (y div n) + y mod n = y" by simp
    ultimately have "y + 1 = n * (y div n + 1) + 0" unfolding distrib_left by linarith
    then have "(y + 1) div n = y div n + 1" "(y + 1) mod n = 0"
      using assms int_div_pos_eq int_mod_pos_eq by (metis order.refl)+
    then show ?thesis by simp
  next
    case False
    with r have s: "y + 1 = n * (y div n) + (y mod n + 1)" "0 \<le> y mod n + 1" "y mod n + 1 < n" by simp_all
    then have "(y + 1) div n = y div n" "(y + 1) mod n = y mod n + 1"
      using int_div_pos_eq [OF s] int_mod_pos_eq [OF s] by simp_all
    with r show ?thesis by simp
  qed
qed

lemma hundred_four: "(x :: int) mod 100 = 0 \<Longrightarrow> x mod 4 = 0" "(x :: int) mod 400 = 0 \<Longrightarrow> x mod 100 = 0"
  by (auto simp: mod_eq_0_iff_dvd intro: dvd_trans [of 4 100] dvd_trans [of 100 400])

lemma days_before_succ: "days_before (y + 1) = days_before y + year_days y"
proof -
  define i where "i n = (if (y + 1) mod n = 0 then 1 else 0 :: int)" for n
  have d: "(y + 1) div n = y div n + i n" if "0 < n" for n
    unfolding i_def using that by (rule div_succ)
  have "(y + 1) div 4 = y div 4 + i 4" "(y + 1) div 100 = y div 100 + i 100"
    "(y + 1) div 400 = y div 400 + i 400" by (rule d, simp)+
  then have "days_before (y + 1) = days_before y + (365 + i 4 - i 100 + i 400)"
    unfolding days_before_def distrib_left by (simp only: algebra_simps)
  moreover have "365 + i 4 - i 100 + i 400 = year_days y"
    using hundred_four [of "y + 1"] unfolding i_def year_days_def leap_def
    by (cases "(y + 1) mod 4 = 0"; cases "(y + 1) mod 100 = 0"; cases "(y + 1) mod 400 = 0") simp_all
  ultimately show ?thesis by (simp only:)
qed

section \<open>The year of a day\<close>

definition year_of_era :: "int \<Rightarrow> int" where
  "year_of_era doe = (doe - doe div 1460 + doe div 36524 - doe div 146096) div 365"

definition era_days :: "int \<Rightarrow> int" where
  "era_days y = 365 * y + y div 4 - y div 100"

text \<open>The formula grows with the day, so it is enough to look at the first and the last day of
  every year.\<close>

lemma minus_div_mono:
  assumes "a \<le> b" "0 < (n :: int)"
  shows "a - a div n \<le> b - b div n"
proof -
  have "1 * (b - a) \<le> n * (b - a)" using assms by (intro mult_right_mono) auto
  then have "b div n \<le> (a + n * (b - a)) div n" using assms(2) by (intro zdiv_mono1) auto
  also have "\<dots> = a div n + (b - a)" using assms(2) by simp
  finally show ?thesis by linarith
qed

lemma year_of_era_mono:
  assumes "a \<le> b"
  shows "year_of_era a \<le> year_of_era b"
proof -
  have e: "x div 146096 = x div 36524 div 4" for x :: int
    using zdiv_zmult2_eq [of 4 x 36524] by simp
  have "a div 36524 \<le> b div 36524" using assms by (intro zdiv_mono1) auto
  then have "a div 36524 - a div 36524 div 4 \<le> b div 36524 - b div 36524 div 4"
    by (rule minus_div_mono) simp
  moreover have "a - a div 1460 \<le> b - b div 1460" using assms by (rule minus_div_mono) simp
  ultimately have "a - a div 1460 + a div 36524 - a div 146096 \<le> b - b div 1460 + b div 36524 - b div 146096"
    unfolding e by (simp only: algebra_simps)
  then show ?thesis unfolding year_of_era_def by (rule zdiv_mono1) simp
qed

lemma year_of_era_table:
  "list_all (\<lambda>y. year_of_era (era_days y) = y
     \<and> year_of_era (if y = 399 then 146096 else era_days (y + 1) - 1) = y) [0..399]"
  by code_simp

lemma year_of_era_bounds:
  assumes "0 \<le> doe" "doe < 146097"
  shows "0 \<le> year_of_era doe \<and> year_of_era doe \<le> 399
    \<and> era_days (year_of_era doe) \<le> doe
    \<and> (year_of_era doe < 399 \<longrightarrow> doe < era_days (year_of_era doe + 1))"
proof -
  let ?y = "year_of_era doe"
  have t: "year_of_era (era_days y) = y
      \<and> year_of_era (if y = 399 then 146096 else era_days (y + 1) - 1) = y" if "0 \<le> y" "y \<le> 399" for y
    using year_of_era_table that by (auto simp: list_all_iff)
  have "year_of_era 0 = 0" "year_of_era 146096 = 399" by code_simp+
  then have y: "0 \<le> ?y" "?y \<le> 399"
    using year_of_era_mono [of 0 doe] year_of_era_mono [of doe 146096] assms by simp_all
  have lower: "era_days ?y \<le> doe"
  proof (rule ccontr)
    assume "\<not> era_days ?y \<le> doe"
    then have l: "doe \<le> era_days ?y - 1" by simp
    have "?y \<noteq> 0" using l assms(1) by (auto simp: era_days_def)
    then have "0 \<le> ?y - 1" "?y - 1 \<le> 399" "?y - 1 \<noteq> 399" using y by linarith+
    from t [OF this(1,2)] this(3) have "year_of_era (era_days ?y - 1) = ?y - 1" by simp
    with year_of_era_mono [OF l] show False by simp
  qed
  have upper: "doe < era_days (?y + 1)" if "?y < 399"
  proof (rule ccontr)
    assume "\<not> doe < era_days (?y + 1)"
    then have "year_of_era (era_days (?y + 1)) \<le> ?y" by (intro year_of_era_mono) simp
    with t [of "?y + 1"] y that show False by simp
  qed
  from y lower upper show ?thesis by blast
qed

section \<open>Day by day\<close>

text \<open>The year and day of the year, counted from March 1, of a day number.\<close>

definition march_year :: "int \<Rightarrow> int" where
  "march_year z = year_of_era (z mod 146097) + z div 146097 * 400"

definition march_day :: "int \<Rightarrow> int" where
  "march_day z = z mod 146097 - era_days (year_of_era (z mod 146097))"

lemma days_before_era:
  assumes "0 \<le> y" "y < 400"
  shows "days_before (y + e * 400) = era_days y + 146097 * e"
proof -
  have "(y + e * 400) div 4 = y div 4 + e * 100" using div_mult_self1 [of 4 y "e * 100"] by simp
  moreover have "(y + e * 400) div 100 = y div 100 + e * 4" using div_mult_self1 [of 100 y "e * 4"] by simp
  moreover have "(y + e * 400) div 400 = e"
    using div_mult_self1 [of 400 y e] div_pos_pos_trivial [of y 400] assms by simp
  ultimately show ?thesis unfolding days_before_def era_days_def distrib_left by (simp only: algebra_simps)
qed

lemma year_days_era: "year_days (y + e * 400) = year_days y"
proof -
  have "y + e * 400 + 1 = (y + 1) + (e * 100) * 4" "y + e * 400 + 1 = (y + 1) + (e * 4) * 100"
    "y + e * 400 + 1 = (y + 1) + e * 400" by simp_all
  then have "(y + e * 400 + 1) mod n = (y + 1) mod n" if "n \<in> {4, 100, 400}" for n
    using that by (metis (no_types) mod_mult_self1 insertE emptyE)
  then show ?thesis by (simp only: year_days_def leap_def) simp
qed

lemma march_decomposition:
  "days_before (march_year z) + march_day z = z \<and> 0 \<le> march_day z
   \<and> march_day z < year_days (march_year z)"
proof -
  let ?e = "z div 146097" and ?doe = "z mod 146097"
  let ?y = "year_of_era ?doe"
  have doe: "0 \<le> ?doe" "?doe < 146097" by simp_all
  note b = year_of_era_bounds [OF doe]
  have div0: "?y div 400 = 0" using b by (intro div_pos_pos_trivial) auto
  have s: "days_before (march_year z) = era_days ?y + 146097 * ?e"
    unfolding march_year_def using b by (intro days_before_era) auto
  have eq: "days_before (march_year z) + march_day z = z"
    unfolding s march_day_def using div_mult_mod_eq [of z 146097] by linarith
  have "march_day z < year_days (march_year z)"
  proof (cases "?y = 399")
    case True
    then have "(march_year z + 1) mod 400 = 0" by (simp add: march_year_def)
    then have "leap (march_year z + 1)" using hundred_four by (auto simp: leap_def)
    moreover have "era_days 399 = 145731" by (simp add: era_days_def)
    ultimately show ?thesis using doe True by (simp add: march_day_def year_days_def)
  next
    case False
    with b have u: "?doe < era_days (?y + 1)" by linarith
    have "(?y + 1) div 400 = 0" using b False by (intro div_pos_pos_trivial) auto
    then have "era_days (?y + 1) = days_before (?y + 1)" "era_days ?y = days_before ?y"
      using div0 by (simp_all add: era_days_def days_before_def)
    then have "?doe - era_days ?y < year_days ?y" using u days_before_succ [of ?y] by linarith
    moreover have "year_days ?y = year_days (march_year z)"
      by (simp only: march_year_def year_days_era)
    ultimately show ?thesis by (simp add: march_day_def)
  qed
  moreover have "0 \<le> march_day z" using b by (simp add: march_day_def)
  ultimately show ?thesis using eq by blast
qed

lemma days_before_mono: "a \<le> b \<Longrightarrow> days_before a \<le> days_before b"
proof (induction rule: int_ge_induct)
  case (step i)
  then show ?case using days_before_succ [of i] by (simp add: year_days_def split: if_splits)
qed simp

lemma march_unique:
  assumes "days_before y + d = z" "0 \<le> d" "d < year_days y"
  shows "march_year z = y \<and> march_day z = d"
proof -
  note m = march_decomposition [of z]
  have "\<not> march_year z < y" using days_before_mono [of "march_year z + 1" y] m assms
    by (auto simp: days_before_succ)
  moreover have "\<not> y < march_year z" using days_before_mono [of "y + 1" "march_year z"] m assms
    by (auto simp: days_before_succ)
  ultimately have "march_year z = y" by simp
  with m assms show ?thesis by simp
qed

lemma march_succ:
  "march_day z + 1 < year_days (march_year z) \<Longrightarrow>
     march_year (z + 1) = march_year z \<and> march_day (z + 1) = march_day z + 1"
  "\<not> march_day z + 1 < year_days (march_year z) \<Longrightarrow>
     march_year (z + 1) = march_year z + 1 \<and> march_day (z + 1) = 0"
proof -
  note m = march_decomposition [of z]
  show "march_year (z + 1) = march_year z \<and> march_day (z + 1) = march_day z + 1"
    if "march_day z + 1 < year_days (march_year z)"
    using m that by (intro march_unique) linarith+
  have "0 < year_days (march_year z + 1)" by (simp add: year_days_def)
  then show "march_year (z + 1) = march_year z + 1 \<and> march_day (z + 1) = 0"
    if "\<not> march_day z + 1 < year_days (march_year z)"
    using m that days_before_succ [of "march_year z"] by (intro march_unique) linarith+
qed

text \<open>The month and day of a day of the year.\<close>

definition month_of :: "int \<Rightarrow> int \<times> int" where
  "month_of doy =
     (let mp = (5 * doy + 2) div 153 in
      (if mp < 10 then mp + 3 else mp - 9, doy - (153 * mp + 2) div 5 + 1))"

lemma civil_march:
  "z = days + 719468 \<Longrightarrow> civil_from_days days =
     (case month_of (march_day z) of (m, d) \<Rightarrow>
      (if m \<le> 2 then march_year z + 1 else march_year z, m, d))"
  unfolding civil_from_days_def march_year_def march_day_def month_of_def year_of_era_def
    era_days_def Let_def
  by (simp only: split_conv)

lemma month_table:
  "list_all (\<lambda>doy. case month_of doy of (m, d) \<Rightarrow>
       1 \<le> m \<and> m \<le> 12 \<and> 1 \<le> d \<and> (m \<le> 2 \<longleftrightarrow> 306 \<le> doy) \<and> (m = 2 \<longleftrightarrow> 337 \<le> doy) \<and> (m = 2 \<longrightarrow> d = doy - 336)
       \<and> (m \<noteq> 2 \<longrightarrow> d \<le> month_days 1 m
            \<and> month_of (doy + 1) = (if d < month_days 1 m then (m, d + 1) else if m < 12 then (m + 1, 1) else (1, 1)))
       \<and> (m = 2 \<and> doy < 365 \<longrightarrow> month_of (doy + 1) = (2, d + 1))) [0..365]"
  by code_simp

text \<open>
  C31: The computed date is the date. Day 0 is January 1, 1970, every next day number is the
  next day of the Gregorian calendar, and so every day number, before and after, gives a
  valid date.
\<close>

theorem civil_from_days_calendar:
  "civil_from_days 0 = (1970, 1, 1)
   \<and> civil_from_days (days + 1) = next_date (civil_from_days days)
   \<and> (case civil_from_days days of (y, m, d) \<Rightarrow> 1 \<le> m \<and> m \<le> 12 \<and> 1 \<le> d \<and> d \<le> month_days y m)"
proof -
  define z where "z = days + 719468"
  define y doy where "y = march_year z" and "doy = march_day z"
  obtain m d where md: "month_of doy = (m, d)" by fastforce
  note dec = march_decomposition [of z, folded y_def doy_def]
  note succ = march_succ [of z, folded y_def doy_def]
  have "doy \<in> set [0..365]" using dec by (auto simp: year_days_def split: if_splits)
  with month_table md have t: "1 \<le> m" "m \<le> 12" "1 \<le> d" "m \<le> 2 \<longleftrightarrow> 306 \<le> doy" "m = 2 \<longleftrightarrow> 337 \<le> doy"
    "m = 2 \<longrightarrow> d = doy - 336" "m \<noteq> 2 \<longrightarrow> d \<le> month_days 1 m"
    "m \<noteq> 2 \<longrightarrow> month_of (doy + 1)
       = (if d < month_days 1 m then (m, d + 1) else if m < 12 then (m + 1, 1) else (1, 1))"
    "m = 2 \<and> doy < 365 \<longrightarrow> month_of (doy + 1) = (2, d + 1)"
    unfolding list_all_iff by fastforce+
  have c: "civil_from_days days = (if m \<le> 2 then y + 1 else y, m, d)"
    using civil_march [OF z_def] md by (simp add: y_def doy_def)
  have c1: "civil_from_days (days + 1) = (case month_of (march_day (z + 1)) of (m, d) \<Rightarrow>
      (if m \<le> 2 then march_year (z + 1) + 1 else march_year (z + 1), m, d))"
    by (rule civil_march) (simp add: z_def)
  have other: "month_days y m = month_days 1 m" if "m \<noteq> 2" for y
    using that by (simp add: month_days_def)
  have next_day: "civil_from_days (days + 1) = next_date (civil_from_days days)"
  proof (cases "doy + 1 < year_days y")
    case True
    from succ(1) [OF this] have n: "march_year (z + 1) = y" "march_day (z + 1) = doy + 1" by simp_all
    show ?thesis
    proof (cases "m = 2")
      case True
      then have "doy < 365" "d < month_days (y + 1) 2"
        using \<open>doy + 1 < year_days y\<close> t(6) by (auto simp: year_days_def month_days_def split: if_splits)
      then show ?thesis using t True by (simp add: c1 c n)
    next
      case False
      define l where "l = month_days 1 m"
      have "month_days v m = l" for v using other [OF False] by (simp only: l_def)
      then show ?thesis using t(1,2) t(8) [folded l_def] False by (auto simp: c1 c n)
    qed
  next
    case False
    from succ(2) [OF this] have n: "march_year (z + 1) = y + 1" "march_day (z + 1) = 0" by simp_all
    from False dec have l: "doy + 1 = year_days y" by linarith
    then have "m = 2" using t(5) by (simp add: year_days_def split: if_splits)
    moreover have "\<not> d < month_days (y + 1) 2"
      using l t(6) \<open>m = 2\<close> by (auto simp: year_days_def month_days_def split: if_splits)
    moreover have "month_of 0 = (3, 1)" by (simp add: month_of_def)
    ultimately show ?thesis by (simp add: c1 c n)
  qed
  have "d \<le> month_days (if m \<le> 2 then y + 1 else y) m"
  proof (cases "m = 2")
    case True
    then show ?thesis using t(6) dec by (auto simp: year_days_def month_days_def split: if_splits)
  next
    case False
    show ?thesis by (rule ord_le_eq_trans [OF t(7) [THEN mp, OF False] other [OF False, symmetric]])
  qed
  moreover have "civil_from_days 0 = (1970, 1, 1)" by code_simp
  ultimately show ?thesis using next_day t(1-3) by (simp add: c)
qed

end
