(* ===== verification/Stats_Table.thy ===== *)
theory Stats_Table
  imports Stats
begin

text \<open>
  The rest of \<^verbatim>\<open>src/src/stats.rs\<close>: the local date that a flush and a report are made for, byte
  counts as text, fetching the report from a running proxy, and the table that is printed of
  it. \<^verbatim>\<open>libc::localtime_r\<close>, the TCP connection and the JSON parser are arguments.
\<close>

section \<open>Dates\<close>

text \<open>\<open>format!("{:04}-{:02}-{:02}")\<close>; a date from the epoch on has no negative part.\<close>

definition date_text :: "int \<times> int \<times> int \<Rightarrow> string" where
  "date_text = (\<lambda>(y, m, d).
     pad 4 (show_int y) @ ''-'' @ pad 2 (show_int m) @ ''-'' @ pad 2 (show_int d))"

text \<open>
  \<open>localtime\<close> gives \<^verbatim>\<open>tm_year\<close>, \<^verbatim>\<open>tm_mon\<close> and \<^verbatim>\<open>tm_mday\<close> of seconds since the epoch, or nothing on
  failure; \<open>millis\<close> is the time, zero for a clock before the epoch.
\<close>

type_synonym localtime = "int \<Rightarrow> (int \<times> int \<times> int) option"

definition local_date :: "localtime \<Rightarrow> nat \<Rightarrow> string" where
  "local_date localtime millis =
     (case localtime (int (millis div 1000)) of
        None \<Rightarrow> take 10 (format_time millis)
      | Some (year, mon, mday) \<Rightarrow> date_text (year + 1900, mon + 1, mday))"

definition stats_flush ::
  "stats_crate \<Rightarrow> localtime \<Rightarrow> write_io \<Rightarrow> nat \<Rightarrow> stats \<Rightarrow> files \<Rightarrow> (stats_error, unit) res \<times> stats \<times> files" where
  "stats_flush X localtime io now = flush_on X io (local_date localtime now)"

definition stats_report :: "localtime \<Rightarrow> string \<Rightarrow> nat \<Rightarrow> stats \<Rightarrow> report" where
  "stats_report localtime version now = report_on version (local_date localtime now)"

text \<open>\<^verbatim>\<open>Stats::memory\<close>; \<open>None\<close> is the panic of its \<^verbatim>\<open>expect\<close>.\<close>

definition stats_memory :: "string \<Rightarrow> string list \<Rightarrow> stats option" where
  "stats_memory now routes =
     (case stats_open \<lparr>days_to_json = (\<lambda>_. []), days_from_json = (\<lambda>_. None)\<rparr> True now routes None (\<lambda>_. None) of
        Inl _ \<Rightarrow> None | Inr st \<Rightarrow> Some st)"

section \<open>Byte counts\<close>

text \<open>\<open>n / d\<close> to the nearest integer, ties to even.\<close>

definition round_half_even :: "nat \<Rightarrow> nat \<Rightarrow> nat" where
  "round_half_even n d =
     (let q = n div d; r = n mod d in
      if 2 * r < d \<or> 2 * r = d \<and> even q then q else q + 1)"

fun bit_len :: "nat \<Rightarrow> nat" where
  "bit_len n = (if n = 0 then 0 else Suc (bit_len (n div 2)))"

declare bit_len.simps [simp del]

text \<open>\<^verbatim>\<open>bytes as f64\<close>: 53 significant bits, rounded to nearest, ties to even. The result is an integer.\<close>

definition u64_as_f64 :: "64 word \<Rightarrow> nat" where
  "u64_as_f64 b =
     (let n = unat b; ulp = 2 ^ (bit_len n - 53) in round_half_even n ulp * ulp)"

definition UNITS :: "string list" where
  "UNITS = [''B'', ''KiB'', ''MiB'', ''GiB'', ''TiB'', ''PiB'']"

text \<open>
  Dividing a number of this range by 1024 only lowers its exponent, so after \<open>unit\<close> rounds of
  the loop its variable \<^verbatim>\<open>value\<close> is exactly \<open>start / 1024 ^ unit\<close>.
\<close>

function scale_unit :: "nat \<Rightarrow> nat \<Rightarrow> nat" where
  "scale_unit start unit =
     (if 1024 * 1024 ^ unit \<le> start \<and> unit < length UNITS - 1 then scale_unit start (unit + 1) else unit)"
  by auto
termination by (relation "measure (\<lambda>(_, unit). length UNITS - unit)") auto

declare scale_unit.simps [simp del]

text \<open>\<^verbatim>\<open>{value:.2}\<close> prints the exact value rounded to hundredths, ties to even.\<close>

definition hundredths_text :: "nat \<Rightarrow> string" where
  "hundredths_text h = show_nat (h div 100) @ ''.'' @ pad 2 (show_nat (h mod 100))"

definition format_bytes :: "64 word \<Rightarrow> string" where
  "format_bytes bytes =
     (if unat bytes < 1024 then show_nat (unat bytes) @ '' B''
      else (let start = u64_as_f64 bytes; unit = scale_unit start 0 in
            hundredths_text (round_half_even (100 * start) (1024 ^ unit)) @ '' '' @ UNITS ! unit))"

section \<open>Fetching a report\<close>

text \<open>What becomes of the connection: it fails at one of the three calls, or the response is read to its end.\<close>

datatype exchange = ConnectFails | WriteFails | ReadFails | Received bytes

datatype fetch_error =
  ConnectTo | RequestStats | ReadStats | InvalidResponse | RequestFailed string | InvalidStats

definition crlf :: string where
  "crlf = [CHR 0x0D, CHR 0x0A]"

definition STATS_REQUEST :: bytes where
  "STATS_REQUEST = ''GET /stats HTTP/1.1'' @ crlf @ ''Host: localhost'' @ crlf @ ''Connection: close'' @ crlf @ crlf"

text \<open>\<^verbatim>\<open>s.lines().next().unwrap_or("")\<close>: a return before the line feed belongs to the line end.\<close>

definition first_line :: "string \<Rightarrow> string" where
  "first_line s =
     (case split_once (CHR 0x0A) s of
        None \<Rightarrow> s
      | Some (line, _) \<Rightarrow> if line \<noteq> [] \<and> last line = CHR 0x0D then butlast line else line)"

definition fetch_report ::
  "(string \<Rightarrow> bytes \<Rightarrow> exchange) \<Rightarrow> (bytes \<Rightarrow> report option) \<Rightarrow> string \<Rightarrow> (fetch_error, report) res" where
  "fetch_report exchange report_from_json addr =
     (case exchange addr STATS_REQUEST of
        ConnectFails \<Rightarrow> Inl ConnectTo
      | WriteFails \<Rightarrow> Inl RequestStats
      | ReadFails \<Rightarrow> Inl ReadStats
      | Received response \<Rightarrow>
          bind_res (ok_or InvalidResponse (split_once_str (crlf @ crlf) response)) (\<lambda>(head, body).
          (let head = from_utf8_lossy head in
           if \<not> prefix ''HTTP/1.1 200'' head then Inl (RequestFailed (first_line head))
           else ok_or InvalidStats (report_from_json body))))"

section \<open>The table\<close>

text \<open>The characters of a string are its bytes that do not continue a UTF-8 sequence.\<close>

definition char_count :: "string \<Rightarrow> nat" where
  "char_count s = length (filter (\<lambda>c. \<not> is_cont (byte c)) s)"

definition pad_right :: "nat \<Rightarrow> string \<Rightarrow> string" where
  "pad_right w s = s @ replicate (w - char_count s) (CHR '' '')"

definition pad_left :: "nat \<Rightarrow> string \<Rightarrow> string" where
  "pad_left w s = replicate (w - char_count s) (CHR '' '') @ s"

definition table_line :: "string \<Rightarrow> string \<Rightarrow> string \<Rightarrow> string \<Rightarrow> string \<Rightarrow> string" where
  "table_line name today month since active =
     pad_right 34 name @ '' '' @ pad_left 12 today @ '' '' @ pad_left 12 month @ '' ''
     @ pad_left 12 since @ '' '' @ pad_left 6 active"

text \<open>A row of sums over kinds; the 64-bit sums wrap as in a release build.\<close>

definition table_row :: "string \<Rightarrow> kind_report list \<Rightarrow> string" where
  "table_row name kinds =
     (let sum = (\<lambda>pick. sum_list (map pick kinds) :: 64 word) in
      table_line name
        (format_bytes (sum (\<lambda>k. t_bytes_out (kr_today k))))
        (format_bytes (sum (\<lambda>k. t_bytes_out (kr_month k))))
        (format_bytes (sum (\<lambda>k. t_bytes_out (kr_since_start k))))
        (show_nat (unat (sum kr_active))))"

definition route_rows :: "route_report \<Rightarrow> string list" where
  "route_rows route =
     table_row (rr_route route) (map snd (rr_kinds route))
     # concat (map (\<lambda>kind. case map_of (rr_kinds route) (kind_name kind) of
           Some k \<Rightarrow> [table_row (''  '' @ kind_name kind) [k]] | None \<Rightarrow> []) KINDS)"

definition table_rows :: "report \<Rightarrow> string list" where
  "table_rows report =
     table_line ''ROUTE / KIND'' ''TODAY'' ''THIS MONTH'' ''SINCE START'' ''ACTIVE''
     # concat (map route_rows (re_routes report))
     @ (if 1 < length (re_routes report)
        then [table_row ''TOTAL'' (concat (map (map snd \<circ> rr_kinds) (re_routes report)))] else [])"

definition render_table :: "report \<Rightarrow> string" where
  "render_table report =
     concat (map (\<lambda>row. row @ [CHR 0x0A]) (table_rows report))
     @ [CHR 0x0A] @ ''Bytes sent to clients. Today is '' @ re_today report @ ''; running since ''
     @ re_started_at report @ '' (proxemby '' @ re_version report @ '').'' @ [CHR 0x0A]"

section \<open>Rounding\<close>

lemma round_half_even_close:
  assumes "0 < d"
  shows "2 * n \<le> 2 * (round_half_even n d * d) + d" "2 * (round_half_even n d * d) \<le> 2 * n + d"
proof -
  have n: "n = n div d * d + n mod d" by simp
  have r: "n mod d < d" using assms by simp
  define q r where "q = n div d" and "r = n mod d"
  have "n = q * d + r" "r < d" using n r by (simp_all only: q_def r_def)
  moreover have "round_half_even n d = (if 2 * r < d \<or> 2 * r = d \<and> even q then q else q + 1)"
    by (simp only: round_half_even_def Let_def q_def r_def)
  then have "2 * r \<le> d \<and> round_half_even n d * d = q * d \<or> d \<le> 2 * r \<and> round_half_even n d * d = q * d + d"
    by (auto split: if_splits)
  ultimately show "2 * n \<le> 2 * (round_half_even n d * d) + d" "2 * (round_half_even n d * d) \<le> 2 * n + d"
    by linarith+
qed

lemma round_half_even_one [simp]: "round_half_even n (Suc 0) = n"
  by (simp add: round_half_even_def)

lemma bit_len_less: "n < 2 ^ k \<Longrightarrow> bit_len n \<le> k"
proof (induction k arbitrary: n)
  case (Suc k)
  then have "bit_len (n div 2) \<le> k" by simp
  then show ?case by (subst bit_len.simps) simp
qed (simp add: bit_len.simps)

lemma u64_as_f64_close:
  "unat b \<le> u64_as_f64 b + 1024" "u64_as_f64 b \<le> unat b + 1024"
  "unat b < 2 ^ 53 \<Longrightarrow> u64_as_f64 b = unat b"
proof -
  define e where "e = bit_len (unat b) - 53"
  have f: "u64_as_f64 b = round_half_even (unat b) (2 ^ e) * 2 ^ e"
    by (simp add: u64_as_f64_def e_def Let_def)
  have "unat b < 2 ^ 64" using unsigned_less [of b] by simp
  then have "e \<le> 11" using bit_len_less [of "unat b" 64] by (simp add: e_def)
  then have "(2 :: nat) ^ e \<le> 2048" using power_increasing [of e 11 "2 :: nat"] by simp
  with round_half_even_close [of "2 ^ e" "unat b"]
  show "unat b \<le> u64_as_f64 b + 1024" "u64_as_f64 b \<le> unat b + 1024" by (simp_all add: f)
  show "u64_as_f64 b = unat b" if "unat b < 2 ^ 53"
    using bit_len_less [OF that] by (simp add: f e_def)
qed

lemma scale_unit_range:
  "u < 6 \<Longrightarrow> 1024 ^ u \<le> n \<or> u = 0 \<Longrightarrow>
   u \<le> scale_unit n u \<and> scale_unit n u < 6
   \<and> (scale_unit n u \<noteq> 0 \<longrightarrow> 1024 ^ scale_unit n u \<le> n)
   \<and> (scale_unit n u \<noteq> 5 \<longrightarrow> n < 1024 * 1024 ^ scale_unit n u)"
proof (induction n u rule: scale_unit.induct)
  case (1 n u)
  show ?case
  proof (cases "1024 * 1024 ^ u \<le> n \<and> u < length UNITS - 1")
    case True
    then have "u < 5" by (simp add: UNITS_def)
    with True 1(1) have "u + 1 \<le> scale_unit n (u + 1) \<and> scale_unit n (u + 1) < 6
       \<and> (scale_unit n (u + 1) \<noteq> 0 \<longrightarrow> 1024 ^ scale_unit n (u + 1) \<le> n)
       \<and> (scale_unit n (u + 1) \<noteq> 5 \<longrightarrow> n < 1024 * 1024 ^ scale_unit n (u + 1))" by simp
    moreover have "scale_unit n u = scale_unit n (u + 1)" using True by (subst scale_unit.simps) simp
    ultimately show ?thesis by simp
  next
    case False
    then have "scale_unit n u = u" by (subst scale_unit.simps) (simp only: if_False)
    moreover have "u \<noteq> 5 \<longrightarrow> n < 1024 * 1024 ^ u" using False 1(2) by (auto simp: UNITS_def)
    ultimately show ?thesis using 1(2,3) by auto
  qed
qed

lemma show_nat_length: "n < 10 ^ k \<Longrightarrow> 0 < k \<Longrightarrow> length (show_nat n) \<le> k"
proof (induction k arbitrary: n)
  case (Suc k)
  show ?case
  proof (cases "n < 10")
    case False
    then have "n div 10 < 10 ^ k" "0 < k" using Suc.prems by (auto intro: Nat.gr0I)
    with Suc.IH [of "n div 10"] False show ?thesis by (simp add: show_nat_step)
  qed (simp add: show_nat_digit)
qed simp

lemma pad_length: "length (pad w s) = max w (length s)"
  by (simp add: pad_def)

section \<open>What is printed\<close>

lemma abs_le_halfI: "2 * (x :: int) \<le> d \<Longrightarrow> - d \<le> 2 * x \<Longrightarrow> 2000 * \<bar>x\<bar> \<le> 1000 * d"
  by (cases "0 \<le> x") simp_all

lemma format_bytes_large:
  assumes "1024 \<le> unat b"
  obtains h u where "0 < u" "u < 6" "format_bytes b = hundredths_text h @ '' '' @ UNITS ! u"
    "1000 * \<bar>100 * int (unat b) - int h * 1024 ^ u\<bar> \<le> 501 * 1024 ^ u" "100 \<le> h"
    "if u = 5 then h \<le> 1638400 else h \<le> 102400"
proof -
  define r where "r = u64_as_f64 b"
  define u where "u = scale_unit r 0"
  define D :: nat where "D = 1024 ^ u"
  define h where "h = round_half_even (100 * r) D"
  note close = u64_as_f64_close [of b, folded r_def]
  have b64: "unat b < 2 ^ 64" using unsigned_less [of b] by simp
  have r: "1024 \<le> r" using close assms by (cases "unat b < 2 ^ 53") simp_all
  have u: "u < 6" "u \<noteq> 0 \<longrightarrow> D \<le> r" "u \<noteq> 5 \<longrightarrow> r < 1024 * D"
    using scale_unit_range [of 0 r] by (simp_all add: u_def D_def)
  have u0: "0 < u" using u(3) r by (cases "u = 0") (simp_all add: D_def)
  have "0 < D" by (simp add: D_def)
  note round = round_half_even_close [OF this, of "100 * r", folded h_def]
  have D5: "D = 1125899906842624" if "u = 5" using that by (simp add: D_def)
  have err: "1000 * \<bar>100 * int (unat b) - int r * 100\<bar> \<le> int D"
  proof (cases "unat b < 2 ^ 53")
    case False
    then have "1024 * 1024 ^ 4 < r" using close by simp
    then have "u = 5" using u(1,3) power_increasing [of u 4 "1024 :: nat"]
      by (cases "u \<le> 4") (auto simp: D_def)
    have "\<bar>100 * int (unat b) - int r * 100\<bar> \<le> 102400" using close(1,2) by linarith
    then have "1000 * \<bar>100 * int (unat b) - int r * 100\<bar> \<le> 1000 * 102400" by (rule mult_left_mono) simp
    also have "\<dots> \<le> int D" using \<open>u = 5\<close> by (simp add: D5)
    finally show ?thesis .
  qed (simp add: close)
  have "200 * int r \<le> 2 * (int h * int D) + int D" "2 * (int h * int D) \<le> 200 * int r + int D"
    using of_nat_mono [OF round(1), where 'a = int] of_nat_mono [OF round(2), where 'a = int] by simp_all
  then have "2000 * \<bar>100 * int r - int h * int D\<bar> \<le> 1000 * int D"
    by (intro abs_le_halfI) simp_all
  moreover have "2000 * \<bar>100 * int (unat b) - int h * int D\<bar>
      \<le> 2 * (1000 * \<bar>100 * int (unat b) - int r * 100\<bar>) + 2000 * \<bar>100 * int r - int h * int D\<bar>"
    using abs_triangle_ineq [of "100 * int (unat b) - int r * 100" "100 * int r - int h * int D"] by simp
  ultimately have "2000 * \<bar>100 * int (unat b) - int h * int D\<bar> \<le> 1002 * int D" using err by linarith
  then have e: "1000 * \<bar>100 * int (unat b) - int h * 1024 ^ u\<bar> \<le> 501 * 1024 ^ u" by (simp add: D_def)
  have "100 * D \<le> 100 * r" using u(2) u0 by simp
  then have "200 * D \<le> 2 * (h * D) + D" using round(1) by linarith
  then have "199 * D \<le> (2 * h) * D" by simp
  then have lower: "100 \<le> h" using \<open>0 < D\<close> by simp
  have upper: "if u = 5 then h \<le> 1638400 else h \<le> 102400"
  proof (cases "u = 5")
    case True
    have "(2 * h) * D < (2 * 1638401) * D" using round(2) close b64 True by (simp add: D5)
    with True \<open>0 < D\<close> show ?thesis by simp
  next
    case False
    then have "100 * r < 102400 * D" using u(3) by simp
    then have "(2 * h) * D < (204801) * D" using round(2) by linarith
    with False \<open>0 < D\<close> show ?thesis by simp
  qed
  have "format_bytes b = hundredths_text h @ '' '' @ UNITS ! u"
    using assms by (simp add: format_bytes_def Let_def h_def D_def u_def r_def)
  with that u0 u(1) e lower upper show thesis by blast
qed

lemma units_length: "u < 6 \<Longrightarrow> length (UNITS ! u) \<le> 3"
  by (auto simp: UNITS_def less_Suc_eq numeral_eq_Suc)

lemma format_bytes_width: "length (format_bytes b) \<le> 12"
proof (cases "unat b < 1024")
  case True
  then have "length (show_nat (unat b)) \<le> 4" by (intro show_nat_length) simp_all
  with True show ?thesis by (simp add: format_bytes_def)
next
  case False
  then obtain h u where f: "u < 6" "format_bytes b = hundredths_text h @ '' '' @ UNITS ! u"
    "if u = 5 then h \<le> 1638400 else h \<le> 102400"
    using format_bytes_large [of b] by (metis not_less)
  have "h div 100 < 10 ^ 5" "h mod 100 < 10 ^ 2" using f(3) by (auto split: if_splits)
  then have "length (show_nat (h div 100)) \<le> 5" "length (show_nat (h mod 100)) \<le> 2"
    by (intro show_nat_length, simp, simp)+
  with units_length [OF f(1)] show ?thesis by (simp add: f(2) hundredths_text_def pad_length)
qed

text \<open>
  C33: A byte count below 1024 is printed exactly. A larger one is printed in hundredths of a
  binary unit, with an error of at most 0.501 hundredths, although it goes through a
  floating-point number; the number is at least one and at most 1024 of its unit unless the
  unit is the largest. The text never has more than twelve characters.
\<close>

theorem format_bytes_close:
  "(if unat b < 1024 then format_bytes b = show_nat (unat b) @ '' B''
    else \<exists>h u. 0 < u \<and> u < 6 \<and> format_bytes b = hundredths_text h @ '' '' @ UNITS ! u
      \<and> 1000 * \<bar>100 * int (unat b) - int h * 1024 ^ u\<bar> \<le> 501 * 1024 ^ u
      \<and> 100 \<le> h \<and> (if u = 5 then h \<le> 1638400 else h \<le> 102400))
   \<and> length (format_bytes b) \<le> 12"
proof (cases "unat b < 1024")
  case True
  then show ?thesis using format_bytes_width [of b] by (simp add: format_bytes_def)
next
  case False
  then show ?thesis using format_bytes_large [of b] format_bytes_width [of b]
    by (metis not_less)
qed

section \<open>Columns\<close>

lemma char_count_simps [simp]:
  "char_count (s @ t) = char_count s + char_count t"
  "char_count (replicate n (CHR '' '')) = n"
  by (simp_all add: char_count_def is_cont_def)

lemma char_count_space [simp]: "char_count (CHR '' '' # s) = Suc (char_count s)"
  by (simp add: char_count_def is_cont_def)

lemma char_count_le: "char_count s \<le> length s"
  by (simp add: char_count_def)

lemma char_count_pads:
  "char_count (pad_left w s) = max w (char_count s)" "char_count (pad_right w s) = max w (char_count s)"
  by (simp_all add: pad_left_def pad_right_def)

lemma table_line_width:
  assumes "char_count name \<le> 34" "length today \<le> 12" "length month \<le> 12" "length since \<le> 12" "length active \<le> 6"
  shows "char_count (table_line name today month since active) = 80"
  using assms char_count_le [of today] char_count_le [of month] char_count_le [of since] char_count_le [of active]
  by (simp add: table_line_def char_count_pads max_def)

lemma unat_sum_list: "unat (sum_list ws) \<le> sum_list (map unat ws)"
proof (induction ws)
  case (Cons w ws)
  have "unat (w + sum_list ws) \<le> unat w + unat (sum_list ws)" by (simp add: unat_word_ariths)
  with Cons show ?case by simp
qed simp

lemma table_row_width:
  assumes "char_count name \<le> 34" "sum_list (map (unat \<circ> kr_active) kinds) < 10 ^ 6"
  shows "char_count (table_row name kinds) = 80"
proof -
  have "unat (sum_list (map kr_active kinds)) < 10 ^ 6"
    using unat_sum_list [of "map kr_active kinds"] assms(2) by simp
  then have "length (show_nat (unat (sum_list (map kr_active kinds)))) \<le> 6"
    by (rule show_nat_length) simp
  with assms(1) show ?thesis unfolding table_row_def Let_def
    by (intro table_line_width format_bytes_width)
qed

lemma sum_list_concat_member: "xs \<in> set xss \<Longrightarrow> sum_list (map f xs) \<le> sum_list (map f (concat xss))"
  for f :: "'a \<Rightarrow> nat"
  by (induction xss) (auto simp: trans_le_add2)

text \<open>
  As long as the route names have at most 34 characters and fewer than a million streams
  are active, every row of the printed table, the header and the total included, has the same
  width: no byte count ever overflows its column.
\<close>

lemma table_aligned:
  assumes names: "\<forall>r\<in>set (re_routes report). char_count (rr_route r) \<le> 34"
    and active: "sum_list (map (unat \<circ> kr_active) (concat (map (map snd \<circ> rr_kinds) (re_routes report)))) < 10 ^ 6"
    and row: "row \<in> set (table_rows report)"
  shows "char_count row = 80"
proof -
  let ?all = "map (map snd \<circ> rr_kinds) (re_routes report)"
  have kinds: "sum_list (map (unat \<circ> kr_active) ks) < 10 ^ 6" if "ks \<in> set ?all" for ks
    using sum_list_concat_member [OF that, of "unat \<circ> kr_active"] active by linarith
  have one: "sum_list (map (unat \<circ> kr_active) [k]) < 10 ^ 6"
    if "r \<in> set (re_routes report)" "map_of (rr_kinds r) n = Some k" for r n k
  proof -
    have "unat (kr_active k) \<in> set (map (unat \<circ> kr_active) (map snd (rr_kinds r)))"
      using map_of_SomeD [OF that(2)] by force
    from member_le_sum_list [OF this] kinds [of "map snd (rr_kinds r)"] that(1) show ?thesis by simp
  qed
  have name: "char_count (''  '' @ kind_name kind) \<le> 34" for kind
    by (cases kind) (simp_all add: char_count_def is_cont_def)
  have route: "char_count row = 80" if r: "r \<in> set (re_routes report)" "row \<in> set (route_rows r)" for r
    using r(2) names r(1) kinds [of "map snd (rr_kinds r)"] one [OF r(1)] name
    unfolding route_rows_def by (auto split: option.splits intro!: table_row_width)
  have header: "char_count (table_line ''ROUTE / KIND'' ''TODAY'' ''THIS MONTH'' ''SINCE START'' ''ACTIVE'') = 80"
    by (rule table_line_width) (simp_all add: char_count_def is_cont_def)
  have "char_count (table_row ''TOTAL'' (concat ?all)) = 80"
    by (rule table_row_width) (use active in \<open>simp_all add: char_count_def is_cont_def\<close>)
  with row route header show ?thesis unfolding table_rows_def by (auto split: if_splits)
qed

text \<open>Ties are rounded to even, and a count just below a unit prints as 1024.00 of the smaller one.\<close>

lemma format_bytes_exact:
  assumes "1024 \<le> unat b" "unat b < 2 ^ 53" "scale_unit (unat b) 0 = u"
  shows "format_bytes b = hundredths_text (round_half_even (100 * unat b) (1024 ^ u)) @ '' '' @ UNITS ! u"
  using assms u64_as_f64_close(3) [OF assms(2)] by (simp add: format_bytes_def Let_def)

lemma format_bytes_samples:
  "format_bytes 1152 = ''1.12 KiB''" "format_bytes 1048575 = ''1024.00 KiB''"
  "format_bytes 13346383872 = ''12.43 GiB''"
proof -
  note eval = round_half_even_def hundredths_text_def UNITS_def show_nat.simps pad_def Let_def
  show "format_bytes 1152 = ''1.12 KiB''"
    by (subst format_bytes_exact [where u = 1]) (simp_all add: scale_unit.simps eval)
  show "format_bytes 1048575 = ''1024.00 KiB''"
    by (subst format_bytes_exact [where u = 1]) (simp_all add: scale_unit.simps eval)
  show "format_bytes 13346383872 = ''12.43 GiB''"
    by (subst format_bytes_exact [where u = 3]) (simp_all add: scale_unit.simps eval)
qed

section \<open>Dates as keys\<close>

lemma append_less:
  "length a = length b \<Longrightarrow> a @ x < b @ y \<longleftrightarrow> a < b \<or> a = b \<and> x < y" for a b :: string
  by (induction a b rule: list_induct2) auto

lemma char_of_less: "a < 256 \<Longrightarrow> b < 256 \<Longrightarrow> char_of a < (char_of b :: char) \<longleftrightarrow> a < b" for a b :: nat
  by (simp add: less_char_def byte_char_of)

text \<open>The last \<open>w\<close> digits of a number.\<close>

primrec digits :: "nat \<Rightarrow> nat \<Rightarrow> string" where
  "digits 0 n = []"
| "digits (Suc w) n = digits w (n div 10) @ [char_of (48 + n mod 10)]"

lemma digits_length [simp]: "length (digits w n) = w"
  by (induction w arbitrary: n) simp_all

lemma digits_less:
  "a < 10 ^ w \<Longrightarrow> b < 10 ^ w \<Longrightarrow> (digits w a < digits w b \<longleftrightarrow> a < b) \<and> (digits w a = digits w b \<longleftrightarrow> a = b)"
proof (induction w arbitrary: a b)
  case (Suc w)
  define qa ra qb rb where q: "qa = a div 10" "ra = a mod 10" "qb = b div 10" "rb = b mod 10"
  then have s: "a = 10 * qa + ra" "b = 10 * qb + rb" "ra < 10" "rb < 10" by simp_all
  have "qa < 10 ^ w" "qb < 10 ^ w" using Suc.prems by (auto simp: q)
  from Suc.IH [OF this] s(3,4)
  have "(digits (Suc w) a < digits (Suc w) b \<longleftrightarrow> qa < qb \<or> qa = qb \<and> ra < rb)
      \<and> (digits (Suc w) a = digits (Suc w) b \<longleftrightarrow> qa = qb \<and> ra = rb)"
    by (simp add: append_less char_of_less flip: q)
  with s show ?case by linarith
qed simp

lemma digits_zero: "digits w 0 = replicate w (CHR ''0'')"
proof (induction w)
  case (Suc w)
  have c: "char_of (48 :: nat) = CHR ''0''" by code_simp
  have "digits (Suc w) 0 = digits w 0 @ [char_of (48 :: nat)]" by simp
  then show ?case by (simp only: Suc.IH c replicate_append_same replicate_Suc)
qed simp

lemma pad_digits: "n < 10 ^ w \<Longrightarrow> 0 < w \<Longrightarrow> pad w (show_nat n) = digits w n"
proof (induction w arbitrary: n)
  case (Suc w)
  show ?case
  proof (cases "n < 10")
    case True
    then show ?thesis by (simp add: pad_def show_nat_digit digits_zero)
  next
    case False
    then have n: "n div 10 < 10 ^ w" "0 < w" using Suc.prems by (auto intro: Nat.gr0I)
    have "pad (Suc w) (show_nat n) = pad w (show_nat (n div 10)) @ [char_of (48 + n mod 10)]"
      using False by (simp add: pad_def show_nat_step)
    with Suc.IH [OF n] show ?thesis by simp
  qed
qed simp

definition calendar_date :: "int \<times> int \<times> int \<Rightarrow> bool" where
  "calendar_date = (\<lambda>(y, m, d). 0 \<le> y \<and> y \<le> 9999 \<and> 1 \<le> m \<and> m \<le> 12 \<and> 1 \<le> d \<and> d \<le> 31)"

lemma date_text_digits:
  "calendar_date (y, m, d) \<Longrightarrow>
     date_text (y, m, d) = digits 4 (nat y) @ ''-'' @ digits 2 (nat m) @ ''-'' @ digits 2 (nat d)"
  by (simp add: calendar_date_def date_text_def show_int_def pad_digits nat_less_iff)

text \<open>
  C32: Dates up to the year 9999 are ten characters, so the slice of the month is in bounds.
  Their texts are ordered as the dates are, so the history that drops its first days drops the
  oldest, and a date starts with the first seven characters of another exactly when both are in
  the same month of the same year, so the month's total is over the days of that month.
\<close>

theorem local_date_order:
  assumes "localtime (int (t1 div 1000)) = Some (y1 - 1900, m1 - 1, d1)" "calendar_date (y1, m1, d1)"
    and "localtime (int (t2 div 1000)) = Some (y2 - 1900, m2 - 1, d2)" "calendar_date (y2, m2, d2)"
  shows "length (local_date localtime t1) = 10
    \<and> (local_date localtime t1 < local_date localtime t2
      \<longleftrightarrow> y1 < y2 \<or> y1 = y2 \<and> (m1 < m2 \<or> m1 = m2 \<and> d1 < d2))
    \<and> (prefix (take 7 (local_date localtime t1)) (local_date localtime t2) \<longleftrightarrow> y1 = y2 \<and> m1 = m2)"
proof -
  have l: "local_date localtime t1 = date_text (y1, m1, d1)" "local_date localtime t2 = date_text (y2, m2, d2)"
    using assms(1,3) by (simp_all add: local_date_def)
  note d = date_text_digits [OF assms(2)] date_text_digits [OF assms(4)]
  have y: "digits 4 (nat y1) < digits 4 (nat y2) \<longleftrightarrow> y1 < y2" "digits 4 (nat y1) = digits 4 (nat y2) \<longleftrightarrow> y1 = y2"
    using digits_less [of "nat y1" 4 "nat y2"] assms(2,4) by (auto simp: calendar_date_def nat_less_iff)
  have m: "digits 2 (nat m1) < digits 2 (nat m2) \<longleftrightarrow> m1 < m2" "digits 2 (nat m1) = digits 2 (nat m2) \<longleftrightarrow> m1 = m2"
    using digits_less [of "nat m1" 2 "nat m2"] assms(2,4) by (auto simp: calendar_date_def nat_less_iff)
  have "digits 2 (nat d1) < digits 2 (nat d2) \<longleftrightarrow> d1 < d2"
    using digits_less [of "nat d1" 2 "nat d2"] assms(2,4) by (auto simp: calendar_date_def nat_less_iff)
  with y m have "local_date localtime t1 < local_date localtime t2
      \<longleftrightarrow> y1 < y2 \<or> y1 = y2 \<and> (m1 < m2 \<or> m1 = m2 \<and> d1 < d2)"
    by (simp add: l d append_less)
  moreover have "length (local_date localtime t1) = 10" by (simp add: l d)
  moreover have "prefix (take 7 (local_date localtime t1)) (local_date localtime t2)
      \<longleftrightarrow> take 7 (local_date localtime t1) = take 7 (local_date localtime t2)"
    by (auto simp: prefix_def l d)
  moreover have "take 7 (local_date localtime t1) = take 7 (local_date localtime t2) \<longleftrightarrow> y1 = y2 \<and> m1 = m2"
    using y(2) m(2) by (simp add: l d)
  ultimately show ?thesis by blast
qed

definition localtime_sample :: localtime where
  "localtime_sample s = (if s < 86400 then Some (99, 11, 31) else Some (100, 0, 1))"

theorem local_date_order_witness:
  "local_date localtime_sample 0 < local_date localtime_sample 86400000
   \<and> \<not> prefix (take 7 (local_date localtime_sample 0)) (local_date localtime_sample 86400000)"
  using local_date_order [of localtime_sample 0 1999 12 31 86400000 2000 1 1]
  by (simp add: localtime_sample_def calendar_date_def)

end
