(* ===== verification/Lifecycle.thy ===== *)
theory Lifecycle
  imports Server Stats_Table
begin

text \<open>
  The life of the process: the accept loop, listen addresses and connection data of
  \<^verbatim>\<open>src/src/server/mod.rs\<close>, the shutdown of \<^verbatim>\<open>src/src/server/shutdown.rs\<close>, and start-up, the
  flush loop and the exit code of \<^verbatim>\<open>src/src/main.rs\<close>. What the operating system does is an
  argument: the outcome of every bind and accept, the moment of a signal.
\<close>

section \<open>Accepting connections\<close>

definition prepare_stream :: "ip_addr \<Rightarrow> nat \<Rightarrow> bool \<Rightarrow> conn_info" where
  "prepare_stream ip port tls = \<lparr>remote_ip = unmap ip, remote_port = port, conn_tls = tls\<rparr>"

datatype io_kind = ConnectionAborted | ConnectionReset | Interrupted | WouldBlock | OtherKind

record io_error =
  ie_kind :: io_kind
  ie_os :: "int option"

definition is_transient_accept_error :: "io_error \<Rightarrow> bool" where
  "is_transient_accept_error e \<longleftrightarrow>
     ie_kind e \<in> {ConnectionAborted, ConnectionReset, Interrupted, WouldBlock}
     \<or> (case ie_os e of Some code \<Rightarrow> code = 24 \<or> code = 23 | None \<Rightarrow> False)"

text \<open>What the select of \<^verbatim>\<open>accept\<close> sees, one turn after the other; the signal comes first.\<close>

datatype accept_event = Triggered | Accepted ip_addr nat | AcceptFailed io_error

text \<open>\<open>None\<close> when the events end while it still waits; else the outcome and the events left.\<close>

fun accept ::
  "accept_event list \<Rightarrow> ((io_error, (ip_addr \<times> nat) option) res \<times> accept_event list) option" where
  "accept [] = None"
| "accept (e # es) =
     (case e of
        Triggered \<Rightarrow> Some (Inr None, es)
      | Accepted ip port \<Rightarrow> Some (Inr (Some (ip, port)), es)
      | AcceptFailed err \<Rightarrow> if is_transient_accept_error err then accept es else Some (Inl err, es))"

lemma accept_shorter: "accept es = Some (r, es') \<Longrightarrow> length es' < length es"
  by (induction es) (auto split: accept_event.splits if_splits)

text \<open>The loop of \<^verbatim>\<open>serve_http\<close>: the connections it spawned, and how it ended, if it did.\<close>

function serve_http :: "accept_event list \<Rightarrow> conn_info list \<times> (io_error, unit) res option" where
  "serve_http es =
     (case accept es of
        None \<Rightarrow> ([], None)
      | Some (Inl err, _) \<Rightarrow> ([], Some (Inl err))
      | Some (Inr None, _) \<Rightarrow> ([], Some (Inr ()))
      | Some (Inr (Some (ip, port)), es') \<Rightarrow>
          (let (conns, r) = serve_http es' in (prepare_stream ip port False # conns, r)))"
  by pat_completeness auto

termination
  by (relation "measure length") (auto dest: accept_shorter)

declare serve_http.simps [simp del]

text \<open>The events that end the loop.\<close>

definition ends_loop :: "accept_event \<Rightarrow> bool" where
  "ends_loop e \<longleftrightarrow> (case e of Triggered \<Rightarrow> True | Accepted _ _ \<Rightarrow> False
     | AcceptFailed err \<Rightarrow> \<not> is_transient_accept_error err)"

definition event_conn :: "accept_event \<Rightarrow> conn_info option" where
  "event_conn e = (case e of Accepted ip port \<Rightarrow> Some (prepare_stream ip port False) | _ \<Rightarrow> None)"

lemma serve_http_step:
  "serve_http [] = ([], None)"
  "serve_http (Triggered # es) = ([], Some (Inr ()))"
  "serve_http (Accepted ip port # es) =
     (let (conns, r) = serve_http es in (prepare_stream ip port False # conns, r))"
  "serve_http (AcceptFailed err # es) =
     (if is_transient_accept_error err then serve_http es else ([], Some (Inl err)))"
  by (subst serve_http.simps, simp; fail)+
    (simp add: serve_http.simps [of "AcceptFailed err # es"] serve_http.simps [of es])

text \<open>
  Exactly the connections accepted before the signal or an error that is not transient are
  served, in their order, and the loop ends with success only by the signal.
\<close>

lemma serve_http_exact:
  "fst (serve_http es) = List.map_filter event_conn (takeWhile (\<lambda>e. \<not> ends_loop e) es)
   \<and> snd (serve_http es) = (case find ends_loop es of
        None \<Rightarrow> None | Some (AcceptFailed err) \<Rightarrow> Some (Inl err) | Some _ \<Rightarrow> Some (Inr ()))"
proof (induction es)
  case Nil
  then show ?case by (simp add: serve_http_step List.map_filter_def)
next
  case (Cons e es)
  then show ?case
    by (cases e) (auto simp: serve_http_step ends_loop_def event_conn_def List.map_filter_def
        split: prod.splits)
qed

text \<open>An IPv4 client on a dual-stack socket is checked as an IPv4 address.\<close>

lemma client_addr_prepared:
  "unmap (fst (client_addr X h (prepare_stream ip port tls) trust))
     = fst (client_addr X h (prepare_stream ip port tls) trust)"
proof -
  have "unmap a = a" if "parse_client_addr raw = Some a" for raw a
    using that by (auto simp: parse_client_addr_def Let_def unmap_idem split: if_splits)
  then show ?thesis
    by (auto simp: client_addr_def prepare_stream_def unmap_idem Let_def
        split: option.splits bind_splits)
qed

section \<open>Listen addresses\<close>

text \<open>\<open>listen\<close> says whether binding an address succeeds; the result is the address bound.\<close>

definition bind_listener :: "(string \<Rightarrow> bool) \<Rightarrow> string \<Rightarrow> string option" where
  "bind_listener listen addr =
     (case strip_prefix '':'' addr of
        Some port \<Rightarrow>
          if listen (''[::]:'' @ port) then Some (''[::]:'' @ port)
          else if listen (''0.0.0.0:'' @ port) then Some (''0.0.0.0:'' @ port) else None
      | None \<Rightarrow> if listen addr then Some addr else None)"

section \<open>Shutdown\<close>

text \<open>The clones of the signal that exist, and whether it was triggered.\<close>

record shutdown =
  sd_triggered :: bool
  sd_alive :: nat

definition shutdown_new :: shutdown where
  "shutdown_new = \<lparr>sd_triggered = False, sd_alive = 1\<rparr>"

definition shutdown_signal :: "shutdown \<Rightarrow> shutdown" where
  "shutdown_signal sd = sd\<lparr>sd_alive := sd_alive sd + 1\<rparr>"

datatype signal_event = CloneSignal | DropSignal

text \<open>
  \<^verbatim>\<open>done.recv()\<close> within the grace period: the events of that period until no clone is left.
\<close>

fun wait_done :: "nat \<Rightarrow> signal_event list \<Rightarrow> bool" where
  "wait_done 0 es = True"
| "wait_done (Suc n) [] = False"
| "wait_done (Suc n) (e # es) =
     (case e of CloneSignal \<Rightarrow> wait_done (Suc (Suc n)) es | DropSignal \<Rightarrow> wait_done n es)"

text \<open>\<^verbatim>\<open>shutdown\<close> triggers the signal, drops its own clone and waits.\<close>

definition shutdown_wait :: "shutdown \<Rightarrow> signal_event list \<Rightarrow> shutdown \<times> bool" where
  "shutdown_wait sd grace =
     (let alive = sd_alive sd - 1 in (\<lparr>sd_triggered = True, sd_alive = alive\<rparr>, wait_done alive grace))"

fun alive_after :: "nat \<Rightarrow> signal_event list \<Rightarrow> nat" where
  "alive_after n [] = n"
| "alive_after n (e # es) = alive_after (case e of CloneSignal \<Rightarrow> n + 1 | DropSignal \<Rightarrow> n - 1) es"

text \<open>It reports success exactly when at some moment of the grace period no clone was left.\<close>

lemma wait_done_iff: "wait_done n es \<longleftrightarrow> (\<exists>k\<le>length es. alive_after n (take k es) = 0)"
proof (induction n es rule: wait_done.induct)
  case (1 es)
  then show ?case by (intro iffI exI [of _ 0]) auto
next
  case (3 n e es)
  have "(\<exists>k\<le>length (e # es). alive_after (Suc n) (take k (e # es)) = 0) \<longleftrightarrow>
      (\<exists>k\<le>length es. alive_after (Suc n) (e # take k es) = 0)"
  proof
    assume "\<exists>k\<le>length (e # es). alive_after (Suc n) (take k (e # es)) = 0"
    then obtain k where "k \<le> length (e # es)" "alive_after (Suc n) (take k (e # es)) = 0" by blast
    then show "\<exists>k\<le>length es. alive_after (Suc n) (e # take k es) = 0"
      by (cases k) auto
  next
    assume "\<exists>k\<le>length es. alive_after (Suc n) (e # take k es) = 0"
    then obtain k where "k \<le> length es" "alive_after (Suc n) (e # take k es) = 0" by blast
    then show "\<exists>k\<le>length (e # es). alive_after (Suc n) (take k (e # es)) = 0"
      by (intro exI [of _ "Suc k"]) simp
  qed
  with 3 show ?case by (cases e) simp_all
qed simp

section \<open>Start-up\<close>

datatype run_error =
  AuthState auth_error | StatsFailed stats_error | ListenFailed string | ServerFailed

definition state_path :: "string \<Rightarrow> string option" where
  "state_path file = (if file = [] then None else Some file)"

definition run_store ::
  "'x route_crate_scheme \<Rightarrow> write_io \<Rightarrow> bool \<Rightarrow> bytes option \<Rightarrow> config \<Rightarrow> files
   \<Rightarrow> (run_error, store option) res \<times> files" where
  "run_store X io read_ok rnd cfg fs =
     (if c_allowed_users cfg = [] then (Inr None, fs)
      else
        (case store_open X io read_ok rnd (state_path (c_auth_state_file cfg)) fs of
           (Inl e, fs) \<Rightarrow> (Inl (AuthState e), fs)
         | (Inr s, fs) \<Rightarrow> (Inr (Some s), fs)))"

definition run_stats ::
  "stats_crate \<Rightarrow> bool \<Rightarrow> string \<Rightarrow> config \<Rightarrow> files \<Rightarrow> (run_error, stats option) res" where
  "run_stats Y read_ok now cfg fs =
     (if \<not> c_stats_enable cfg then Inr None
      else
        (case stats_open Y read_ok now (route_names cfg) (state_path (c_stats_file cfg)) fs of
           Inl e \<Rightarrow> Inl (StatsFailed e)
         | Inr s \<Rightarrow> Inr (Some s)))"

definition run_bind :: "(string \<Rightarrow> bool) \<Rightarrow> string \<Rightarrow> (run_error, string) res" where
  "run_bind listen addr = ok_or (ListenFailed addr) (bind_listener listen addr)"

text \<open>The listeners in the order they are bound: HTTP, admin, TLS.\<close>

definition run_listeners :: "(string \<Rightarrow> bool) \<Rightarrow> config \<Rightarrow> stats option \<Rightarrow> (run_error, string list) res" where
  "run_listeners listen cfg stats =
     bind_res (run_bind listen (c_http_addr cfg)) (\<lambda>http.
     bind_res (if stats \<noteq> None \<and> c_stats_addr cfg \<noteq> [] then map_res (run_bind listen) [c_stats_addr cfg]
               else Inr []) (\<lambda>admin.
     bind_res (if c_tls_enable cfg then map_res (run_bind listen) [c_tls_addr cfg] else Inr []) (\<lambda>tls.
     Inr (http # admin @ tls))))"

text \<open>
  \<^verbatim>\<open>run\<close> up to the point where everything is served: the server, \<open>None\<close> where building it
  panics, and its listeners.
\<close>

definition run_setup ::
  "'x route_crate_scheme \<Rightarrow> stats_crate \<Rightarrow> write_io \<Rightarrow> bool \<Rightarrow> bytes option \<Rightarrow> bool \<Rightarrow> string \<Rightarrow> (string \<Rightarrow> bool)
   \<Rightarrow> logger \<Rightarrow> store \<Rightarrow> config \<Rightarrow> files \<Rightarrow> (run_error, server option \<times> string list) res \<times> files" where
  "run_setup X Y io read_ok rnd stats_ok now listen lg memory cfg fs =
     (case run_store X io read_ok rnd cfg fs of
        (Inl e, fs) \<Rightarrow> (Inl e, fs)
      | (Inr store, fs) \<Rightarrow>
          (bind_res (run_stats Y stats_ok now cfg fs) (\<lambda>stats.
             let sv = server_with_stats X cfg lg store memory stats in
             bind_res (run_listeners listen cfg stats) (\<lambda>ls. Inr (sv, ls))), fs))"

lemma run_stats_opened:
  assumes "run_stats Y read_ok now cfg fs = Inr stats"
  shows "stats = None \<or>
    (\<exists>ok path fs s. stats_open Y ok now (route_names cfg) path fs = Inr s \<and> stats = Some s)"
  using assms by (auto simp: run_stats_def split: if_splits sum.splits)

text \<open>
  C24: Starting never panics. For every configuration and whatever the files on disk hold,
  starting up either reports an error of opening a state file or a listener, or builds a
  server that answers for exactly the configured host names and binds the HTTP listener
  first; the memory store is never needed, as a store is opened whenever the allowed-users
  check is on.
\<close>

theorem startup_never_panics:
  assumes "run_setup X Y io read_ok rnd stats_ok now listen lg memory cfg fs = (Inr (sv, ls), fs')"
  shows "\<exists>s. sv = Some s \<and> dom (sv_routes s) = set (route_names cfg)
    \<and> ls \<noteq> [] \<and> bind_listener listen (c_http_addr cfg) = Some (hd ls)
    \<and> (\<forall>memory'. run_setup X Y io read_ok rnd stats_ok now listen lg memory' cfg fs = (Inr (sv, ls), fs'))"
proof -
  obtain r fs1 where st: "run_store X io read_ok rnd cfg fs = (r, fs1)" by fastforce
  then obtain store where r: "r = Inr store"
    using assms by (cases r) (simp_all add: run_setup_def)
  have b: "bind_res (run_stats Y stats_ok now cfg fs1) (\<lambda>stats.
      bind_res (run_listeners listen cfg stats)
        (\<lambda>ls. Inr (server_with_stats X cfg lg store memory stats, ls))) = Inr (sv, ls)" and f: "fs' = fs1"
    using assms by (auto simp: run_setup_def st r Let_def)
  from b obtain stats where s: "run_stats Y stats_ok now cfg fs1 = Inr stats"
    and sv: "sv = server_with_stats X cfg lg store memory stats"
    and ls: "run_listeners listen cfg stats = Inr ls"
    by (cases "run_stats Y stats_ok now cfg fs1") (auto simp: bind_res_Inr_iff)
  from server_builds [OF run_stats_opened [OF s], of X lg store memory] sv obtain srv where
    srv: "sv = Some srv" "dom (sv_routes srv) = set (route_names cfg)" by auto
  have l: "ls \<noteq> []" "bind_listener listen (c_http_addr cfg) = Some (hd ls)"
    using ls by (auto simp: run_listeners_def run_bind_def bind_res_Inr_iff ok_or_def split: option.splits)
  have e: "server_auth cfg store memory' = server_auth cfg store memory" for memory'
    using st r by (auto simp: run_store_def server_auth_def split: if_splits prod.splits sum.splits option.splits)
  have "server_with_stats X cfg lg store memory' stats = sv" for memory'
    unfolding sv server_with_stats_def e [of memory'] by (rule refl)
  then have "run_setup X Y io read_ok rnd stats_ok now listen lg memory' cfg fs = (Inr (sv, ls), fs')" for memory'
    by (simp add: run_setup_def st r s ls f)
  with srv l show ?thesis by blast
qed

section \<open>Flushing and exit\<close>

datatype flush_event = Tick string write_io | StopFlush

text \<open>The loop of \<^verbatim>\<open>flush_stats\<close>; a failed write is only logged.\<close>

fun flush_stats :: "stats_crate \<Rightarrow> flush_event list \<Rightarrow> stats \<Rightarrow> files \<Rightarrow> stats \<times> files" where
  "flush_stats Y [] st fs = (st, fs)"
| "flush_stats Y (e # es) st fs =
     (case e of
        StopFlush \<Rightarrow> (st, fs)
      | Tick today io \<Rightarrow> (let (_, st, fs) = flush_on Y io today st fs in flush_stats Y es st fs))"

datatype exit_code = ExitSuccess | ExitFailure

definition main_command :: "string list \<Rightarrow> bool \<times> string list" where
  "main_command args = (if args \<noteq> [] \<and> hd args = ''stats'' then (True, tl args) else (False, args))"

text \<open>What a run of the program prints to standard output, and its exit code.\<close>

type_synonym outcome = "string \<times> exit_code"

definition show_stats ::
  "(string \<Rightarrow> bytes \<Rightarrow> exchange) \<Rightarrow> (bytes \<Rightarrow> report option) \<Rightarrow> config \<Rightarrow> outcome" where
  "show_stats exchange report_from_json cfg =
     (if \<not> c_stats_enable cfg then ([], ExitFailure)
      else if c_stats_addr cfg = [] then ([], ExitFailure)
      else
        (case fetch_report exchange report_from_json (admin_connect_addr (c_stats_addr cfg)) of
           Inr report \<Rightarrow> (render_table report, ExitSuccess)
         | Inl _ \<Rightarrow> ([], ExitFailure)))"

text \<open>
  \<open>run\<close> is whether \<^verbatim>\<open>run\<close> ends without an error, \<open>runtime\<close> whether the runtime starts; \<open>version\<close>
  is the package's version.
\<close>

definition main_outcome ::
  "string \<Rightarrow> (string \<Rightarrow> (bool, toml_config) res) \<Rightarrow> (string \<times> string) list \<Rightarrow> (string \<Rightarrow> bytes \<Rightarrow> exchange)
   \<Rightarrow> (bytes \<Rightarrow> report option) \<Rightarrow> bool \<Rightarrow> (config \<Rightarrow> bool) \<Rightarrow> string list \<Rightarrow> outcome" where
  "main_outcome version load env exchange report_from_json runtime run args =
     (let (stats_command, args) = main_command args in
      case from_sources load args (env_map env) of
        Inl Help \<Rightarrow> (USAGE, ExitSuccess)
      | Inl Version \<Rightarrow> (''proxemby '' @ version @ [CHR 0x0A], ExitSuccess)
      | Inl _ \<Rightarrow> ([], ExitFailure)
      | Inr cfg \<Rightarrow>
          if stats_command then show_stats exchange report_from_json cfg
          else if \<not> runtime then ([], ExitFailure)
          else if run cfg then ([], ExitSuccess) else ([], ExitFailure))"

text \<open>A failure prints nothing to standard output, so a script never reads a partial table.\<close>

lemma failure_prints_nothing:
  assumes "main_outcome version load env exchange report_from_json runtime run args = (out, ExitFailure)"
  shows "out = []"
  using assms
  by (auto simp: main_outcome_def show_stats_def split: prod.splits sum.splits config_error.splits if_splits)

definition stats_crate_plain :: stats_crate where
  "stats_crate_plain = \<lparr>days_to_json = (\<lambda>_. []), days_from_json = (\<lambda>_. None)\<rparr>"

theorem startup_never_panics_witness:
  "\<exists>sv ls fs. run_setup route_crate_sample stats_crate_plain io_sample True (Some ''k'') True ''now'' (\<lambda>_. True)
       logger_sample memory_sample config_sample Map.empty = (Inr (Some sv, ls), fs)
     \<and> dom (sv_routes sv) = set (route_names config_sample) \<and> hd ls = ''[::]:8080''"
proof -
  let ?r = "run_setup route_crate_sample stats_crate_plain io_sample True (Some ''k'') True ''now'' (\<lambda>_. True)
    logger_sample memory_sample config_sample Map.empty"
  have "\<not> isl (fst ?r)" by code_simp
  then obtain sv ls where r: "?r = (Inr (sv, ls), snd ?r)"
    by (cases "fst ?r") (auto simp: prod_eq_iff)
  have b: "bind_listener (\<lambda>_. True) (c_http_addr config_sample) = Some ''[::]:8080''" by code_simp
  from startup_never_panics [OF r] obtain s where
    s: "sv = Some s" "dom (sv_routes s) = set (route_names config_sample)"
      "bind_listener (\<lambda>_. True) (c_http_addr config_sample) = Some (hd ls)" by blast
  from s(3) b have "hd ls = ''[::]:8080''" by simp
  with r s show ?thesis by blast
qed

end
