(* ===== verification/Connections.thy ===== *)
theory Connections
  imports Lifecycle
begin

text \<open>
  The tasks of a running process: the listeners of \<^verbatim>\<open>src/src/server/mod.rs\<close>, \<^verbatim>\<open>admin.rs\<close> and
  \<^verbatim>\<open>tls.rs\<close>, the connections they spawn, the flush task, and the end of \<^verbatim>\<open>run\<close> in
  \<^verbatim>\<open>src/src/main.rs\<close>. Each task holds a clone of the shutdown signal. What the operating system,
  hyper and rustls do in one poll is the event of a step; of hyper it is relied on that a
  connection that shuts down gracefully starts no new request.
\<close>

section \<open>Connections\<close>

datatype listener = HttpListener | AdminListener | TlsListener

text \<open>A TLS connection before its handshake is done, and the two halves of \<^verbatim>\<open>serve_connection\<close>
  with the requests in flight. The admin listener does not look at the client's address.\<close>

datatype conn_state = Handshaking | Serving nat | Closing nat

record task =
  tk_listener :: listener
  tk_conn :: "conn_info option"
  tk_state :: conn_state

text \<open>
  One poll of a hyper connection: it starts and finishes requests, or it is done (closed by the
  client or idle after a graceful shutdown).
\<close>

datatype conn_poll = Progress nat nat | Finished

text \<open>
  \<^verbatim>\<open>serve_connection\<close> and the task of \<^verbatim>\<open>serve_admin\<close>: until the signal the connection is polled; the poll
  that sees the signal starts the graceful shutdown, and from then on the connection is awaited.
  The outer option is whether hyper can poll so, the inner one is \<open>None\<close> when the task returns.
\<close>

fun serve_connection :: "bool \<Rightarrow> conn_poll \<Rightarrow> conn_state \<Rightarrow> conn_state option option" where
  "serve_connection triggered poll Handshaking = None"
| "serve_connection triggered poll (Serving n) =
     (case poll of
        Finished \<Rightarrow> Some None
      | Progress started ended \<Rightarrow>
          if n + started < ended then None
          else Some (Some ((if triggered then Closing else Serving) (n + started - ended))))"
| "serve_connection triggered poll (Closing n) =
     (case poll of
        Finished \<Rightarrow> Some None
      | Progress started ended \<Rightarrow>
          if started \<noteq> 0 \<or> n < ended then None else Some (Some (Closing (n - ended))))"

text \<open>
  The handshake of a TLS connection: the client's hello may fail, it may ask for the ACME
  challenge (\<open>challenge\<close> is whether answering and closing that worked), the handshake with the
  server's own certificate may work or not, and all of it may time out.
\<close>

datatype handshake = HelloFails | ChallengeHello bool | PlainHello bool | TimedOut

text \<open>What is done with the stream: only an established connection is served.\<close>

definition tls_accepts :: "bool \<Rightarrow> handshake \<Rightarrow> bool" where
  "tls_accepts has_challenge h =
     (case h of
        HelloFails \<Rightarrow> False
      | TimedOut \<Rightarrow> False
      | ChallengeHello ok \<Rightarrow> \<not> has_challenge \<and> ok
      | PlainHello ok \<Rightarrow> ok)"

section \<open>The tasks of a process\<close>

record proc =
  pr_triggered :: bool
  pr_owner :: bool
  pr_listeners :: "listener list"
  pr_flusher :: bool
  pr_tasks :: "task list"

text \<open>The clones of the signal that exist; \<open>pr_owner\<close> is the one inside \<^verbatim>\<open>Shutdown\<close> itself.\<close>

definition clones :: "proc \<Rightarrow> nat" where
  "clones p = (if pr_owner p then 1 else 0) + length (pr_listeners p) + (if pr_flusher p then 1 else 0)
     + length (pr_tasks p)"

datatype proc_event =
    Listen listener accept_event
  | Handshake nat handshake
  | Poll nat conn_poll
  | FlusherStops
  | ShutdownStarts

definition spawn :: "listener \<Rightarrow> ip_addr \<Rightarrow> nat \<Rightarrow> task" where
  "spawn l ip port =
     \<lparr>tk_listener = l,
      tk_conn = (if l = AdminListener then None else Some (prepare_stream ip port (l = TlsListener))),
      tk_state = (if l = TlsListener then Handshaking else Serving 0)\<rparr>"

definition drop_task :: "nat \<Rightarrow> proc \<Rightarrow> proc" where
  "drop_task i p = p\<lparr>pr_tasks := take i (pr_tasks p) @ drop (Suc i) (pr_tasks p)\<rparr>"

definition set_state :: "nat \<Rightarrow> conn_state \<Rightarrow> proc \<Rightarrow> proc" where
  "set_state i s p = p\<lparr>pr_tasks := (pr_tasks p)[i := (pr_tasks p ! i)\<lparr>tk_state := s\<rparr>]\<rparr>"

text \<open>
  One turn of a listener, the same in \<^verbatim>\<open>serve_http\<close>, \<^verbatim>\<open>serve_admin\<close> and \<^verbatim>\<open>serve_tls\<close>. The select of
  \<^verbatim>\<open>accept\<close> looks at the signal first, so the socket is only asked while it has not fired.
\<close>

definition listener_turn :: "listener \<Rightarrow> accept_event \<Rightarrow> proc \<Rightarrow> (proc \<times> signal_event list) option" where
  "listener_turn l e p =
     (if l \<notin> set (pr_listeners p) then None
      else if pr_triggered p \<noteq> (e = Triggered) then None
      else
        (case accept [e] of
           None \<Rightarrow> Some (p, [])
         | Some (Inr (Some (ip, port)), _) \<Rightarrow>
             Some (p\<lparr>pr_tasks := pr_tasks p @ [spawn l ip port]\<rparr>, [CloneSignal])
         | Some _ \<Rightarrow> Some (p\<lparr>pr_listeners := remove1 l (pr_listeners p)\<rparr>, [DropSignal])))"

definition handshake_turn :: "bool \<Rightarrow> nat \<Rightarrow> handshake \<Rightarrow> proc \<Rightarrow> (proc \<times> signal_event list) option" where
  "handshake_turn has_challenge i h p =
     (if length (pr_tasks p) \<le> i \<or> tk_state (pr_tasks p ! i) \<noteq> Handshaking then None
      else if tls_accepts has_challenge h then Some (set_state i (Serving 0) p, [])
      else Some (drop_task i p, [DropSignal]))"

definition connection_turn :: "nat \<Rightarrow> conn_poll \<Rightarrow> proc \<Rightarrow> (proc \<times> signal_event list) option" where
  "connection_turn i poll p =
     (if length (pr_tasks p) \<le> i then None
      else
        (case serve_connection (pr_triggered p) poll (tk_state (pr_tasks p ! i)) of
           None \<Rightarrow> None
         | Some None \<Rightarrow> Some (drop_task i p, [DropSignal])
         | Some (Some s) \<Rightarrow> Some (set_state i s p, [])))"

text \<open>
  One step, with what it does to the clones of the signal. \<^verbatim>\<open>ShutdownStarts\<close> is the call of
  \<^verbatim>\<open>Shutdown::shutdown\<close>, which fires the signal and drops its own clone.
\<close>

fun proc_step :: "bool \<Rightarrow> proc_event \<Rightarrow> proc \<Rightarrow> (proc \<times> signal_event list) option" where
  "proc_step ch (Listen l e) p = listener_turn l e p"
| "proc_step ch (Handshake i h) p = handshake_turn ch i h p"
| "proc_step ch (Poll i poll) p = connection_turn i poll p"
| "proc_step ch FlusherStops p =
     (if pr_triggered p \<and> pr_flusher p then Some (p\<lparr>pr_flusher := False\<rparr>, [DropSignal]) else None)"
| "proc_step ch ShutdownStarts p =
     (if pr_owner p then Some (p\<lparr>pr_triggered := True, pr_owner := False\<rparr>, [DropSignal]) else None)"

text \<open>A run: the states it ends in and what happened to the clones on the way.\<close>

inductive proc_run :: "bool \<Rightarrow> proc \<Rightarrow> signal_event list \<Rightarrow> proc \<Rightarrow> bool" for ch where
  start: "proc_run ch p [] p"
| more: "proc_run ch p es q \<Longrightarrow> proc_step ch e q = Some (r, es') \<Longrightarrow> proc_run ch p (es @ es') r"

text \<open>What \<^verbatim>\<open>run\<close> starts.\<close>

definition proc_started :: "config \<Rightarrow> bool \<Rightarrow> proc" where
  "proc_started cfg has_stats =
     \<lparr>pr_triggered = False, pr_owner = True,
      pr_listeners = [HttpListener] @ (if has_stats \<and> c_stats_addr cfg \<noteq> [] then [AdminListener] else [])
        @ (if c_tls_enable cfg then [TlsListener] else []),
      pr_flusher = has_stats, pr_tasks = []\<rparr>"

text \<open>Its \<^verbatim>\<open>Shutdown\<close>, after one call of \<^verbatim>\<open>signal\<close> for each task, and then the clones and drops \<open>es\<close>.\<close>

definition proc_shutdown :: "config \<Rightarrow> bool \<Rightarrow> signal_event list \<Rightarrow> shutdown" where
  "proc_shutdown cfg has_stats es =
     (let p = proc_started cfg has_stats;
          tasks = length (pr_listeners p) + (if pr_flusher p then 1 else 0);
          sd = (shutdown_signal ^^ tasks) shutdown_new in
      sd\<lparr>sd_alive := alive_after (sd_alive sd) es\<rparr>)"

section \<open>Clones of the signal\<close>

lemma clones_drop_task: "i < length (pr_tasks p) \<Longrightarrow> clones p = Suc (clones (drop_task i p))"
  by (simp add: clones_def drop_task_def)

lemma clones_set_state: "clones (set_state i s p) = clones p"
  by (simp add: clones_def set_state_def)

lemma length_remove1_Suc: "x \<in> set xs \<Longrightarrow> length xs = Suc (length (remove1 x xs))"
  using length_pos_if_in_set [of x xs] by (simp add: length_remove1)

lemma listener_turn_cases:
  assumes "listener_turn l e p = Some (q, es)"
  obtains (stays) "q = p" "es = []"
    | (spawns) ip port where "\<not> pr_triggered p" "q = p\<lparr>pr_tasks := pr_tasks p @ [spawn l ip port]\<rparr>" "es = [CloneSignal]"
    | (ends) "l \<in> set (pr_listeners p)" "q = p\<lparr>pr_listeners := remove1 l (pr_listeners p)\<rparr>" "es = [DropSignal]"
  using assms unfolding listener_turn_def
  by (cases e) (auto split: if_splits)

lemma proc_step_clones:
  assumes "proc_step ch e p = Some (q, es)"
  shows "clones q = alive_after (clones p) es"
    and "pr_triggered p \<Longrightarrow> CloneSignal \<notin> set es"
    and "pr_triggered p \<Longrightarrow> pr_triggered q"
proof -
  have "clones q = alive_after (clones p) es \<and> (pr_triggered p \<longrightarrow> CloneSignal \<notin> set es)
     \<and> (pr_triggered p \<longrightarrow> pr_triggered q)"
  proof (cases e)
    case (Listen l a)
    with assms have "listener_turn l a p = Some (q, es)" by simp
    then show ?thesis
    proof (cases rule: listener_turn_cases)
      case ends
      then show ?thesis using length_remove1_Suc [OF ends(1)] by (simp add: clones_def)
    qed (auto simp: clones_def)
  next
    case (Handshake i h)
    with assms show ?thesis
      by (auto simp: handshake_turn_def clones_drop_task clones_set_state drop_task_def set_state_def split: if_splits)
        (simp_all add: clones_def set_state_def drop_task_def)
  next
    case (Poll i c)
    with assms show ?thesis
      by (auto simp: connection_turn_def clones_set_state set_state_def drop_task_def
          split: if_splits option.splits) (simp_all add: clones_def)
  qed (use assms in \<open>auto simp: clones_def split: if_splits\<close>)
  then show "clones q = alive_after (clones p) es" "pr_triggered p \<Longrightarrow> CloneSignal \<notin> set es"
    "pr_triggered p \<Longrightarrow> pr_triggered q" by blast+
qed

lemma alive_after_append: "alive_after n (es @ es') = alive_after (alive_after n es) es'"
  by (induction es arbitrary: n) simp_all

lemma proc_run_clones:
  assumes "proc_run ch p es q"
  shows "clones q = alive_after (clones p) es"
    and "pr_triggered p \<Longrightarrow> pr_triggered q \<and> CloneSignal \<notin> set es"
  using assms
proof (induction)
  case (more p es q e r es')
  { case 1 then show ?case using more.IH(1) proc_step_clones(1) [OF more.hyps(2)] by (simp add: alive_after_append) }
  { case 2 then show ?case using more.IH(2) proc_step_clones(2,3) [OF more.hyps(2)] by simp }
qed simp_all

lemma proc_run_owner: "proc_run ch p es q \<Longrightarrow> \<not> pr_owner p \<Longrightarrow> \<not> pr_owner q"
proof (induction rule: proc_run.induct)
  case (more p es q e r es')
  then have "\<not> pr_owner q" by simp
  with more.hyps(2) show ?case
    by (cases e) (auto simp: listener_turn_def handshake_turn_def connection_turn_def drop_task_def set_state_def
        split: if_splits option.splits sum.splits prod.splits)
qed simp

lemma wait_done_drops: "CloneSignal \<notin> set es \<Longrightarrow> wait_done n es \<longleftrightarrow> alive_after n es = 0"
proof (induction n es rule: wait_done.induct)
  case (1 es)
  then show ?case by (induction es) (auto split: signal_event.splits)
next
  case (3 n e es)
  then show ?case by (cases e) simp_all
qed simp

section \<open>Shutting down\<close>

fun state_rank :: "conn_state \<Rightarrow> nat" where
  "state_rank Handshaking = 3" | "state_rank (Serving n) = 2" | "state_rank (Closing n) = 1"

fun in_flight_count :: "conn_state \<Rightarrow> nat" where
  "in_flight_count Handshaking = 0" | "in_flight_count (Serving n) = n" | "in_flight_count (Closing n) = n"

definition proc_rank :: "proc \<Rightarrow> nat" where
  "proc_rank p = (if pr_owner p then 1 else 0) + length (pr_listeners p) + (if pr_flusher p then 1 else 0)
     + sum_list (map (state_rank \<circ> tk_state) (pr_tasks p))"

definition proc_in_flight :: "proc \<Rightarrow> nat" where
  "proc_in_flight p = sum_list (map (in_flight_count \<circ> tk_state) (pr_tasks p))"

lemma sum_list_split_at:
  "i < length xs \<Longrightarrow> sum_list (map f xs) = f (xs ! i) + sum_list (map f (take i xs @ drop (Suc i) xs))"
  for f :: "'a \<Rightarrow> nat"
  by (subst (1) id_take_nth_drop [of i xs]) simp_all

lemma sum_list_set_state:
  assumes "i < length (pr_tasks p)"
  shows "sum_list (map (f \<circ> tk_state) (pr_tasks (set_state i s p))) + f (tk_state (pr_tasks p ! i))
    = sum_list (map (f \<circ> tk_state) (pr_tasks p)) + (f s :: nat)"
proof -
  let ?ts = "(pr_tasks p)[i := (pr_tasks p ! i)\<lparr>tk_state := s\<rparr>]"
  have "take i ?ts @ drop (Suc i) ?ts = take i (pr_tasks p) @ drop (Suc i) (pr_tasks p)" by simp
  then show ?thesis using sum_list_split_at [of i ?ts "f \<circ> tk_state"] assms
      sum_list_split_at [OF assms, of "f \<circ> tk_state"] by (simp add: set_state_def)
qed

lemma set_state_fields [simp]:
  "pr_owner (set_state i s p) = pr_owner p" "pr_listeners (set_state i s p) = pr_listeners p"
  "pr_flusher (set_state i s p) = pr_flusher p" "pr_triggered (set_state i s p) = pr_triggered p"
  by (simp_all add: set_state_def)

lemma set_state_same: "i < length (pr_tasks p) \<Longrightarrow> tk_state (pr_tasks p ! i) = s \<Longrightarrow> set_state i s p = p"
  by (auto simp: set_state_def)

lemma drop_task_rank: "i < length (pr_tasks p) \<Longrightarrow> proc_rank (drop_task i p) < proc_rank p"
  using sum_list_split_at [of i "pr_tasks p" "state_rank \<circ> tk_state"]
  by (cases "tk_state (pr_tasks p ! i)") (simp_all add: proc_rank_def drop_task_def)

lemma set_state_rank:
  assumes "i < length (pr_tasks p)"
  shows "proc_rank (set_state i s p) + state_rank (tk_state (pr_tasks p ! i)) = proc_rank p + state_rank s"
    and "proc_in_flight (set_state i s p) + in_flight_count (tk_state (pr_tasks p ! i))
      = proc_in_flight p + in_flight_count s"
  using sum_list_set_state [OF assms, of state_rank s] sum_list_set_state [OF assms, of in_flight_count s]
  by (simp_all add: proc_rank_def proc_in_flight_def)

lemma connection_turn_decreases:
  assumes "connection_turn i c p = Some (q, es)" "pr_triggered p" "q \<noteq> p"
  shows "proc_rank q < proc_rank p \<or> proc_rank q = proc_rank p \<and> proc_in_flight q < proc_in_flight p"
proof -
  from assms(1) have i: "i < length (pr_tasks p)" by (simp add: connection_turn_def split: if_splits)
  show ?thesis
  proof (cases "q = drop_task i p")
    case False
    then obtain s where s: "serve_connection True c (tk_state (pr_tasks p ! i)) = Some (Some s)" "q = set_state i s p"
      using assms(1,2) i by (auto simp: connection_turn_def split: option.splits)
    then have "state_rank s < state_rank (tk_state (pr_tasks p ! i))
      \<or> s = tk_state (pr_tasks p ! i)
      \<or> state_rank s = state_rank (tk_state (pr_tasks p ! i)) \<and> in_flight_count s < in_flight_count (tk_state (pr_tasks p ! i))"
      by (cases "tk_state (pr_tasks p ! i)"; cases c) (auto split: if_splits)
    then show ?thesis using set_state_rank [OF i, of s] set_state_same [OF i, of s] assms(3) s(2) by auto
  qed (use drop_task_rank [OF i] in simp)
qed

lemma proc_step_decreases:
  assumes "proc_step ch e p = Some (q, es)" "pr_triggered p" "q \<noteq> p"
  shows "proc_rank q < proc_rank p \<or> proc_rank q = proc_rank p \<and> proc_in_flight q < proc_in_flight p"
proof (cases e)
  case (Listen l a)
  with assms(1) have "listener_turn l a p = Some (q, es)" by simp
  then show ?thesis using assms(2,3)
  proof (cases rule: listener_turn_cases)
    case ends
    then show ?thesis using length_remove1_Suc [OF ends(1)] by (simp add: proc_rank_def)
  qed simp_all
next
  case (Handshake i h)
  then have i: "i < length (pr_tasks p)" "tk_state (pr_tasks p ! i) = Handshaking"
    using assms(1) by (auto simp: handshake_turn_def split: if_splits)
  then show ?thesis using assms(1) Handshake drop_task_rank [OF i(1)] set_state_rank(1) [OF i(1), of "Serving 0"]
    by (auto simp: handshake_turn_def split: if_splits)
next
  case (Poll i c)
  with assms show ?thesis by (intro connection_turn_decreases) auto
qed (use assms in \<open>auto simp: proc_rank_def split: if_splits\<close>)

definition shutdown_change :: "bool \<Rightarrow> (proc \<times> proc) set" where
  "shutdown_change ch = {(q, p). pr_triggered p \<and> q \<noteq> p \<and> (\<exists>e es. proc_step ch e p = Some (q, es))}"

lemma shutdown_change_wf: "wf (shutdown_change ch)"
proof (rule wf_subset)
  show "wf (inv_image (less_than <*lex*> less_than) (\<lambda>p. (proc_rank p, proc_in_flight p)))"
    by (intro wf_inv_image wf_lex_prod wf_less_than)
  show "shutdown_change ch \<subseteq> inv_image (less_than <*lex*> less_than) (\<lambda>p. (proc_rank p, proc_in_flight p))"
    using proc_step_decreases by (fastforce simp: shutdown_change_def)
qed

lemma shutdown_progress:
  assumes "pr_triggered p" "clones p \<noteq> 0"
  shows "\<exists>q. (q, p) \<in> shutdown_change ch"
proof -
  have change: ?thesis if "proc_step ch e p = Some (q, es)" "clones q \<noteq> clones p" for e q es
    using that assms(1) unfolding shutdown_change_def by (intro exI [of _ q]) auto
  consider (owner) "pr_owner p" | (flusher) "pr_flusher p" | (listener) l where "l \<in> set (pr_listeners p)"
    | (task) "pr_tasks p \<noteq> []"
    using assms(2) by (auto simp: clones_def split: if_splits) (metis hd_in_set)
  then show ?thesis
  proof cases
    case owner
    then show ?thesis by (intro change [of ShutdownStarts]) (auto simp: clones_def)
  next
    case flusher
    then show ?thesis using assms(1) by (intro change [of FlusherStops]) (auto simp: clones_def)
  next
    case listener
    then show ?thesis using assms(1) length_remove1_Suc [OF listener]
      by (intro change [of "Listen l Triggered" "p\<lparr>pr_listeners := remove1 l (pr_listeners p)\<rparr>"])
        (auto simp: listener_turn_def clones_def)
  next
    case task
    then have "0 < length (pr_tasks p)" by simp
    note d = clones_drop_task [OF this]
    show ?thesis
    proof (cases "tk_state (pr_tasks p ! 0) = Handshaking")
      case True
      then show ?thesis using task d
        by (intro change [of "Handshake 0 TimedOut" "drop_task 0 p"]) (auto simp: handshake_turn_def tls_accepts_def)
    next
      case False
      then show ?thesis using task d
        by (intro change [of "Poll 0 Finished" "drop_task 0 p"])
          (cases "tk_state (pr_tasks p ! 0)"; auto simp: connection_turn_def)+
    qed
  qed
qed

lemma proc_run_prepend:
  "proc_run ch q es r \<Longrightarrow> proc_step ch e p = Some (q, es') \<Longrightarrow> proc_run ch p (es' @ es) r"
proof (induction rule: proc_run.induct)
  case (start q)
  then show ?case using proc_run.more [OF proc_run.start] by fastforce
next
  case (more q es r e' s es'')
  from proc_run.more [OF more.IH [OF more.prems] more.hyps(2)] show ?case by simp
qed

text \<open>
  C16: Shutting down always completes. Once the signal has fired there is no infinite sequence of
  changes, whatever clients, handshakes and requests do, and as long as a task is left something
  can still change; so there is a way in which all of them end, and then
  \<^verbatim>\<open>Shutdown::shutdown\<close> reports that everything finished.
\<close>

theorem shutdown_completes:
  assumes "pr_triggered p"
  shows "wf (shutdown_change ch)
    \<and> (clones p \<noteq> 0 \<longrightarrow> (\<exists>q. (q, p) \<in> shutdown_change ch))
    \<and> (\<exists>es q. proc_run ch p es q \<and> clones q = 0 \<and> wait_done (clones p) es)"
proof -
  have "\<exists>es q. proc_run ch p es q \<and> clones q = 0"
    using shutdown_change_wf [of ch] assms
  proof (induction p rule: wf_induct_rule)
    case (less p)
    show ?case
    proof (cases "clones p = 0")
      case False
      from shutdown_progress [OF less.prems False, of ch] obtain q e es where
        q: "(q, p) \<in> shutdown_change ch" "proc_step ch e p = Some (q, es)"
        by (auto simp: shutdown_change_def) blast
      from less.IH [OF q(1) proc_step_clones(3) [OF q(2) less.prems]] proc_run_prepend [OF _ q(2)]
      show ?thesis by blast
    qed (use proc_run.start in blast)
  qed
  then obtain es q where r: "proc_run ch p es q" "clones q = 0" by blast
  with wait_done_drops [of es "clones p"] proc_run_clones(1) [OF r(1)] proc_run_clones(2) [OF r(1) assms]
  have "wait_done (clones p) es" by simp
  with r show ?thesis using shutdown_change_wf shutdown_progress [OF assms] by blast
qed

text \<open>
  C17: What \<^verbatim>\<open>Shutdown::shutdown\<close> returns is exact. It counts the clones of its signal; over any run
  of the process that count is the number of tasks, so after the grace period it reports success
  exactly when every listener, every connection and the flush task have ended, and after the
  signal no further connection is accepted.
\<close>

theorem shutdown_exact:
  assumes "proc_run ch (proc_started cfg has_stats) es0 p"
    and "proc_step ch ShutdownStarts p = Some (p1, es1)"
    and "proc_run ch p1 es q"
  shows "(snd (shutdown_wait (proc_shutdown cfg has_stats es0) es)
      \<longleftrightarrow> pr_listeners q = [] \<and> \<not> pr_flusher q \<and> pr_tasks q = [])
    \<and> CloneSignal \<notin> set es"
proof -
  have "sd_alive ((shutdown_signal ^^ k) shutdown_new) = Suc k" for k
    by (induction k) (simp_all add: shutdown_signal_def shutdown_new_def)
  then have a: "sd_alive (proc_shutdown cfg has_stats es0) = clones p"
    using proc_run_clones(1) [OF assms(1)]
    by (simp add: proc_shutdown_def proc_started_def clones_def Let_def)
  have p1: "p1 = p\<lparr>pr_triggered := True, pr_owner := False\<rparr>" "pr_owner p"
    using assms(2) by (auto split: if_splits)
  then have c: "clones p - 1 = clones p1" "pr_triggered p1" by (simp_all add: clones_def)
  note r = proc_run_clones(1) [OF assms(3)] proc_run_clones(2) [OF assms(3) c(2)]
  have "\<not> pr_owner q" using proc_run_owner [OF assms(3)] p1(1) by simp
  then have "clones q = 0 \<longleftrightarrow> pr_listeners q = [] \<and> \<not> pr_flusher q \<and> pr_tasks q = []" by (simp add: clones_def)
  with r wait_done_drops [of es "clones p1"] show ?thesis
    unfolding shutdown_wait_def Let_def a c(1) by simp
qed

definition proc_sample :: proc where
  "proc_sample = \<lparr>pr_triggered = True, pr_owner = False, pr_listeners = [HttpListener, TlsListener], pr_flusher = True,
     pr_tasks = [\<lparr>tk_listener = TlsListener, tk_conn = None, tk_state = Handshaking\<rparr>,
       \<lparr>tk_listener = HttpListener, tk_conn = None, tk_state = Serving 2\<rparr>]\<rparr>"

theorem shutdown_completes_witness:
  "(\<exists>q. (q, proc_sample) \<in> shutdown_change True)
   \<and> (\<exists>es q. proc_run True proc_sample es q \<and> clones q = 0 \<and> wait_done 5 es)"
proof -
  have "pr_triggered proc_sample" "clones proc_sample = 5" by (simp_all add: proc_sample_def clones_def)
  with shutdown_completes [of proc_sample True] show ?thesis by simp
qed

theorem shutdown_exact_witness:
  "snd (shutdown_wait (proc_shutdown (config_sample\<lparr>c_tls_enable := False\<rparr>) False []) [DropSignal])"
proof -
  let ?c = "config_sample\<lparr>c_tls_enable := False\<rparr>"
  define p where "p = proc_started ?c False"
  define p1 where "p1 = p\<lparr>pr_triggered := True, pr_owner := False\<rparr>"
  define q where "q = p1\<lparr>pr_listeners := []\<rparr>"
  have s: "proc_step True ShutdownStarts p = Some (p1, [DropSignal])"
    by (simp add: p_def p1_def proc_started_def)
  have "proc_step True (Listen HttpListener Triggered) p1 = Some (q, [DropSignal])"
    by (simp add: p_def p1_def q_def proc_started_def listener_turn_def)
  from proc_run.more [OF proc_run.start this] have r: "proc_run True p1 [DropSignal] q" by simp
  show ?thesis
    using shutdown_exact [OF proc_run.start [of True p, unfolded p_def] s [unfolded p_def] r]
    by (simp add: q_def p1_def p_def proc_started_def)
qed

section \<open>The end of a run\<close>

text \<open>
  Why \<^verbatim>\<open>run\<close> stops: a signal, or a listener's task that was joined, with its result or because it
  panicked. Then the shutdown is awaited with the events of the grace period, and the statistics
  are flushed once more, whatever came before. Both failures are only logged.
\<close>

datatype run_end = SignalReceived string | ListenerEnded "(io_error, unit) res" | ListenerPanicked

record run_result =
  rr_result :: "(run_error, unit) res"
  rr_open_warned :: bool
  rr_flush_warned :: bool
  rr_stats :: "stats option"
  rr_files :: files

definition run_finish ::
  "stats_crate \<Rightarrow> write_io \<Rightarrow> string \<Rightarrow> run_end \<Rightarrow> shutdown \<Rightarrow> signal_event list \<Rightarrow> stats option \<Rightarrow> files \<Rightarrow> run_result" where
  "run_finish Y io today cause sd grace stats fs =
     (let result = (case cause of
            SignalReceived _ \<Rightarrow> Inr ()
          | ListenerEnded (Inr _) \<Rightarrow> Inr ()
          | ListenerEnded (Inl _) \<Rightarrow> Inl ServerFailed
          | ListenerPanicked \<Rightarrow> Inl ServerFailed);
          finished = snd (shutdown_wait sd grace) in
      case stats of
        None \<Rightarrow> \<lparr>rr_result = result, rr_open_warned = \<not> finished, rr_flush_warned = False, rr_stats = None, rr_files = fs\<rparr>
      | Some st \<Rightarrow>
          (let (flushed, st, fs) = flush_on Y io today st fs in
           \<lparr>rr_result = result, rr_open_warned = \<not> finished, rr_flush_warned = isl flushed,
            rr_stats = Some st, rr_files = fs\<rparr>))"

text \<open>The name of the signal; without a handler for it \<^verbatim>\<open>SIGTERM\<close> ends the process by itself.\<close>

datatype os_signal = SigTerm | SigInt

definition wait_for_signal :: "bool \<Rightarrow> os_signal \<Rightarrow> string option" where
  "wait_for_signal registered s =
     (case s of SigTerm \<Rightarrow> if registered then Some ''SIGTERM'' else None | SigInt \<Rightarrow> Some ''SIGINT'')"

section \<open>Statistics survive a restart\<close>

text \<open>The part of a report that is about days: per route and kind the totals of today and of the month.\<close>

definition daily_usage :: "report \<Rightarrow> (string \<times> (string \<times> totals \<times> totals) list) list" where
  "daily_usage report =
     map (\<lambda>r. (rr_route r, map (\<lambda>(kind, k). (kind, kr_today k, kr_month k)) (rr_kinds r))) (re_routes report)"

lemma counters_default_totals [simp]: "counters_totals counters_default = no_totals"
  by (simp add: counters_totals_sums counters_default_def shard_default_def no_totals_def sum_list_replicate)

lemma kind_report_settled:
  assumes "pending route flushed k = no_totals" "pending route' flushed' k = no_totals" "rt_name route = rt_name route'"
  shows "kr_today (kind_report_on days today route flushed k) = kr_today (kind_report_on days today route' flushed' k)"
    and "kr_month (kind_report_on days today route flushed k) = kr_month (kind_report_on days today route' flushed' k)"
  using assms by (simp_all add: kind_report_on_def pending_def Let_def)

lemma flush_saves:
  assumes "flush_on Y io today st fs = (Inr u, st', fs')" "ss_path st = Some p" "io_tmp io \<noteq> p"
  shows "fs' p = Some (OWNER_ONLY, days_to_json Y (ss_days st'))"
  using assms write_private_file_states(3) [OF assms(3)]
  by (auto simp: flush_on_def Let_def split: prod.splits if_splits)


lemma flush_on_days:
  "ss_days (fst (snd (flush_on Y io today st fs)))
     = prune (fst (flush_routes today (zip (ss_routes st) (ss_flushed st)) (ss_days st)))"
  by (simp add: flush_on_def Let_def split: prod.splits option.splits)

definition filed_stats_sample :: stats where
  "filed_stats_sample = stats_sample\<lparr>ss_path := Some ''/data/s''\<rparr>"

definition sample_days :: days where
  "sample_days = prune (fst (flush_routes ''2024-02-01'' (zip (ss_routes stats_sample) (ss_flushed stats_sample))
     (ss_days stats_sample)))"

definition days_crate_sample :: stats_crate where
  "days_crate_sample = \<lparr>days_to_json = (\<lambda>_. ''days''), days_from_json = (\<lambda>_. Some sample_days)\<rparr>"


section \<open>TLS settings\<close>

text \<open>
  \<^verbatim>\<open>client_config\<close>: the roots that could be added of the system's, or else the bundled ones. \<open>add\<close> is
  whether a certificate is accepted as a root.
\<close>

definition client_roots :: "('c \<Rightarrow> bool) \<Rightarrow> 'c list \<Rightarrow> 'c list \<Rightarrow> 'c list" where
  "client_roots add native bundled = (let roots = filter add native in if roots = [] then bundled else roots)"

lemma client_roots_nonempty: "bundled \<noteq> [] \<Longrightarrow> client_roots add native bundled \<noteq> []"
  by (simp add: client_roots_def Let_def)

record tls_server =
  ts_alpn :: "bytes list"
  ts_tickets :: bool

definition server_config :: "bool \<Rightarrow> tls_server" where
  "server_config ticketer = \<lparr>ts_alpn = [''h2'', ''http/1.1''], ts_tickets = ticketer\<rparr>"

record http_client =
  hc_http2 :: bool
  hc_enforce_http :: bool
  hc_keepalive_secs :: nat
  hc_connect_secs :: nat
  hc_idle_secs :: nat

definition build_client :: "bool \<Rightarrow> http_client" where
  "build_client http2 =
     \<lparr>hc_http2 = http2, hc_enforce_http = False, hc_keepalive_secs = 60, hc_connect_secs = 30, hc_idle_secs = 90\<rparr>"

text \<open>\<^verbatim>\<open>Clients::new\<close>: the client for upgrades, where \<open>ob_http1\<close> is set, speaks only HTTP/1.1.\<close>

definition client_for :: "outbound \<Rightarrow> http_client" where
  "client_for out = (if ob_http1 out then build_client False else build_client True)"

text \<open>What \<^verbatim>\<open>serve_tls\<close> of \<^verbatim>\<open>main.rs\<close> asks of ACME.\<close>

record acme_settings =
  ac_domains :: "string list"
  ac_cache_dir :: string
  ac_lets_encrypt :: bool
  ac_contacts :: "string list"

definition acme_config :: "config \<Rightarrow> acme_settings" where
  "acme_config cfg =
     \<lparr>ac_domains = c_acme_domains cfg, ac_cache_dir = c_acme_cache_dir cfg, ac_lets_encrypt = True,
      ac_contacts = (if c_acme_email cfg \<noteq> [] then [''mailto:'' @ c_acme_email cfg] else [])\<rparr>"

end
