(* ===== verification/Messages.thy ===== *)
theory Messages
  imports Audit_Log Connections
begin

text \<open>
  What the program tells its operator: the texts of its errors (the \<^verbatim>\<open>Display\<close> of
  \<^verbatim>\<open>src/src/config.rs\<close> and the strings the other files build), what \<^verbatim>\<open>main\<close> writes to standard
  error, and the records of \<^verbatim>\<open>run\<close>, \<^verbatim>\<open>flush_stats\<close> and \<^verbatim>\<open>serve_tls\<close> in \<^verbatim>\<open>src/src/main.rs\<close>, with those of the logouts
  in \<^verbatim>\<open>src/src/server/route.rs\<close>. It is
  shown that what is logged of the listeners is what was bound, and that no failure is silent.
  The text of an error of the operating system or of a library is an argument.
\<close>

section \<open>Quoted strings\<close>

text \<open>
  \<^verbatim>\<open>{:?}\<close> of a string. Which characters above ASCII are written as \<^verbatim>\<open>\u{...}\<close> is a matter of the
  Unicode tables of the standard library: \<open>wide\<close> gives the text of such a character, from its
  UTF-8 bytes.
\<close>

definition show_hex :: "nat \<Rightarrow> string" where
  "show_hex n = (if n < 16 then [hex_nibble n] else hex2 n)"

definition debug_ascii :: "char \<Rightarrow> string" where
  "debug_ascii c =
     (if c = CHR 0x22 then [CHR 0x5C, CHR 0x22]
      else if c = CHR 0x5C then [CHR 0x5C, CHR 0x5C]
      else if c = CHR 0x00 then CHR 0x5C # ''0''
      else if c = CHR 0x09 then CHR 0x5C # ''t''
      else if c = CHR 0x0A then CHR 0x5C # ''n''
      else if c = CHR 0x0D then CHR 0x5C # ''r''
      else if byte c < 0x20 \<or> byte c = 0x7F then CHR 0x5C # ''u{'' @ show_hex (byte c) @ ''}''
      else [c])"

definition char_width :: "string \<Rightarrow> nat" where
  "char_width s = (case utf8_step s of Inl n \<Rightarrow> n | Inr n \<Rightarrow> n)"

lemma char_width_pos: "0 < char_width s"
  using utf8_step_pos by (auto simp: char_width_def split: sum.split)

function debug_chars :: "(string \<Rightarrow> string) \<Rightarrow> string \<Rightarrow> string" where
  "debug_chars wide [] = []"
| "debug_chars wide (c # s) =
     (if byte c < 0x80 then debug_ascii c @ debug_chars wide s
      else
        (let n = char_width (c # s) in
         wide (take n (c # s)) @ debug_chars wide (drop n (c # s))))"
  by pat_completeness auto
termination
proof (relation "measure (length \<circ> snd)", goal_cases)
  case (3 wide c s n)
  then show ?case using char_width_pos [of "c # s"] by simp
qed simp_all

definition debug_str :: "(string \<Rightarrow> string) \<Rightarrow> string \<Rightarrow> string" where
  "debug_str wide s = CHR 0x22 # debug_chars wide s @ [CHR 0x22]"

lemma one_line_debug_ascii: "one_line (debug_ascii c)"
  using one_line_hex2 [of "byte c"] by (auto simp: debug_ascii_def show_hex_def hex2_def)

lemma one_line_debug_str:
  assumes "\<And>u. one_line (wide u)"
  shows "one_line (debug_str wide s)"
proof -
  have "one_line (debug_chars wide s)"
    by (induction wide s rule: debug_chars.induct [where ?P = "\<lambda>w s. w = wide \<longrightarrow> one_line (debug_chars w s)", THEN mp])
       (auto simp: one_line_debug_ascii assms Let_def)
  then show ?thesis by (simp add: debug_str_def)
qed

section \<open>Errors of the configuration\<close>

fun url_error_text :: "url_error \<Rightarrow> string" where
  "url_error_text MissingScheme = ''missing scheme''"
| "url_error_text InvalidCharacter = ''invalid character in URL''"

fun prefix_error_text :: "(string \<Rightarrow> string) \<Rightarrow> prefix_error \<Rightarrow> string" where
  "prefix_error_text wide (InvalidAddress addr) = ''ParseAddr('' @ debug_str wide addr @ ''): invalid IP address''"
| "prefix_error_text wide (BadBits value) = ''netip.ParsePrefix('' @ debug_str wide value @ ''): bad bits after slash''"

fun log_error_text :: "log_error \<Rightarrow> string" where
  "log_error_text BadLogLevel = ''log level must be debug, info, warn, or error''"
| "log_error_text BadLogFormat = ''log format must be text or json''"

text \<open>\<open>load_error\<close> is the text of the error of reading or parsing a configuration file.\<close>

fun config_error_text :: "(string \<Rightarrow> string) \<Rightarrow> (string \<Rightarrow> string) \<Rightarrow> config_error \<Rightarrow> string" where
  "config_error_text wide load_error Help = ''help requested''"
| "config_error_text wide load_error Version = ''version requested''"
| "config_error_text wide load_error (NotNonNegative name) = name @ '' must be a non-negative integer''"
| "config_error_text wide load_error (NotPositive name) = name @ '' must be a positive integer''"
| "config_error_text wide load_error MaxBytesNotPositive = ''playbackinfo max bytes must be a positive integer''"
| "config_error_text wide load_error TimeoutNegative = ''response header timeout must not be negative''"
| "config_error_text wide load_error (BadClient v e) =
     ''allowed clients contains invalid value '' @ debug_str wide v @ '': '' @ prefix_error_text wide e"
| "config_error_text wide load_error AcmeRequired = ''ACME domains are required when TLS is enabled''"
| "config_error_text wide load_error (BadLogging e) = log_error_text e"
| "config_error_text wide load_error (UrlRequired name) = name @ '' is required''"
| "config_error_text wide load_error (UrlInvalid name e) = name @ '' is invalid: '' @ url_error_text e"
| "config_error_text wide load_error (UrlScheme name) = name @ '' must use http or https''"
| "config_error_text wide load_error (UrlHost name) = name @ '' must include a host''"
| "config_error_text wide load_error NoRoutes = ''at least one route is required''"
| "config_error_text wide load_error (DuplicateHost host) = ''duplicate route public host '' @ debug_str wide host"
| "config_error_text wide load_error (RouteFields entry) =
     ''route '' @ debug_str wide entry @ '' must have upstream_url,public_url[,acme_domain]''"
| "config_error_text wide load_error (RouteUrls entry) =
     ''route '' @ debug_str wide entry @ '' must include upstream_url and public_url''"
| "config_error_text wide load_error (RouteAcme entry) = ''route '' @ debug_str wide entry @ '' has empty acme_domain''"
| "config_error_text wide load_error UseHelp = ''use --help for help; -h is --http-addr''"
| "config_error_text wide load_error (BadFlagSyntax arg) = ''bad flag syntax: '' @ arg"
| "config_error_text wide load_error (UnknownFlag name) = ''flag provided but not defined: -'' @ name"
| "config_error_text wide load_error (BadFlagBool v name) =
     ''invalid boolean value '' @ debug_str wide v @ '' for -'' @ name @ '': parse error''"
| "config_error_text wide load_error (FlagNeedsValue name) = ''flag needs an argument: -'' @ name"
| "config_error_text wide load_error (BadFlagInt v name) =
     ''invalid value '' @ debug_str wide v @ '' for flag -'' @ name @ '': parse error''"
| "config_error_text wide load_error (ExtraArgument extra) = ''unexpected argument '' @ debug_str wide extra"
| "config_error_text wide load_error (LoadFailed path) = ''load config '' @ path @ '': '' @ load_error path"

section \<open>Errors of the state files, the listeners and the report\<close>

text \<open>\<open>os\<close> is the text of the error the system or a library reported; the path is that of the file.\<close>

fun auth_error_text :: "string \<Rightarrow> string \<Rightarrow> auth_error \<Rightarrow> string" where
  "auth_error_text path os ReadFailed = ''load auth state '' @ path @ '': '' @ os"
| "auth_error_text path os BadJson = ''load auth state '' @ path @ '': '' @ os"
| "auth_error_text path os BadSecret = ''load auth state '' @ path @ '': invalid secret: '' @ os"
| "auth_error_text path os NoRandom = ''generate auth secret: '' @ os"
| "auth_error_text path os SaveFailed = ''save auth state: '' @ os"
| "auth_error_text path os EmptyToken = ''empty access token''"

fun stats_error_text :: "string \<Rightarrow> string \<Rightarrow> stats_error \<Rightarrow> string" where
  "stats_error_text path os StatsLoad = ''load stats '' @ path @ '': '' @ os"
| "stats_error_text path os StatsSave = ''save stats '' @ path @ '': '' @ os"

fun fetch_error_text :: "string \<Rightarrow> string \<Rightarrow> fetch_error \<Rightarrow> string" where
  "fetch_error_text addr os ConnectTo =
     ''connect to '' @ addr @ '': '' @ os @ '' (is proxemby running with stats enabled?)''"
| "fetch_error_text addr os RequestStats = ''request stats: '' @ os"
| "fetch_error_text addr os ReadStats = ''read stats: '' @ os"
| "fetch_error_text addr os InvalidResponse = ''invalid stats response''"
| "fetch_error_text addr os (RequestFailed status) = ''stats request failed: '' @ status"
| "fetch_error_text addr os InvalidStats = ''invalid stats: '' @ os"

definition run_error_text :: "config \<Rightarrow> string \<Rightarrow> run_error \<Rightarrow> string" where
  "run_error_text cfg os e =
     (case e of
        AuthState a \<Rightarrow> ''proxemby auth state failed: '' @ auth_error_text (c_auth_state_file cfg) os a
      | StatsFailed s \<Rightarrow> stats_error_text (c_stats_file cfg) os s
      | ListenFailed addr \<Rightarrow> ''listen '' @ addr @ '': '' @ os
      | ServerFailed \<Rightarrow> os)"

section \<open>The records of a run\<close>

text \<open>The conversions of \<^verbatim>\<open>logging.rs\<close> into values of a record.\<close>

definition value_from_str :: "string \<Rightarrow> log_value" where
  "value_from_str v = VStr v"

definition value_from_list :: "string list \<Rightarrow> log_value" where
  "value_from_list v = VList v"

definition value_from_duration :: "nat \<Rightarrow> log_value" where
  "value_from_duration v = VDuration v"

type_synonym log_record = "level \<times> string \<times> (string \<times> log_value) list"

definition SHUTDOWN_GRACE :: nat where
  "SHUTDOWN_GRACE = 10 * 1000000000"

definition starting_records :: "string \<Rightarrow> config \<Rightarrow> log_record list" where
  "starting_records version cfg =
     (Info, ''proxemby starting'', [(''version'', value_from_str version)])
     # map (\<lambda>route. (Info, ''proxemby route configured'',
          [(''public_url'', value_from_str (url_display (r_public_url route))),
           (''upstream_url'', value_from_str (url_display (r_upstream_url route))),
           (''acme_domain'', value_from_str (r_acme_domain route))])) (c_routes cfg)"

definition users_records :: "config \<Rightarrow> log_record list" where
  "users_records cfg =
     (if c_allowed_users cfg = [] then []
      else [(Info, ''proxemby allowed users configured'',
              [(''users'', value_from_list (c_allowed_users cfg)),
               (''state_file'', value_from_str (c_auth_state_file cfg))])])"

definition listening_record :: "string \<Rightarrow> string \<Rightarrow> log_record" where
  "listening_record scheme addr =
     (Info, ''proxemby listening'', [(''scheme'', value_from_str scheme), (''addr'', value_from_str addr)])"

definition stats_listening_record :: "config \<Rightarrow> log_record" where
  "stats_listening_record cfg =
     (Info, ''proxemby stats listening'',
       [(''addr'', value_from_str (c_stats_addr cfg)), (''file'', value_from_str (c_stats_file cfg))])"

definition acme_record :: "config \<Rightarrow> log_record" where
  "acme_record cfg =
     (Info, ''proxemby tls acme configured'',
       [(''domains'', value_from_list (c_acme_domains cfg)), (''cache_dir'', value_from_str (c_acme_cache_dir cfg))])"

text \<open>A record follows the bind it tells of; \<^verbatim>\<open>serve_tls\<close> logs its ACME settings before it binds.\<close>

definition after_bind :: "(string \<Rightarrow> bool) \<Rightarrow> string \<Rightarrow> log_record list \<Rightarrow> log_record list" where
  "after_bind listen addr records = (case run_bind listen addr of Inl _ \<Rightarrow> [] | Inr _ \<Rightarrow> records)"

definition serve_tls_records :: "(string \<Rightarrow> bool) \<Rightarrow> config \<Rightarrow> log_record list" where
  "serve_tls_records listen cfg =
     acme_record cfg # after_bind listen (c_tls_addr cfg) [listening_record ''https'' (c_tls_addr cfg)]"

definition listener_records :: "(string \<Rightarrow> bool) \<Rightarrow> config \<Rightarrow> stats option \<Rightarrow> log_record list" where
  "listener_records listen cfg stats =
     (let tls = (if c_tls_enable cfg then serve_tls_records listen cfg else []) in
      after_bind listen (c_http_addr cfg)
        (listening_record ''http'' (c_http_addr cfg)
         # (if stats \<noteq> None \<and> c_stats_addr cfg \<noteq> []
            then after_bind listen (c_stats_addr cfg) (stats_listening_record cfg # tls) else tls)))"

text \<open>What \<^verbatim>\<open>run\<close> logs up to the point where everything is served or an error ends it.\<close>

definition setup_records ::
  "'x route_crate_scheme \<Rightarrow> stats_crate \<Rightarrow> write_io \<Rightarrow> bool \<Rightarrow> bytes option \<Rightarrow> bool \<Rightarrow> string \<Rightarrow> (string \<Rightarrow> bool)
   \<Rightarrow> string \<Rightarrow> config \<Rightarrow> files \<Rightarrow> log_record list" where
  "setup_records X Y io read_ok rnd stats_ok now listen version cfg fs =
     starting_records version cfg
     @ (case run_store X io read_ok rnd cfg fs of
          (Inl _, _) \<Rightarrow> []
        | (Inr _, fs) \<Rightarrow>
            users_records cfg
            @ (case run_stats Y stats_ok now cfg fs of
                 Inl _ \<Rightarrow> []
               | Inr stats \<Rightarrow> listener_records listen cfg stats))"

text \<open>The end of \<^verbatim>\<open>run\<close>, and the failed writes of the flush task.\<close>

definition flush_failed_record :: "string \<Rightarrow> log_record" where
  "flush_failed_record e = (Warn, ''proxemby stats flush failed'', [(''error'', value_from_str e)])"

definition finish_records :: "config \<Rightarrow> string \<Rightarrow> run_end \<Rightarrow> run_result \<Rightarrow> log_record list" where
  "finish_records cfg os cause res =
     (case cause of
        SignalReceived name \<Rightarrow>
          [(Info, ''proxemby shutting down'',
             [(''signal'', value_from_str name), (''grace'', value_from_duration SHUTDOWN_GRACE)])]
      | _ \<Rightarrow> [])
     @ (if rr_open_warned res
        then [(Warn, ''proxemby closed connections still open after the grace period'', [])] else [])
     @ (if rr_flush_warned res
        then [flush_failed_record (stats_error_text (c_stats_file cfg) os StatsSave)] else [])"

text \<open>The events of the ACME task, an outcome or an error with its text.\<close>

definition acme_event_record :: "(string, string) res \<Rightarrow> log_record" where
  "acme_event_record event =
     (case event of
        Inr ok \<Rightarrow> (Info, ''acme event'', [(''event'', value_from_str ok)])
      | Inl err \<Rightarrow> (Error, ''acme error'', [(''error'', value_from_str err)]))"

text \<open>Logouts: the request of \<^verbatim>\<open>upstream_logout\<close>, and removing the session from the store.\<close>

datatype logout_sent = LogoutAnswered | LogoutFailed string "string list" | LogoutTimedOut

definition upstream_logout_records :: "logout_sent \<Rightarrow> log_record list" where
  "upstream_logout_records r =
     (case r of
        LogoutAnswered \<Rightarrow> []
      | LogoutFailed err sources \<Rightarrow>
          [(Warn, ''upstream logout failed'', [(''error'', value_from_str (error_chain err sources))])]
      | LogoutTimedOut \<Rightarrow> [(Warn, ''upstream logout failed'', [(''error'', value_from_str ''timeout'')])])"

definition session_removed_records :: "string \<Rightarrow> string \<Rightarrow> (auth_error, unit) res \<Rightarrow> log_record list" where
  "session_removed_records path os removed =
     (case removed of
        Inr _ \<Rightarrow> []
      | Inl e \<Rightarrow> [(Error, ''auth session remove failed'', [(''error'', value_from_str (auth_error_text path os e))])])"

text \<open>The lines that a logger writes for a list of records, at the times of \<open>clock\<close>.\<close>

definition write_records :: "logger \<Rightarrow> (nat \<Rightarrow> nat) \<Rightarrow> log_record list \<Rightarrow> string list" where
  "write_records lg clock records =
     List.map_filter (\<lambda>(i, level, msg, attrs). log_at lg (clock i) level msg attrs) (enumerate 0 records)"

section \<open>What is announced is bound\<close>

text \<open>The address a record announces a listener on.\<close>

definition announced_listener :: "log_record \<Rightarrow> string option" where
  "announced_listener r =
     (case r of (level, msg, attrs) \<Rightarrow>
        if msg \<in> set [''proxemby listening'', ''proxemby stats listening'']
        then (case map_of attrs ''addr'' of Some (VStr addr) \<Rightarrow> Some addr | _ \<Rightarrow> None) else None)"

definition announced_listeners :: "log_record list \<Rightarrow> string list" where
  "announced_listeners records = List.map_filter announced_listener records"

lemma announced_listeners_simps [simp]:
  "announced_listeners [] = []"
  "announced_listeners (rs @ rs') = announced_listeners rs @ announced_listeners rs'"
  "announced_listeners (listening_record scheme addr # rs) = addr # announced_listeners rs"
  "announced_listeners (stats_listening_record cfg # rs) = c_stats_addr cfg # announced_listeners rs"
  "announced_listeners (acme_record cfg # rs) = announced_listeners rs"
  by (simp_all add: announced_listeners_def announced_listener_def listening_record_def
      stats_listening_record_def acme_record_def value_from_str_def List.map_filter_def)

lemma announced_listeners_before [simp]:
  "announced_listeners (starting_records version cfg) = []"
  "announced_listeners (users_records cfg) = []"
  by (simp_all add: announced_listeners_def announced_listener_def starting_records_def users_records_def
      List.map_filter_def filter_map comp_def)

lemma run_bind_cases:
  obtains (bound) b where "run_bind listen addr = Inr b" "bind_listener listen addr = Some b"
        | (failed) "run_bind listen addr = Inl (ListenFailed addr)" "bind_listener listen addr = None"
  by (cases "bind_listener listen addr") (simp_all add: run_bind_def)

lemma listeners_announced:
  "case run_listeners listen cfg stats of
     Inr ls \<Rightarrow> map (bind_listener listen) (announced_listeners (listener_records listen cfg stats)) = map Some ls
   | Inl e \<Rightarrow> (\<exists>addr. e = ListenFailed addr \<and> bind_listener listen addr = None)
       \<and> (\<forall>addr\<in>set (announced_listeners (listener_records listen cfg stats)). bind_listener listen addr \<noteq> None)"
proof (cases rule: run_bind_cases [of listen "c_http_addr cfg"])
  case bound
  then show ?thesis
    by (cases rule: run_bind_cases [of listen "c_stats_addr cfg"];
        cases rule: run_bind_cases [of listen "c_tls_addr cfg"])
       (simp_all add: run_listeners_def listener_records_def after_bind_def serve_tls_records_def Let_def)
next
  case failed
  then show ?thesis by (simp add: run_listeners_def listener_records_def after_bind_def)
qed

text \<open>
  The log of a start is true. If starting succeeds, the log announces exactly the listeners that
  were bound, in their order; if it fails, every listener announced was bound, an address that
  could not be bound is not announced, and none is when a state file could not be opened.
\<close>

lemma startup_log_true:
  assumes "run_setup X Y io read_ok rnd stats_ok now listen lg memory cfg fs = (r, fs')"
    and "told = announced_listeners (setup_records X Y io read_ok rnd stats_ok now listen version cfg fs)"
  shows "case r of
      Inr (sv, ls) \<Rightarrow> map (bind_listener listen) told = map Some ls
    | Inl (ListenFailed addr) \<Rightarrow> addr \<notin> set told \<and> (\<forall>a\<in>set told. bind_listener listen a \<noteq> None)
    | Inl e \<Rightarrow> told = []"
proof -
  obtain s fs1 where st: "run_store X io read_ok rnd cfg fs = (s, fs1)" by fastforce
  show ?thesis
  proof (cases s)
    case (Inl e)
    then obtain a where "e = AuthState a" using st by (auto simp: run_store_def split: if_splits prod.splits sum.splits)
    with Inl st assms(1) show ?thesis by (auto simp: assms(2) run_setup_def setup_records_def)
  next
    case s: (Inr store)
    show ?thesis
    proof (cases "run_stats Y stats_ok now cfg fs1")
      case (Inl e)
      then obtain x where "e = StatsFailed x" by (auto simp: run_stats_def split: if_splits sum.splits)
      with Inl s st assms(1) show ?thesis by (auto simp: assms(2) run_setup_def setup_records_def)
    next
      case (Inr stats)
      with s st have told: "told = announced_listeners (listener_records listen cfg stats)"
        by (simp add: assms(2) setup_records_def)
      show ?thesis
        using assms(1) listeners_announced [of listen cfg stats] s st Inr
        by (cases "run_listeners listen cfg stats") (fastforce simp: told run_setup_def)+
    qed
  qed
qed

section \<open>Standard error\<close>

definition eprintln :: "string \<Rightarrow> string" where
  "eprintln t = t @ [CHR 0x0A]"

definition show_stats_stderr ::
  "string \<Rightarrow> (string \<Rightarrow> bytes \<Rightarrow> exchange) \<Rightarrow> (bytes \<Rightarrow> report option) \<Rightarrow> config \<Rightarrow> string list" where
  "show_stats_stderr os exchange report_from_json cfg =
     (if \<not> c_stats_enable cfg
      then [eprintln ''stats are disabled: set [stats] enable = true in the config'']
      else if c_stats_addr cfg = []
      then [eprintln ''the stats listener is disabled: set [stats] addr in the config'']
      else
        (let addr = admin_connect_addr (c_stats_addr cfg) in
         case fetch_report exchange report_from_json addr of
           Inr _ \<Rightarrow> []
         | Inl e \<Rightarrow> [eprintln (fetch_error_text addr os e)]))"

text \<open>
  What \<^verbatim>\<open>main\<close> writes to standard error, in order. \<open>run\<close> gives the records of a run and its error,
  \<open>os\<close> the text of a system error.
\<close>

definition main_stderr ::
  "(string \<Rightarrow> string) \<Rightarrow> (string \<Rightarrow> string) \<Rightarrow> string \<Rightarrow> (nat \<Rightarrow> nat) \<Rightarrow> (string \<Rightarrow> (bool, toml_config) res)
   \<Rightarrow> (string \<times> string) list \<Rightarrow> (string \<Rightarrow> bytes \<Rightarrow> exchange) \<Rightarrow> (bytes \<Rightarrow> report option) \<Rightarrow> bool
   \<Rightarrow> (config \<Rightarrow> log_record list \<times> string option) \<Rightarrow> string list \<Rightarrow> string list" where
  "main_stderr wide load_error os clock load env exchange report_from_json runtime run args =
     (let (stats_command, args) = main_command args in
      case from_sources load args (env_map env) of
        Inl Help \<Rightarrow> []
      | Inl Version \<Rightarrow> []
      | Inl e \<Rightarrow> [eprintln (config_error_text wide load_error e)]
      | Inr cfg \<Rightarrow>
          if stats_command then show_stats_stderr os exchange report_from_json cfg
          else if \<not> runtime then [eprintln (''start runtime: '' @ os)]
          else
            (let (records, failure) = run cfg in
             write_records (logger_new (c_logging cfg)) clock
               (records
                @ (case failure of
                     None \<Rightarrow> []
                   | Some e \<Rightarrow> [(Error, ''proxemby server failed'', [(''error'', value_from_str e)])]))))"

lemma log_at_error: "log_at lg now Error msg attrs \<noteq> None"
proof -
  have "level_rank l \<le> 3" for l by (cases l) simp_all
  then show ?thesis by (simp add: log_at_def log_line_def log_enabled_def less_eq_level_def Let_def)
qed

text \<open>A record of an error is written at every configured level.\<close>

lemma write_records_error: "write_records lg clock (records @ [(Error, msg, attrs)]) \<noteq> []"
  using log_at_error [of lg "clock (length records)" msg attrs]
  by (auto simp: write_records_def enumerate_append_eq List.map_filter_def)

text \<open>
  No failure is silent, and a script never reads a message as a result: a run that ends with the
  failure code prints nothing to standard output and something to standard error, whatever the
  configured log level, and one that prints to standard output writes nothing to standard error.
\<close>

lemma failures_are_reported:
  assumes "main_outcome version load env exchange report_from_json runtime (\<lambda>cfg. snd (run cfg) = None) args = (out, code)"
    and "err = main_stderr wide load_error os clock load env exchange report_from_json runtime run args"
  shows "code = ExitFailure \<Longrightarrow> out = [] \<and> err \<noteq> []"
    and "out \<noteq> [] \<Longrightarrow> code = ExitSuccess \<and> err = []"
  using assms(1)
  by (auto simp: assms(2) main_outcome_def main_stderr_def show_stats_def show_stats_stderr_def eprintln_def
      write_records_error Let_def split: prod.splits sum.splits config_error.splits if_splits option.splits)

end
