(* ===== verification/Tests_Util.thy ===== *)
theory Tests_Util
  imports Route_Proxy
begin

text \<open>
  The model against the repository's own unit tests: the test modules of \<^verbatim>\<open>src/src/util.rs\<close>,
  \<^verbatim>\<open>server/auth_gate.rs\<close> and \<^verbatim>\<open>server/route.rs\<close>. Each test is a closed boolean, the conjunction of
  its assertions in their order over the model's definitions, and a lemma evaluates it. So the
  definitions compute what the authors of the program say that its functions compute.
\<close>

section \<open>Panics of a test\<close>

text \<open>
  A test that calls \<^verbatim>\<open>unwrap\<close> fails when there is no value: the rest of the test goes on with the
  value, if there is one.
\<close>

definition unwrap_some :: "'a option \<Rightarrow> ('a \<Rightarrow> bool) \<Rightarrow> bool" where
  "unwrap_some x rest = (case x of Some a \<Rightarrow> rest a | None \<Rightarrow> False)"

definition unwrap_ok :: "('e, 'a) res \<Rightarrow> ('a \<Rightarrow> bool) \<Rightarrow> bool" where
  "unwrap_ok x rest = (case x of Inr a \<Rightarrow> rest a | Inl _ \<Rightarrow> False)"

declare unwrap_some_def [code_unfold] unwrap_ok_def [code_unfold]

lemma unwrap_simps [simp]:
  "unwrap_some (Some a) rest = rest a" "unwrap_some None rest = False"
  "unwrap_ok (Inr b) rest' = rest' b" "unwrap_ok (Inl e) rest' = False"
  by (simp_all add: unwrap_some_def unwrap_ok_def)

text \<open>
  The string literals of the tests, with a stand-in for each character that is awkward to write
  here: \<^verbatim>\<open>`\<close> for a double quote, \<^verbatim>\<open>~\<close> for a backslash, \<^verbatim>\<open>^\<close> for a line feed and \<^verbatim>\<open>!\<close> for a tab.
  None of the literals contains a stand-in itself.
\<close>

definition raw_str :: "string \<Rightarrow> string" where
  "raw_str = map (\<lambda>c. if c = CHR 0x60 then CHR 0x22 else if c = CHR 0x7E then CHR 0x5C
     else if c = CHR 0x5E then CHR 0x0A else if c = CHR 0x21 then CHR 0x09 else c)"

section \<open>util.rs\<close>

definition test_sanitizes_queries_like_go :: bool where
  "test_sanitizes_queries_like_go =
     (sanitize_raw_query ''api_key=secret&token=abc&device=ios''
        = ''api_key=redacted&device=ios&token=redacted''
      \<and> sanitize_raw_query ''a=1;b=2'' = ''a=1;b=2''
      \<and> sanitize_request_uri ''/emby/Items/1/PlaybackInfo'' (Some ''api_key=secret'')
        = ''/emby/Items/1/PlaybackInfo?api_key=redacted''
      \<and> sanitize_url_string ''https://vod.us.emby.com/movie.mp4?token=secret''
        = ''https://vod.us.emby.com/movie.mp4?token=redacted'')"

lemma sanitizes_queries_like_go: test_sanitizes_queries_like_go
  by code_simp

definition test_escapes_paths_like_go :: bool where
  "test_escapes_paths_like_go =
     (escape_path ''/movie file(1).mp4'' = ''/movie%20file%281%29.mp4''
      \<and> query_escape ''a b/c'' = ''a+b%2Fc''
      \<and> unwrap_some (percent_decode ''a%20b+c'' True) (\<lambda>decoded. decoded = ''a b c'')
      \<and> percent_decode ''a%zz'' False = None)"

lemma escapes_paths_like_go: test_escapes_paths_like_go
  by code_simp

definition test_hostnames :: bool where
  "test_hostnames =
     (hostname ''two.example.com:443'' = ''two.example.com''
      \<and> hostname ''[::1]:8080'' = ''::1''
      \<and> hostname ''::1'' = ''::1''
      \<and> hostname ''proxemby'' = ''proxemby'')"

lemma hostnames: test_hostnames
  by code_simp

definition test_prefixes :: bool where
  "test_prefixes =
     (unwrap_ok (prefix_parse ''192.168.0.1/24'') (\<lambda>p.
        prefix_display p = ''192.168.0.0/24''
        \<and> unwrap_some (parse_ip ''192.168.0.77'') (prefix_contains p)
        \<and> unwrap_some (parse_ip ''::ffff:192.168.0.77'') (prefix_contains p)
        \<and> unwrap_some (parse_ip ''192.168.1.1'') (\<lambda>a. \<not> prefix_contains p a))
      \<and> unwrap_ok (prefix_parse ''::1'') (\<lambda>p. unwrap_some (parse_ip ''::1'') (prefix_contains p))
      \<and> isl (prefix_parse ''not-an-ip'')
      \<and> isl (prefix_parse ''10.0.0.0/33''))"

text \<open>Words and their numeric values are evaluated by the simplifier.\<close>

lemma numeral_replicate: "replicate (numeral n) x = x # replicate (pred_numeral n) x"
  by (simp add: numeral_eq_Suc)

lemmas v6_groups_numeral =
  read_v6_groups.simps(2) [where k = "pred_numeral n" for n, folded numeral_eq_Suc]

lemmas ip_eval = parse_ip_def read_ipv4_def read_ipv6_def read_v4_groups_4 v6_groups_numeral
  read_separator_def read_number_def radix_val_def digit_in_def is_ascii_digit_def groups_val_def
  Let_def strip_prefix_def numeral_replicate

text \<open>For evaluation by code: the bytes of an address go into the word one by one.\<close>

lemma read_ipv4_code [code]:
  "read_ipv4 s = map_option (apfst (foldl (\<lambda>w g. 256 * w + word_of_nat g) 0)) (read_v4_groups 4 0 s)"
proof -
  have "word_of_nat (groups_val 256 gs) = foldl (\<lambda>w g. 256 * w + word_of_nat g) (0 :: 32 word) gs" for gs
    unfolding groups_val_def by (induction gs rule: rev_induct) simp_all
  then show ?thesis by (simp add: read_ipv4_def)
qed

text \<open>A group is only compared with its limit where there are digits.\<close>

lemma read_v6_groups_code [code]:
  "read_v6_groups 0 i s = ([], False, s)"
  "read_v6_groups (Suc k) i s =
     (case (if 0 < k then read_separator (CHR '':'') i read_ipv4 s else None) of
        Some (a, r) \<Rightarrow> ([unat a div 65536, unat a mod 65536], True, r)
      | None \<Rightarrow>
          (case read_separator (CHR '':'') i (\<lambda>s. if takeWhile (\<lambda>c. digit_in 16 c \<noteq> None) s = [] then None
                                              else read_number 16 4 65535 True s) s of
             None \<Rightarrow> ([], False, s)
           | Some (g, r) \<Rightarrow>
               (let (gs, v4, r') = read_v6_groups k (Suc i) r in (g # gs, v4, r'))))"
proof -
  have "(\<lambda>s. if takeWhile (\<lambda>c. digit_in 16 c \<noteq> None) s = [] then None else read_number 16 4 65535 True s)
      = read_number 16 4 65535 True"
    by (auto simp: fun_eq_iff read_number_def)
  then show "read_v6_groups (Suc k) i s =
     (case (if 0 < k then read_separator (CHR '':'') i read_ipv4 s else None) of
        Some (a, r) \<Rightarrow> ([unat a div 65536, unat a mod 65536], True, r)
      | None \<Rightarrow>
          (case read_separator (CHR '':'') i (\<lambda>s. if takeWhile (\<lambda>c. digit_in 16 c \<noteq> None) s = [] then None
                                              else read_number 16 4 65535 True s) s of
             None \<Rightarrow> ([], False, s)
           | Some (g, r) \<Rightarrow>
               (let (gs, v4, r') = read_v6_groups k (Suc i) r in (g # gs, v4, r'))))"
    by (simp only: read_v6_groups.simps)
qed simp

lemma test_addresses:
  "parse_ip ''192.168.0.77'' = Some (V4 0xC0A8004D)" "parse_ip ''192.168.1.1'' = Some (V4 0xC0A80101)"
  "parse_ip ''::1'' = Some (V6 1)" "parse_ip ''::ffff:192.168.0.77'' = Some (V6 0xFFFFC0A8004D)"
  by (simp_all add: ip_eval)

lemma test_networks:
  "prefix_parse ''::1'' = Inr \<lparr>p_addr = V6 1, p_bits = 128\<rparr>"
  "isl (prefix_parse ''not-an-ip'')" "isl (prefix_parse ''10.0.0.0/33'')"
  by (simp_all add: prefix_parse_def ip_eval max_bits_def unmap_def to_ipv4_mapped_def parse_unsigned_def)

lemma prefixes: test_prefixes
  by (simp add: test_prefixes_def test_addresses test_networks prefix_parse_example prefix_contains_def
      unmap_def to_ipv4_mapped_def mask_addr_def mask_eq_exp_minus_1 prefix_display_def show_ip_def
      show_v4_def octets_def show_nat.simps)

section \<open>auth_gate.rs\<close>

definition test_login_paths :: bool where
  "test_login_paths =
     (is_login_path ''/emby/Users/AuthenticateByName''
      \<and> is_login_path ''/base/emby/Users/abc/Authenticate''
      \<and> \<not> is_login_path ''/emby/Users/abc/Items'')"

lemma login_paths: test_login_paths
  by code_simp

definition test_public_paths :: bool where
  "test_public_paths =
     (let public = (\<lambda>m p. is_public_emby_path m (emby_path_segments p)) in
      public ''GET'' ''/emby/System/Info/Public''
      \<and> public ''GET'' ''/''
      \<and> public ''GET'' ''/web/index.html''
      \<and> public ''GET'' ''/emby/Items/1/Images/Primary''
      \<and> \<not> public ''POST'' ''/emby/Items/1/Images/Primary''
      \<and> \<not> public ''GET'' ''/emby/Users/1/Items'')"

lemma public_paths: test_public_paths
  by code_simp

section \<open>route.rs\<close>

definition test_joins_like_go :: bool where
  "test_joins_like_go =
     (join_path '''' ''/emby/Items'' = ''/emby/Items''
      \<and> join_path ''/base/'' ''/emby'' = ''/base/emby''
      \<and> join_path ''/base'' ''emby'' = ''/base/emby''
      \<and> join_query '''' ''a=1'' = ''a=1''
      \<and> join_query ''k=v'' ''a=1'' = ''k=v&a=1''
      \<and> is_playback_info_path ''/emby/Items/1/playbackinfo'')"

lemma joins_like_go: test_joins_like_go
  by code_simp

end
