(* ===== verification/Tests_Auth.thy ===== *)
theory Tests_Auth
  imports Auth_Store Tests_Util
begin

text \<open>
  The unit tests of \<^verbatim>\<open>src/src/auth.rs\<close> on the model. Where a test writes the state file or uses
  HMAC and base64, it holds for all implementations of these crates that do what they document
  on the values of the test.
\<close>

section \<open>Tokens of requests\<close>

text \<open>\<^verbatim>\<open>headers\<close>; \<open>None\<close> when a name or a value is not accepted.\<close>

fun test_headers ::
  "'x http_crate_scheme \<Rightarrow> (string \<times> string) list \<Rightarrow> header_map \<Rightarrow> header_map option" where
  "test_headers X [] headers = Some headers"
| "test_headers X ((k, v) # pairs) headers =
     Option.bind (hn_from_bytes X k) (\<lambda>name.
     Option.bind (hv_from_str X v) (\<lambda>value.
     test_headers X pairs (header_insert headers name value)))"

definition test_request_token_sources :: "'x http_crate_scheme \<Rightarrow> bool" where
  "test_request_token_sources X =
     list_all (\<lambda>(h, q, want). unwrap_some (test_headers X h (\<lambda>_. [])) (\<lambda>headers. request_token X headers q = want))
       [([], None, None),
        ([(''X-Emby-Token'', ''abc'')], None, Some ''abc''),
        ([(''X-MediaBrowser-Token'', ''abc'')], None, Some ''abc''),
        ([(''X-Emby-Authorization'', raw_str
            (''MediaBrowser Client=`Emby Web`, Device=`Chrome, Mac`, DeviceId=`d1`, ''
             @ ''Version=`4.8`, Token=`abc`''))], None, Some ''abc''),
        ([(''Authorization'', raw_str ''MediaBrowser Client=`Emby Web`, DeviceId=`d1`'')], None, None),
        ([(''Authorization'', raw_str ''MediaBrowser AccessToken=`nope`'')], None, None),
        ([], Some ''api_key=abc'', Some ''abc''),
        ([], Some ''X-Emby-Token=abc&deviceId=d1'', Some ''abc'')]"

text \<open>Header names are stored in lower case, and the values of the test are all visible ASCII.\<close>

definition test_header_crate :: auth_crate where
  "test_header_crate = crate_sample\<lparr>hn_from_bytes := (\<lambda>n. Some (to_ascii_lowercase n))\<rparr>"

lemma request_token_sources: "test_request_token_sources test_header_crate"
  unfolding test_request_token_sources_def list.pred_inject
  apply (intro conjI)
  subgoal by code_simp
  subgoal by code_simp
  subgoal by code_simp
  subgoal by code_simp
  subgoal by code_simp
  subgoal by code_simp
  subgoal by code_simp
  subgoal by code_simp
  subgoal by simp
  done

section \<open>The state file\<close>

definition test_store_persists_sessions_and_secret ::
  "'x auth_crate_scheme \<Rightarrow> write_io \<Rightarrow> bytes option \<Rightarrow> files \<Rightarrow> string \<Rightarrow> string \<Rightarrow> bool" where
  "test_store_persists_sessions_and_secret X io rnd fs path now =
     (case store_open X io True rnd (Some path) (fs(path := None)) of (opened, fs) \<Rightarrow> unwrap_ok opened (\<lambda>store.
     (case store_add X io store ''tok'' (session_new now ''proxemby'' ''id'' ''ken'') fs of
        (added, store, fs) \<Rightarrow> unwrap_ok added (\<lambda>_.
     (let signature = store_sign X store [''proxemby'', ''https'', ''cdn.example.com''] in
      unwrap_some (fs path) (\<lambda>(mode, _). mode = OWNER_ONLY)
      \<and> (case store_open X io True rnd (Some path) fs of (opened, fs) \<Rightarrow> unwrap_ok opened (\<lambda>reopened.
           unwrap_some (store_lookup reopened ''tok'') (\<lambda>s. s_user_name s = ''ken'')
           \<and> store_is_valid reopened ''tok'' ''proxemby''
           \<and> \<not> store_is_valid reopened ''tok'' ''other''
           \<and> store_verify X reopened signature [''proxemby'', ''https'', ''cdn.example.com'']
           \<and> \<not> store_verify X reopened signature [''proxemby'', ''https'', ''other.example.com'']
           \<and> \<not> store_verify X reopened ''AAAA'' [''proxemby'', ''https'', ''cdn.example.com'']
           \<and> (case store_remove X io reopened ''tok'' fs of (removed, _, fs) \<Rightarrow> unwrap_ok removed (\<lambda>_.
                unwrap_ok (fst (store_open X io True rnd (Some path) fs)) (\<lambda>last_opened.
                  store_lookup last_opened ''tok'' = None))))))))))"

lemma store_persists_sessions_and_secret:
  assumes files: "\<And>st ss. st_secret st = secret \<Longrightarrow> dom ss \<subseteq> {''tok''} \<Longrightarrow> file_law X (state_file X st ss)"
    and "signing_laws X"
    and "b64url_decode X ''AAAA'' = Some (replicate 3 (CHR 0x00))"
    and "take 16 (hmac_sha256 X secret (mac_input [''proxemby'', ''https'', ''cdn.example.com'']))
      \<noteq> take 16 (hmac_sha256 X secret (mac_input [''proxemby'', ''https'', ''other.example.com'']))"
    and "secret \<noteq> []" and "io_open io" "io_write io" "io_sync io" "io_rename io"
    and "io_tmp io \<noteq> path" "fs (io_tmp io) = None"
  shows "test_store_persists_sessions_and_secret X io (Some secret) fs path now"
proof -
  let ?st = "\<lparr>st_path = Some path, st_secret = secret, st_sessions = Map.empty\<rparr>"
  let ?ss = "[''tok'' \<mapsto> session_new now ''proxemby'' ''id'' ''ken'']"
  have "file_law X (state_file X ?st Map.empty)" "file_law X (state_file X ?st ?ss)" by (rule files; simp)+
  with assms(2-) show ?thesis
    by (simp add: test_store_persists_sessions_and_secret_def store_open_def store_save_def store_add_def
      store_remove_def store_lookup_def store_is_valid_def store_verify_def store_sign_def store_mac_def
      signing_laws_def file_law_def state_file_def session_new_def write_private_file_def write_steps_def
      domIff Let_def)
qed

section \<open>Signatures\<close>

definition test_signature_matches_go_implementation :: "'x auth_crate_scheme \<Rightarrow> bool" where
  "test_signature_matches_go_implementation X =
     (let store = \<lparr>st_path = None, st_secret = ''0123456789abcdef0123456789abcdef'', st_sessions = Map.empty\<rparr>;
          message = ''r'' @ [CHR 0x00] @ ''https'' @ [CHR 0x00] @ ''h'' @ [CHR 0x00];
          expected = b64url_encode X (take 16 (hmac_sha256 X (st_secret store) message)) in
      store_sign X store [''r'', ''https'', ''h''] = expected \<and> length expected = 22)"

lemma signature_matches_go_implementation:
  assumes "\<And>k m. length (hmac_sha256 X k m) = 32" "\<And>b. length b = 16 \<Longrightarrow> length (b64url_encode X b) = 22"
  shows "test_signature_matches_go_implementation X"
  using assms by (simp add: test_signature_matches_go_implementation_def store_sign_def store_mac_def
      mac_input_def Let_def)

end
