(* ===== verification/Tests_Rewrite.thy ===== *)
theory Tests_Rewrite
  imports Rewrite Tests_Util
begin

text \<open>
  The unit tests of \<^verbatim>\<open>src/src/rewrite.rs\<close> on the model. The JSON text that serde writes for a
  string, a parameter of the rewriter, is the one of \<open>json_string\<close> here: the URLs of the tests
  have no character that either of them escapes.
\<close>

definition test_rewriter :: rewriter where
  "test_rewriter = rewriter_new
     (case url_parse ''http://proxemby'' of Inr u \<Rightarrow> u | Inl _ \<Rightarrow> undefined)"

definition test_rewrites_nested_url_strings :: bool where
  "test_rewrites_nested_url_strings =
     (let registry = registry_new [];
          body = raw_str (''{^!!`MediaSources`: [{^!!!`Path`: `https://vod.us.emby.com/movie file.mp4?token=abc`,^''
            @ ''!!!`Nested`: {`Url`: `http://cdn.example.com/subtitle.srt`}^!!}],^''
            @ ''!!`Name`: `http-ish but not absolute`,^!!`ImageTags`: {`Primary`: `abc`}^!}'');
          (out, events, registry) = rewrite_playback_info json_string test_rewriter registry body in
      length events = 2
      \<and> e_path (events ! 0) = ''MediaSources.0.Path''
      \<and> e_path (events ! 1) = ''MediaSources.0.Nested.Url''
      \<and> unwrap_some out (\<lambda>out_text. valid_utf8 out_text
        \<and> contains_str (raw_str
            ''`http://proxemby/_proxy/https/vod.us.emby.com/movie%20file.mp4?token=abc`'') out_text
        \<and> contains_str (raw_str ''`http://proxemby/_proxy/http/cdn.example.com/subtitle.srt`'') out_text
        \<and> contains_str (raw_str ''`Name`: `http-ish but not absolute`'') out_text)
      \<and> registry_lookup registry ''vod.us.emby.com'' \<noteq> None
      \<and> registry_lookup registry ''cdn.example.com'' = Some ''http'')"

lemma rewrites_nested_url_strings: test_rewrites_nested_url_strings
  by code_simp

definition test_ignores_invalid_json_and_non_urls :: bool where
  "test_ignores_invalid_json_and_non_urls =
     (let rewrite = rewrite_playback_info json_string test_rewriter;
          (out, events, registry) = rewrite (registry_new []) ''not-json'';
          (out2, events2, registry) =
            rewrite registry (raw_str ''{`Text`:`ftp://example.com/file`,`Name`:`plain`}'');
          (out3, _, _) = rewrite registry (raw_str ''{`Path`:`https://x.example.com/a`} trailing'') in
      out = None \<and> events = [] \<and> out2 = None \<and> events2 = [] \<and> out3 = None)"

lemma ignores_invalid_json_and_non_urls: test_ignores_invalid_json_and_non_urls
  by code_simp

definition test_handles_escapes_keys_and_signatures :: bool where
  "test_handles_escapes_keys_and_signatures =
     (let r = with_signer test_rewriter (\<lambda>scheme host. ''sig-'' @ scheme @ ''-'' @ host);
          (out, events, _) = rewrite_playback_info json_string r (registry_new [])
            (raw_str (''{`a.b`:[`x`,{`U`:`https:~/~/h.example.com:8443~/d~/f.mkv#frag`}],''
              @ ''`https://key.example.com`:1}'')) in
      length events = 1
      \<and> e_path (events ! 0) = raw_str ''a~.b.1.U''
      \<and> e_host (events ! 0) = ''h.example.com:8443''
      \<and> unwrap_some out (\<lambda>out_text. out_text = raw_str
          (''{`a.b`:[`x`,{`U`:`http://proxemby/_proxy/sig-https-h.example.com:8443/https/''
            @ ''h.example.com:8443/d/f.mkv`}],`https://key.example.com`:1}'')))"

lemma handles_escapes_keys_and_signatures: test_handles_escapes_keys_and_signatures
  by code_simp

definition test_scanner_rejects_malformed_json :: bool where
  "test_scanner_rejects_malformed_json =
     (list_all (\<lambda>bad. scan (raw_str bad) = None)
       [''{'', ''{`a`:}'', ''{`a`:1,}'', ''[1,]'', ''01'', ''`~x`'', ''-'', ''1.'', ''tru'']
      \<and> list_all (\<lambda>good. scan (raw_str good) \<noteq> None)
       [''1'', ''-0.5e+3'', ''[]'', ''{}'', ''{`a`:[true,false,null]}'',
        ''`'' @ [CHR 0xF0, CHR 0x9F, CHR 0x98, CHR 0x80] @ ''`''])"

lemma scanner_rejects_malformed_json: test_scanner_rejects_malformed_json
  by code_simp

end
