(* ===== verification/Tests_Logging.thy ===== *)
theory Tests_Logging
  imports Audit_Log Tests_Util
begin

text \<open>
  The unit tests of \<^verbatim>\<open>src/src/logging.rs\<close> on the model. The buffer a logger of a test writes to is
  the concatenation of the lines of its calls; \<open>now\<close> is the clock, which no test prints.
\<close>

text \<open>\<^verbatim>\<open>Buf\<close>: a writer that never fails and appends what it is given.\<close>

definition buf_write :: "bytes \<Rightarrow> string option \<Rightarrow> bytes" where
  "buf_write buf line = (case line of Some data \<Rightarrow> buf @ data | None \<Rightarrow> buf)"

definition test_parse_config_validates_values :: bool where
  "test_parse_config_validates_values =
     (unwrap_ok (log_parse_config ''WARNING'' '' JSON '' False) (\<lambda>cfg.
        l_level cfg = Warn \<and> l_format cfg = Json)
      \<and> isl (log_parse_config ''verbose'' ''text'' True)
      \<and> isl (log_parse_config ''info'' ''plain'' True))"

lemma parse_config_validates_values: test_parse_config_validates_values
  by code_simp

definition test_text_and_json_output :: "nat \<Rightarrow> bool" where
  "test_text_and_json_output now =
     (let config = \<lparr>l_level = Debug, l_format = Text, l_time = False\<rparr>;
          logger = log_with (logger_new config) [(''route'', VStr ''proxemby'')];
          buf = buf_write [] (log_debug logger now ''request completed''
            [(''path'', VStr ''/a b''), (''status'', VInt 200), (''ok'', VBool True)]);
          json_logger = logger_new (config\<lparr>l_format := Json\<rparr>);
          json_buf = buf_write [] (log_warn json_logger now ''x'' [(''users'', VList [''a''])]) in
      buf = raw_str
        ''level=DEBUG msg=`request completed` route=proxemby path=`/a b` status=200 ok=true^''
      \<and> json_buf = raw_str ''{`level`:`WARN`,`msg`:`x`,`users`:[`a`]}^'')"

lemma text_and_json_output: "test_text_and_json_output now"
proof -
  have "text_line None Debug ''request completed'' [(''route'', VStr ''proxemby''), (''path'', VStr ''/a b''),
      (''status'', VInt 200), (''ok'', VBool True)] @ [CHR 0x0A]
      = raw_str ''level=DEBUG msg=`request completed` route=proxemby path=`/a b` status=200 ok=true^''"
    "json_line None Warn ''x'' [(''users'', VList [''a''])] @ [CHR 0x0A]
      = raw_str ''{`level`:`WARN`,`msg`:`x`,`users`:[`a`]}^''" by code_simp+
  then show ?thesis
    by (simp add: test_text_and_json_output_def buf_write_def log_debug_def log_warn_def log_at_def
        log_line_def log_enabled_def log_with_def logger_new_def less_eq_level_def)
qed

definition test_info_level_skips_debug :: "nat \<Rightarrow> bool" where
  "test_info_level_skips_debug now =
     (let logger = logger_new log_config_default in
      buf_write [] (log_debug logger now ''hidden'' []) = [])"

lemma info_level_skips_debug: "test_info_level_skips_debug now"
  by (simp add: test_info_level_skips_debug_def buf_write_def log_debug_def log_at_def log_enabled_def
      logger_new_def log_config_default_def less_eq_level_def)

definition test_formats_like_go :: bool where
  "test_formats_like_go =
     (format_duration (400 * 1000) = ''0s''
      \<and> format_duration (12 * 1000000) = ''12ms''
      \<and> format_duration (1500 * 1000000) = ''1.5s''
      \<and> format_duration (125004 * 1000000) = ''2m5.004s''
      \<and> format_time 1790000000123 = ''2026-09-21T14:13:20.123Z'')"

lemma test_date: "civil_from_days 20717 = (2026, 9, 21)"
  by code_simp

lemma test_durations:
  "format_duration (400 * 1000) = ''0s''" "format_duration (12 * 1000000) = ''12ms''"
  "format_duration (1500 * 1000000) = ''1.5s''" "format_duration (125004 * 1000000) = ''2m5.004s''"
  by (simp_all add: format_duration_def show_nat.simps trim_end_zeros_def pad_def numeral_replicate)

lemma formats_like_go: test_formats_like_go
  unfolding test_formats_like_go_def
  by (simp only: simp_thms test_durations) (simp add: format_time_def test_date show_int_def pad_def show_nat.simps)

end
