(* ===== verification/Tests_Config.thy ===== *)
theory Tests_Config
  imports Config Tests_Util
begin

text \<open>
  The unit tests of \<^verbatim>\<open>src/src/config.rs\<close> on the model. Where a test writes a configuration file,
  the parameter \<open>load\<close> gives its document, as the TOML parser reads it, for the path of the test.
\<close>

section \<open>Helpers of the tests\<close>

text \<open>\<^verbatim>\<open>write_config\<close>: from then on the path of the test has the document, no other file exists.\<close>

definition TEST_PATH :: string where
  "TEST_PATH = ''/tmp/proxemby-test-1.toml''"

definition no_file :: "string \<Rightarrow> (bool, toml_config) res" where
  "no_file _ = Inl True"

definition test_write_config :: "(bool, toml_config) res \<Rightarrow> string \<Rightarrow> (bool, toml_config) res" where
  "test_write_config document path = (if path = TEST_PATH then document else Inl True)"

definition test_sources ::
  "(string \<Rightarrow> (bool, toml_config) res) \<Rightarrow> string list \<Rightarrow> (string \<times> string) list \<Rightarrow> (config_error, config) res"
  where
  "test_sources load args env = from_sources_with_default load args (env_map env) []"

text \<open>A document in which no key is set, for the tests to fill in.\<close>

definition toml_empty :: toml_config where
  "toml_empty =
     \<lparr>t_routes = None, t_server_http_addr = None, t_tls_enable = None, t_tls_addr = None,
      t_tls_acme_email = None, t_tls_acme_cache_dir = None, t_proxy_allowed_hosts = None,
      t_proxy_playbackinfo_max_bytes = None, t_proxy_response_header_timeout = None,
      t_proxy_hide_client = None, t_clients_allowed = None, t_clients_trust_proxy_headers = None,
      t_auth_allowed_users = None, t_auth_state_file = None, t_stats_enable = None, t_stats_addr = None,
      t_stats_file = None, t_logging_debug = None, t_logging_level = None, t_logging_format = None,
      t_logging_time = None\<rparr>"

section \<open>The environment\<close>

definition test_env_requires_route :: bool where
  "test_env_requires_route = isl (from_env_map (env_map []))"

lemma env_requires_route: test_env_requires_route
  by code_simp

definition test_env_defaults_and_allowed_hosts :: bool where
  "test_env_defaults_and_allowed_hosts =
     (unwrap_ok (from_env_map (env_map
        [(''PROXEMBY_ROUTE'', ''https://us.emby.com,http://proxemby''), (''PROXEMBY_ALLOWED_HOSTS'',
          ''vod.us.emby.com, cdn.example.com '')])) (\<lambda>cfg.
        length (c_routes cfg) = 1
        \<and> url_display (r_upstream_url (c_routes cfg ! 0)) = ''https://us.emby.com''
        \<and> url_display (r_public_url (c_routes cfg ! 0)) = ''http://proxemby''
        \<and> r_acme_domain (c_routes cfg ! 0) = ''proxemby''
        \<and> c_http_addr cfg = '':8080''
        \<and> c_tls_addr cfg = '':443''
        \<and> c_acme_cache_dir cfg = ''.acme-cache''
        \<and> c_playbackinfo_max_bytes cfg = DEFAULT_PLAYBACKINFO_MAX_BYTES
        \<and> c_response_header_timeout cfg = Some 60
        \<and> c_allowed_clients cfg = []
        \<and> \<not> c_hide_client cfg
        \<and> c_logging cfg = log_config_default
        \<and> c_allowed_hosts cfg = [''vod.us.emby.com'', ''cdn.example.com'']))"

lemma env_defaults_and_allowed_hosts: test_env_defaults_and_allowed_hosts
  by code_simp

definition test_env_multiple_routes :: bool where
  "test_env_multiple_routes =
     (unwrap_ok (from_env_map (env_map
        [(''PROXEMBY_ROUTE'',
          ''https://us.emby.com,https://proxemby.jp,cdn.proxemby.jp;https://us2.emby.com,https://proxemby2.jp'')])) (\<lambda>cfg.
        length (c_routes cfg) = 2
        \<and> r_acme_domain (c_routes cfg ! 0) = ''cdn.proxemby.jp''
        \<and> r_acme_domain (c_routes cfg ! 1) = ''proxemby2.jp''
        \<and> c_acme_domains cfg = [''cdn.proxemby.jp'', ''proxemby2.jp'']))"

lemma env_multiple_routes: test_env_multiple_routes
  by code_simp

definition test_env_logging :: bool where
  "test_env_logging =
     (unwrap_ok (from_env_map (env_map
        [(''PROXEMBY_ROUTE'', ''https://us.emby.com,http://proxemby''), (''PROXEMBY_DEBUG'', ''true''),
          (''PROXEMBY_LOG_LEVEL'', ''warn''), (''PROXEMBY_LOG_FORMAT'', ''json''), (''PROXEMBY_LOG_TIME'',
          ''false'')])) (\<lambda>cfg.
        l_level (c_logging cfg) = Warn
        \<and> l_format (c_logging cfg) = Json
        \<and> \<not> l_time (c_logging cfg))
      \<and> unwrap_ok (from_env_map (env_map
        [(''PROXEMBY_ROUTE'', ''https://us.emby.com,http://proxemby''), (''PROXEMBY_DEBUG'',
          ''true'')])) (\<lambda>cfg.
        l_level (c_logging cfg) = Debug))"

lemma env_logging: test_env_logging
  unfolding test_env_logging_def
  apply (intro conjI)
  subgoal by code_simp
  subgoal by code_simp
  done

definition test_env_hide_client_allowed_clients_and_users :: bool where
  "test_env_hide_client_allowed_clients_and_users =
     (unwrap_ok (from_env_map (env_map
        [(''PROXEMBY_ROUTE'', ''https://us.emby.com,http://proxemby''), (''PROXEMBY_HIDE_CLIENT'',
          ''true'')])) (\<lambda>cfg.
        c_hide_client cfg)
      \<and> unwrap_ok (from_env_map (env_map
        [(''PROXEMBY_ROUTE'', ''https://us.emby.com,http://proxemby''), (''PROXEMBY_ALLOWED_CLIENTS'',
          ''1.2.3.4, 192.168.0.0/24''), (''PROXEMBY_TRUST_PROXY_HEADERS'', ''true'')])) (\<lambda>cfg.
        length (c_allowed_clients cfg) = 2
        \<and> c_trust_proxy_headers cfg)
      \<and> isl (from_env_map (env_map
        [(''PROXEMBY_ROUTE'', ''https://us.emby.com,http://proxemby''), (''PROXEMBY_ALLOWED_CLIENTS'',
          ''not-an-ip'')]))
      \<and> unwrap_ok (from_env_map (env_map
        [(''PROXEMBY_ROUTE'', ''https://us.emby.com,http://proxemby''), (''PROXEMBY_ALLOWED_USERS'',
          ''ken, alice''), (''PROXEMBY_AUTH_STATE_FILE'', ''/tmp/auth.json'')])) (\<lambda>cfg.
        c_allowed_users cfg = [''ken'', ''alice'']
        \<and> c_auth_state_file cfg = ''/tmp/auth.json''))"

lemma env_hide_client_allowed_clients_and_users: test_env_hide_client_allowed_clients_and_users
  unfolding test_env_hide_client_allowed_clients_and_users_def
  apply (intro conjI)
  subgoal by code_simp
  subgoal by code_simp
  subgoal by code_simp
  subgoal by code_simp
  done

section \<open>The file\<close>

definition test_explicit_missing_config_errors :: bool where
  "test_explicit_missing_config_errors =
     (isl (test_sources no_file [''-c'', ''/nonexistent/missing.toml'', ''--route'',
       ''https://cli.emby.com,http://proxemby'']
        []))"

lemma explicit_missing_config_errors: test_explicit_missing_config_errors
  by code_simp

definition sectioned_toml :: toml_config where
  "sectioned_toml =
     \<lparr>t_routes = Some
        [\<lparr>rv_upstream_url = ''https://toml.emby.com'',
          rv_public_url = ''https://proxemby.example.com'', rv_acme_domain = ''cert.example.com''\<rparr>,
         \<lparr>rv_upstream_url = ''https://toml2.emby.com'',
           rv_public_url = ''https://proxemby2.example.com'', rv_acme_domain = []\<rparr>],
      t_server_http_addr = Some '':9090'',
      t_tls_enable = Some True, t_tls_addr = Some '':9443'', t_tls_acme_email = Some ''ops@example.com'',
      t_tls_acme_cache_dir = Some ''/tmp/proxemby-acme'',
      t_proxy_allowed_hosts = Some [''vod.example.com'', ''cdn.example.com''],
      t_proxy_playbackinfo_max_bytes = Some 2048, t_proxy_response_header_timeout = Some 0,
      t_proxy_hide_client = Some True,
      t_clients_allowed = Some [''1.2.3.4'', ''192.168.0.0/24''], t_clients_trust_proxy_headers = Some True,
      t_auth_allowed_users = Some [''ken'', '' ''], t_auth_state_file = Some ''/var/lib/proxemby/auth.json'',
      t_stats_enable = Some True, t_stats_addr = Some ''127.0.0.1:9999'',
      t_stats_file = Some ''/var/lib/proxemby/stats.json'',
      t_logging_debug = Some True, t_logging_level = Some ''error'', t_logging_format = Some ''json'',
      t_logging_time = Some False\<rparr>"

definition test_loads_sectioned_toml :: bool where
  "test_loads_sectioned_toml =
     (unwrap_ok (test_sources (test_write_config (Inr sectioned_toml)) [''--config'', TEST_PATH]
        []) (\<lambda>cfg.
        length (c_routes cfg) = 2
        \<and> url_display (r_upstream_url (c_routes cfg ! 0)) = ''https://toml.emby.com''
        \<and> r_acme_domain (c_routes cfg ! 0) = ''cert.example.com''
        \<and> r_acme_domain (c_routes cfg ! 1) = ''proxemby2.example.com''
        \<and> c_http_addr cfg = '':9090''
        \<and> c_tls_enable cfg
        \<and> c_tls_addr cfg = '':9443''
        \<and> length (c_acme_domains cfg) = 2
        \<and> c_acme_email cfg = ''ops@example.com''
        \<and> c_acme_cache_dir cfg = ''/tmp/proxemby-acme''
        \<and> length (c_allowed_hosts cfg) = 2
        \<and> c_playbackinfo_max_bytes cfg = 2048
        \<and> c_response_header_timeout cfg = None
        \<and> length (c_allowed_clients cfg) = 2
        \<and> c_trust_proxy_headers cfg
        \<and> c_allowed_users cfg = [''ken'']
        \<and> c_auth_state_file cfg = ''/var/lib/proxemby/auth.json''
        \<and> c_stats_enable cfg
        \<and> c_stats_addr cfg = ''127.0.0.1:9999''
        \<and> c_stats_file cfg = ''/var/lib/proxemby/stats.json''
        \<and> c_hide_client cfg
        \<and> l_level (c_logging cfg) = Error
        \<and> l_format (c_logging cfg) = Json
        \<and> \<not> l_time (c_logging cfg)))"

text \<open>The document is evaluated one setting at a time.\<close>

lemma apply_nothing: "apply_raw v raw_default = v"
  by (simp add: apply_raw_def raw_default_def override_def)

lemma test_sources_config:
  "test_sources (test_write_config (Inr t)) [''--config'', TEST_PATH] []
     = values_config (apply_raw values_default (raw_from_toml t))"
proof -
  have "parse_flags [''--config'', TEST_PATH]
      = Inr \<lparr>cli_raw = raw_default, cli_config_path = Some TEST_PATH, cli_help = False, cli_version = False\<rparr>"
    by code_simp
  moreover have "env_raw (env_map []) = Inr raw_default" "trim TEST_PATH = TEST_PATH" "TEST_PATH \<noteq> []" by code_simp+
  ultimately show ?thesis
    by (simp add: test_sources_def from_sources_with_default_def apply_env_def apply_nothing test_write_config_def)
qed
definition sectioned_values :: config_values where
  "sectioned_values = apply_raw values_default (raw_from_toml sectioned_toml)"
lemma sectioned_clients:
  "case map_res parse_client (v_allowed_clients sectioned_values) of Inr cs \<Rightarrow> length cs = 2 | Inl _ \<Rightarrow> False"
  by code_simp

lemma sectioned_routes:
  "case parse_routes (v_routes sectioned_values) of
     Inr (rs, ds) \<Rightarrow> length rs = 2 \<and> length ds = 2
       \<and> url_display (r_upstream_url (rs ! 0)) = ''https://toml.emby.com''
       \<and> r_acme_domain (rs ! 0) = ''cert.example.com'' \<and> r_acme_domain (rs ! 1) = ''proxemby2.example.com''
   | Inl _ \<Rightarrow> False"
  by code_simp

lemma sectioned_logging:
  "log_parse_config (v_log_level sectioned_values) (v_log_format sectioned_values) (v_log_time sectioned_values)
     = Inr \<lparr>l_level = Error, l_format = Json, l_time = False\<rparr>"
  by code_simp

definition sectioned_texts :: "string list" where
  "sectioned_texts =
     ['':9090'', '':9443'', ''ops@example.com'', ''/tmp/proxemby-acme'', ''/var/lib/proxemby/auth.json'',
      ''127.0.0.1:9999'', ''/var/lib/proxemby/stats.json'']"

lemma sectioned_trim: "map trim sectioned_texts = sectioned_texts"
  by code_simp

lemma sectioned_clean:
  "clean_strings [''vod.example.com'', ''cdn.example.com''] = [''vod.example.com'', ''cdn.example.com'']"
  "clean_strings [''ken'', '' ''] = [''ken'']" "clean_strings [''ken''] = [''ken'']"
  by code_simp+

lemma sectioned_fields:
  "v_http_addr sectioned_values = '':9090''" "v_tls_enable sectioned_values" "v_tls_addr sectioned_values = '':9443''"
  "trim (v_acme_email sectioned_values) = ''ops@example.com''"
  "v_acme_cache_dir sectioned_values = ''/tmp/proxemby-acme''"
  "length (clean_strings (v_allowed_hosts sectioned_values)) = 2"
  "v_playbackinfo_max_bytes sectioned_values = 2048" "v_response_header_timeout sectioned_values = 0"
  "v_trust_proxy_headers sectioned_values" "clean_strings (v_allowed_users sectioned_values) = [''ken'']"
  "trim (v_auth_state_file sectioned_values) = ''/var/lib/proxemby/auth.json''"
  "v_stats_enable sectioned_values" "v_stats_addr sectioned_values = ''127.0.0.1:9999''"
  "v_stats_file sectioned_values = ''/var/lib/proxemby/stats.json''" "v_hide_client sectioned_values"
  using sectioned_trim
  by (simp_all add: sectioned_texts_def sectioned_clean sectioned_values_def apply_raw_def raw_from_toml_def sectioned_toml_def values_default_def
      override_def value_or_default_def)

lemma loads_sectioned_toml: test_loads_sectioned_toml
proof -
  obtain cs where cs: "map_res parse_client (v_allowed_clients sectioned_values) = Inr cs" "length cs = 2"
    using sectioned_clients by (auto split: sum.splits)
  obtain rs ds where rs: "parse_routes (v_routes sectioned_values) = Inr (rs, ds)" "length rs = 2" "length ds = 2"
    "url_display (r_upstream_url (rs ! 0)) = ''https://toml.emby.com''" "r_acme_domain (rs ! 0) = ''cert.example.com''"
    "r_acme_domain (rs ! 1) = ''proxemby2.example.com''"
    using sectioned_routes by (auto split: sum.splits)
  then have "r_acme_domain (rs ! Suc 0) = ''proxemby2.example.com''" by simp
  moreover from rs(3) have ds: "ds \<noteq> []" by auto
  ultimately show ?thesis
    by (simp add: test_loads_sectioned_toml_def test_sources_config sectioned_values_def [symmetric]
        values_config_def cs rs ds sectioned_logging sectioned_fields)
qed

definition precedence_toml :: toml_config where
  "precedence_toml = toml_empty
     \<lparr>t_routes := Some [\<lparr>rv_upstream_url = ''https://toml.emby.com'',
       rv_public_url = ''http://toml-public'', rv_acme_domain = []\<rparr>],
      t_server_http_addr := Some '':8081'', t_logging_level := Some ''warn''\<rparr>"

definition test_precedence :: bool where
  "test_precedence =
     (unwrap_ok (test_sources (test_write_config (Inr precedence_toml)) [''--config'', TEST_PATH,
       ''--route'', ''https://cli.emby.com,http://cli-public'', ''--http-addr'', '':9090'', ''--debug'',
       ''--log-level'', ''error'', ''--log-format'', ''json'', ''--log-time=false'']
        [(''PROXEMBY_ROUTE'', ''https://env.emby.com,http://env-public''), (''PROXEMBY_HTTP_ADDR'',
          '':8082''), (''PROXEMBY_DEBUG'', ''false'')]) (\<lambda>cfg.
        url_display (r_upstream_url (c_routes cfg ! 0)) = ''https://cli.emby.com''
        \<and> url_display (r_public_url (c_routes cfg ! 0)) = ''http://cli-public''
        \<and> c_http_addr cfg = '':9090''
        \<and> l_level (c_logging cfg) = Error
        \<and> l_format (c_logging cfg) = Json
        \<and> \<not> l_time (c_logging cfg))
      \<and> unwrap_ok (test_sources (test_write_config (Inr precedence_toml)) [''--config'', TEST_PATH]
        [(''PROXEMBY_HTTP_ADDR'', '':8082'')]) (\<lambda>cfg.
        c_http_addr cfg = '':8082''
        \<and> url_display (r_upstream_url (c_routes cfg ! 0)) = ''https://toml.emby.com''
        \<and> l_level (c_logging cfg) = Warn))"

lemma precedence: test_precedence
  unfolding test_precedence_def
  apply (intro conjI)
  subgoal by code_simp
  subgoal by code_simp
  done

definition short_flags_toml :: toml_config where
  "short_flags_toml = toml_empty
     \<lparr>t_routes := Some [\<lparr>rv_upstream_url = ''https://toml.emby.com'',
       rv_public_url = ''http://toml-public'', rv_acme_domain = []\<rparr>]\<rparr>"

definition test_short_flags :: bool where
  "test_short_flags =
     (unwrap_ok (test_sources (test_write_config (Inr short_flags_toml)) [''-c'', TEST_PATH, ''--route'',
       ''https://short.emby.com,http://short-public'', ''-h'', '':9091'', ''-a'',
       ''vod.example.com, cdn.example.com'', ''-d'']
        []) (\<lambda>cfg.
        url_display (r_upstream_url (c_routes cfg ! 0)) = ''https://short.emby.com''
        \<and> url_display (r_public_url (c_routes cfg ! 0)) = ''http://short-public''
        \<and> c_http_addr cfg = '':9091''
        \<and> length (c_allowed_hosts cfg) = 2
        \<and> l_level (c_logging cfg) = Debug))"

lemma short_flags: test_short_flags
  by code_simp

section \<open>Flags\<close>

definition test_repeated_route_flags :: bool where
  "test_repeated_route_flags =
     (unwrap_ok (test_sources no_file [''--route'', ''https://one.emby.com,http://one.example.com'',
       ''--route'', ''https://two.emby.com,http://two.example.com,two-cert.example.com'']
        []) (\<lambda>cfg.
        length (c_routes cfg) = 2
        \<and> r_acme_domain (c_routes cfg ! 1) = ''two-cert.example.com''))"

lemma repeated_route_flags: test_repeated_route_flags
  by code_simp

definition test_validation_errors :: bool where
  "test_validation_errors =
     (isl (test_sources (test_write_config (Inl False)) [''--config'', TEST_PATH] [])
      \<and> list_all (\<lambda>args. isl (test_sources no_file args []))
       [[''--route'', ''ftp://example.com,http://proxemby''],
        [''--route'', ''https://us.emby.com,ftp://proxemby''],
        [''--route'', ''https://us.emby.com''],
        [''--route'', ''https://us.emby.com,http://proxemby,''],
        [''--route'',
          ''https://us.emby.com,http://same.example.com;https://us2.emby.com,http://same.example.com''],
        [''--route'', ''https://us.emby.com,http://proxemby'', ''--allowed-clients'', ''not-an-ip''],
        [''--route'', ''https://us.emby.com,http://proxemby'', ''--playbackinfo-max-bytes'', ''0''],
        [''--route'', ''https://us.emby.com,http://proxemby'', ''--log-level'', ''verbose''],
        [''--route'', ''https://us.emby.com,http://proxemby'', ''--log-format'', ''plain''],
        [''-u'', ''https://us.emby.com'', ''-p'', ''http://proxemby''],
        [''--route'', ''https://us.emby.com,http://proxemby'', ''extra''],
        [''--route'']])"

lemma validation_errors: test_validation_errors
  unfolding test_validation_errors_def list.pred_inject
  apply (intro conjI)
  subgoal by code_simp
  subgoal by code_simp
  subgoal by code_simp
  subgoal by code_simp
  subgoal by code_simp
  subgoal by code_simp
  subgoal by code_simp
  subgoal by code_simp
  subgoal by code_simp
  subgoal by code_simp
  subgoal by code_simp
  subgoal by code_simp
  subgoal by code_simp
  subgoal by simp
  done

definition test_response_header_timeout :: bool where
  "test_response_header_timeout =
     (unwrap_ok (from_env_map (env_map
        [(''PROXEMBY_ROUTE'', ''https://us.emby.com,http://proxemby''),
          (''PROXEMBY_RESPONSE_HEADER_TIMEOUT'', ''5'')])) (\<lambda>cfg.
        c_response_header_timeout cfg = Some 5)
      \<and> isl (from_env_map (env_map
        [(''PROXEMBY_ROUTE'', ''https://us.emby.com,http://proxemby''),
          (''PROXEMBY_RESPONSE_HEADER_TIMEOUT'', ''-1'')]))
      \<and> unwrap_ok (test_sources no_file [''--route'', ''https://us.emby.com,http://proxemby'',
        ''--response-header-timeout'', ''0'']
        [(''PROXEMBY_RESPONSE_HEADER_TIMEOUT'', ''5'')]) (\<lambda>cfg.
        c_response_header_timeout cfg = None)
      \<and> isl (test_sources no_file [''--route'', ''https://us.emby.com,http://proxemby'',
        ''--response-header-timeout'', ''-3'']
        []))"

lemma response_header_timeout: test_response_header_timeout
  unfolding test_response_header_timeout_def
  apply (intro conjI)
  subgoal by code_simp
  subgoal by code_simp
  subgoal by code_simp
  subgoal by code_simp
  done

definition test_stats_options :: bool where
  "test_stats_options =
     (unwrap_ok (from_env_map (env_map
        [(''PROXEMBY_ROUTE'', ''https://us.emby.com,http://proxemby'')])) (\<lambda>cfg.
        \<not> c_stats_enable cfg
        \<and> c_stats_addr cfg = ''127.0.0.1:9180''
        \<and> c_stats_file cfg = [])
      \<and> unwrap_ok (from_env_map (env_map
        [(''PROXEMBY_ROUTE'', ''https://us.emby.com,http://proxemby''), (''PROXEMBY_STATS_ENABLE'',
          ''true''), (''PROXEMBY_STATS_ADDR'', ''''), (''PROXEMBY_STATS_FILE'',
          ''/tmp/s.json'')])) (\<lambda>cfg.
        c_stats_enable cfg
        \<and> c_stats_addr cfg = []
        \<and> c_stats_file cfg = ''/tmp/s.json'')
      \<and> unwrap_ok (test_sources no_file [''--route'', ''https://us.emby.com,http://proxemby'',
        ''--stats-enable'', ''--stats-addr'', '':9181'', ''--stats-file'', ''s.json'']
        []) (\<lambda>cfg.
        c_stats_enable cfg
        \<and> c_stats_addr cfg = '':9181''
        \<and> c_stats_file cfg = ''s.json''))"

lemma stats_options: test_stats_options
  unfolding test_stats_options_def
  apply (intro conjI)
  subgoal by code_simp
  subgoal by code_simp
  subgoal by code_simp
  done

definition test_help :: bool where
  "test_help =
     (test_sources no_file [''--help''] [] = Inl Help
      \<and> test_sources no_file [''--version''] [] = Inl Version
      \<and> test_sources no_file [''-version''] [] = Inl Version
      \<and> (case test_sources no_file [''-help''] [] of Inl e \<Rightarrow> e \<noteq> Help \<and> e \<noteq> Version | Inr _ \<Rightarrow> False))"

lemma help_and_version: test_help
  by code_simp

end
