(* ===== verification/Tests_Stats.thy ===== *)
theory Tests_Stats
  imports Stats_Table Tests_Util
begin

text \<open>
  The unit tests of \<^verbatim>\<open>src/src/stats.rs\<close> on the model. A test runs in one thread, whose number of
  the shard is not known: it is a parameter, and the tests hold for every value of it. So do they for
  every version and start time, and the test that saves a file for every JSON library that reads
  back what it writes.
\<close>

section \<open>Classification and addresses\<close>

definition test_classifies_paths :: bool where
  "test_classifies_paths =
     (classify ''/_proxy/https/cdn.example.com/a.mkv'' = Media
      \<and> classify ''/emby/Videos/1/stream.mkv'' = Media
      \<and> classify ''/videos/1/hls1/main/0.ts'' = Media
      \<and> classify ''/emby/Audio/1/universal'' = Media
      \<and> classify ''/emby/Items/1/Download'' = Media
      \<and> classify ''/emby/Items/1/Images/Primary'' = Image
      \<and> classify ''/emby/Users/1/Items'' = Api
      \<and> classify ''/emby/Items/1/PlaybackInfo'' = Api
      \<and> classify ''/'' = Api)"

lemma classifies_paths: test_classifies_paths
  by code_simp

definition test_admin_addresses :: bool where
  "test_admin_addresses =
     (admin_connect_addr '':9180'' = ''127.0.0.1:9180''
      \<and> admin_connect_addr ''0.0.0.0:9180'' = ''127.0.0.1:9180''
      \<and> admin_connect_addr ''[::]:9180'' = ''[::1]:9180''
      \<and> admin_connect_addr ''127.0.0.1:9180'' = ''127.0.0.1:9180'')"

lemma admin_addresses: test_admin_addresses
  by code_simp

section \<open>Counting\<close>

text \<open>\<^verbatim>\<open>stats.route(route).unwrap()\<close> is shared: what is counted on it shows in the first route of the name.\<close>

fun update_route ::
  "string \<Rightarrow> (route_stats \<Rightarrow> route_stats) \<Rightarrow> route_stats list \<Rightarrow> route_stats list option" where
  "update_route name f [] = None"
| "update_route name f (r # rs) =
     (if rt_name r = name then Some (f r # rs) else map_option (Cons r) (update_route name f rs))"

definition test_bump :: "nat \<Rightarrow> stats \<Rightarrow> string \<Rightarrow> kind \<Rightarrow> 64 word \<Rightarrow> stats option" where
  "test_bump thread st route kind out_bytes =
     map_option (\<lambda>routes. st\<lparr>ss_routes := routes\<rparr>)
       (update_route route
         (\<lambda>r. r\<lparr>rt_kinds := (rt_kinds r)
           (kind := add_bytes_in 1 thread (add_bytes_out out_bytes thread (add_request thread (rt_kinds r kind))))\<rparr>)
         (ss_routes st))"

definition bumped :: "nat \<Rightarrow> 64 word \<Rightarrow> counters \<Rightarrow> counters" where
  "bumped thread n cs = add_bytes_in 1 thread (add_bytes_out n thread (add_request thread cs))"

lemma bumped_simps [simp]:
  "length (bumped t n cs) = length cs"
  "length cs = SHARDS \<Longrightarrow> counters_totals (bumped t n cs)
     = totals_add (counters_totals cs) \<lparr>t_requests = 1, t_bytes_out = n, t_bytes_in = 1\<rparr>"
  "length cs = SHARDS \<Longrightarrow> sum_list (map sh_active (bumped t n cs)) = sum_list (map sh_active cs)"
  using run_op_totals [of _ "BytesIn 1" t] run_op_totals [of _ "BytesOut n" t] run_op_totals [of _ Request t]
    run_op_active [of _ "BytesIn 1" t] run_op_active [of _ "BytesOut n" t] run_op_active [of _ Request t]
  by (simp_all add: bumped_def counter_defs totals_add_def)

lemma counters_default_simps [simp]:
  "length counters_default = SHARDS" "counters_totals counters_default = no_totals"
  "sum_list (map sh_active counters_default) = 0"
  by (simp_all add: counters_default_def counters_totals_sums shard_default_def no_totals_def SHARDS_def
      sum_list_replicate)

lemma bump_route:
  "test_bump thread st route kind n =
     map_option (\<lambda>routes. st\<lparr>ss_routes := routes\<rparr>) (update_route route
       (\<lambda>r. r\<lparr>rt_kinds := (rt_kinds r)(kind := bumped thread n (rt_kinds r kind))\<rparr>) (ss_routes st))"
  by (simp add: test_bump_def bumped_def)

section \<open>Reports\<close>

definition kind_in :: "report \<Rightarrow> nat \<Rightarrow> string \<Rightarrow> (kind_report \<Rightarrow> bool) \<Rightarrow> bool" where
  "kind_in report i kind rest =
     (i < length (re_routes report) \<and> unwrap_some (map_of (rr_kinds (re_routes report ! i)) kind) rest)"

definition test_reports_today_month_and_since_start ::
  "stats_crate \<Rightarrow> write_io \<Rightarrow> files \<Rightarrow> string \<Rightarrow> string \<Rightarrow> nat \<Rightarrow> bool" where
  "test_reports_today_month_and_since_start X io fs version now thread =
     unwrap_some (stats_memory now [''a'', ''b'']) (\<lambda>st.
     unwrap_some (test_bump thread st ''a'' Media 100) (\<lambda>st.
     (case flush_on X io ''2026-09-30'' st fs of (flushed, st, fs) \<Rightarrow> unwrap_ok flushed (\<lambda>_.
     unwrap_some (test_bump thread st ''a'' Media 10) (\<lambda>st.
     (case flush_on X io ''2026-10-01'' st fs of (flushed, st, fs) \<Rightarrow> unwrap_ok flushed (\<lambda>_.
     unwrap_some (test_bump thread st ''a'' Media 1) (\<lambda>st.
     unwrap_some (test_bump thread st ''b'' Api 5) (\<lambda>st.
     (let report = report_on version ''2026-10-01'' st in
      kind_in report 0 ''media'' (\<lambda>media.
        t_bytes_out (kr_today media) = 11
        \<and> t_bytes_out (kr_month media) = 11
        \<and> t_bytes_out (kr_since_start media) = 111
        \<and> t_requests (kr_since_start media) = 3)
      \<and> kind_in report 1 ''api'' (\<lambda>api. t_bytes_out (kr_today api) = 5)
      \<and> kind_in report 1 ''media'' (\<lambda>media. media =
          \<lparr>kr_today = no_totals, kr_month = no_totals, kr_since_start = no_totals, kr_active = 0\<rparr>)))))))))))"

lemma test_day_order:
  "\<not> ''2026-10-01'' < ''2026-09-30''" "''2026-09-30'' < ''2026-10-01''"
  by code_simp+

lemmas stats_test_simps = stats_memory_def stats_open_def bump_route flush_on_def KINDS_def Let_def
  KEEP_DAYS_def totals_add_def totals_minus_def saturating_sub_def no_totals_def add_delta_def
  report_on_def kind_report_on_def stored_def counters_active_sum kind_in_def

lemma reports_today_month_and_since_start:
  "test_reports_today_month_and_since_start X io fs version now thread"
  by (simp add: test_reports_today_month_and_since_start_def stats_test_simps test_day_order)

text \<open>
  The file of the next test: nothing is there at first, and every system call succeeds. The two
  openings read the clock at \<open>now\<close> and \<open>later\<close>.
\<close>

definition test_persists_days_across_restarts ::
  "stats_crate \<Rightarrow> write_io \<Rightarrow> files \<Rightarrow> string \<Rightarrow> string \<Rightarrow> string \<Rightarrow> string \<Rightarrow> nat \<Rightarrow> bool" where
  "test_persists_days_across_restarts X io fs path version now later_now thread =
     (let fs = fs(path := None); routes = [''a''] in
     unwrap_ok (stats_open X True now routes (Some path) fs) (\<lambda>st.
     unwrap_some (test_bump thread st ''a'' Image 42) (\<lambda>st.
     (case flush_on X io ''2026-10-05'' st fs of (flushed, st, fs) \<Rightarrow> unwrap_ok flushed (\<lambda>_.
     (case flush_on X io ''2026-10-05'' st fs of (flushed, st, fs) \<Rightarrow> unwrap_ok flushed (\<lambda>_.
     unwrap_ok (stats_open X True later_now routes (Some path) fs) (\<lambda>st.
     unwrap_some (test_bump thread st ''a'' Image 8) (\<lambda>st.
     (let report = report_on version ''2026-10-05'' st in
      kind_in report 0 ''image'' (\<lambda>image.
        t_bytes_out (kr_today image) = 50 \<and> t_bytes_out (kr_since_start image) = 8)))))))))))"

lemma persists_days_across_restarts:
  assumes "\<And>days. days_from_json X (days_to_json X days) = Some days"
    and "io_open io" "io_write io" "io_sync io" "io_rename io" "io_tmp io \<noteq> path" "fs (io_tmp io) = None"
  shows "test_persists_days_across_restarts X io fs path version now later_now thread"
  using assms
  by (simp add: test_persists_days_across_restarts_def stats_test_simps write_private_file_def
      write_steps_def domIff)

section \<open>The number of days\<close>

text \<open>The loop over days; \<open>None\<close> when a flush fails.\<close>

fun test_flush_days ::
  "stats_crate \<Rightarrow> write_io \<Rightarrow> nat \<Rightarrow> nat list \<Rightarrow> stats \<Rightarrow> files \<Rightarrow> (stats \<times> files) option" where
  "test_flush_days X io thread [] st fs = Some (st, fs)"
| "test_flush_days X io thread (day # days) st fs =
     Option.bind (test_bump thread st ''a'' Api 1) (\<lambda>st.
       (case flush_on X io (''d'' @ pad 5 (show_nat day)) st fs of
          (Inl _, _) \<Rightarrow> None
        | (Inr _, st, fs) \<Rightarrow> test_flush_days X io thread days st fs))"

definition test_keeps_limited_history :: "stats_crate \<Rightarrow> write_io \<Rightarrow> files \<Rightarrow> string \<Rightarrow> nat \<Rightarrow> bool" where
  "test_keeps_limited_history X io fs now thread =
     unwrap_some (stats_memory now [''a'']) (\<lambda>st.
     unwrap_some (test_flush_days X io thread [0..<KEEP_DAYS + 5] st fs) (\<lambda>(st, _).
       length (ss_days st) = KEEP_DAYS))"

definition day_label :: "nat \<Rightarrow> string" where
  "day_label n = ''d'' @ pad 5 (show_nat n)"

lemma day_label_less: "m < n \<Longrightarrow> n < 100000 \<Longrightarrow> day_label m < day_label n"
  using pad_digits [of m 5] pad_digits [of n 5] digits_less [of m 5 n] by (simp add: day_label_def)

lemma entry_update_last:
  "\<forall>k'\<in>fst ` set xs. k' < k \<Longrightarrow> entry_update k d f xs = xs @ [(k, f d)]"
  by (induction xs) (auto dest: less_asym)

text \<open>After \<open>n\<close> rounds.\<close>

definition days_state :: "nat \<Rightarrow> stats \<Rightarrow> bool" where
  "days_state n st \<longleftrightarrow>
     (\<exists>cs. ss_routes st = [\<lparr>rt_name = ''a'', rt_kinds = (\<lambda>_. counters_default)(Api := cs)\<rparr>]
        \<and> length cs = SHARDS \<and> counters_totals cs = \<lparr>t_requests = of_nat n, t_bytes_out = of_nat n, t_bytes_in = of_nat n\<rparr>
        \<and> (\<exists>flushed. ss_flushed st = [flushed] \<and> flushed Api = counters_totals cs
             \<and> flushed Media = no_totals \<and> flushed Image = no_totals))
     \<and> ss_path st = None \<and> length (ss_days st) = min n KEEP_DAYS
     \<and> (\<forall>k\<in>fst ` set (ss_days st). \<forall>m\<ge>n. m < 100000 \<longrightarrow> k < day_label m)"

lemma days_state_step:
  assumes "days_state n st" "n < 99999"
  shows "\<exists>st'. Option.bind (test_bump thread st ''a'' Api 1) (\<lambda>st. Some (flush_on X io (day_label n) st fs))
       = Some (Inr (), st', fs) \<and> days_state (Suc n) st'"
proof -
  obtain cs flushed where st: "ss_routes st = [\<lparr>rt_name = ''a'', rt_kinds = (\<lambda>_. counters_default)(Api := cs)\<rparr>]"
    "length cs = SHARDS" "counters_totals cs = \<lparr>t_requests = of_nat n, t_bytes_out = of_nat n, t_bytes_in = of_nat n\<rparr>"
    "ss_flushed st = [flushed]" "flushed Api = counters_totals cs" "flushed Media = no_totals" "flushed Image = no_totals"
    using assms(1) unfolding days_state_def by blast
  let ?one = "\<lparr>t_requests = 1, t_bytes_out = 1, t_bytes_in = 1\<rparr> :: totals"
  let ?days = "prune (ss_days st @ [(day_label n, [(''a'', [(''api'', ?one)])])])"
  have small: "unat (of_nat m :: 64 word) = m" if "m < 100000" for m
    using that by (simp add: unsigned_of_nat take_bit_nat_eq_self)
  have "(of_nat n :: 64 word) \<le> of_nat (Suc n)"
    unfolding word_le_nat_alt using small [of n] small [of "Suc n"] assms(2) by simp
  then have grows: "(of_nat n :: 64 word) \<le> of_nat n + 1"
    by (simp add: add.commute)
  have last: "add_delta (day_label n) ''a'' ''api'' ?one (ss_days st)
      = ss_days st @ [(day_label n, [(''a'', [(''api'', ?one)])])]"
    using assms by (simp add: add_delta_def entry_update_last days_state_def totals_add_def no_totals_def)
  let ?st = "st\<lparr>ss_routes := [\<lparr>rt_name = ''a'', rt_kinds = (\<lambda>_. counters_default)(Api := bumped thread 1 cs)\<rparr>],
    ss_days := ?days, ss_flushed := [flushed(Api := counters_totals (bumped thread 1 cs), Media := no_totals, Image := no_totals)]\<rparr>"
  have run: "Option.bind (test_bump thread st ''a'' Api 1) (\<lambda>st. Some (flush_on X io (day_label n) st fs))
       = Some (Inr (), ?st, fs)"
    using assms(1) st grows last
    by (simp add: bump_route flush_on_def KINDS_def totals_minus_def totals_add_def saturating_sub_def
        no_totals_def days_state_def Let_def)
  have "length ?days = min (Suc n) KEEP_DAYS"
    using assms(1) by (auto simp: days_state_def prune_drop min_def)
  moreover have "k < day_label m" if k: "k \<in> fst ` set ?days" and m: "Suc n \<le> m" "m < 100000" for k m
  proof -
    have "k \<in> fst ` set (ss_days st) \<or> k = day_label n"
      using k set_drop_subset unfolding prune_drop by fastforce
    with assms(1) m day_label_less [of n m] show ?thesis by (auto simp: days_state_def)
  qed
  moreover have "counters_totals (bumped thread 1 cs)
      = \<lparr>t_requests = of_nat (Suc n), t_bytes_out = of_nat (Suc n), t_bytes_in = of_nat (Suc n)\<rparr>"
    using st(2,3) by (simp add: totals_add_def add.commute)
  ultimately have "days_state (Suc n) ?st"
    using assms(1) st(2) unfolding days_state_def by auto
  with run show ?thesis by blast
qed

lemma test_flush_days_state:
  assumes "days_state n st" "n + k < 99999"
  shows "\<exists>st'. test_flush_days X io thread [n..<n + k] st fs = Some (st', fs) \<and> days_state (n + k) st'"
  using assms
proof (induction k arbitrary: n st)
  case (Suc k)
  obtain st' where b: "Option.bind (test_bump thread st ''a'' Api 1) (\<lambda>st. Some (flush_on X io (day_label n) st fs))
       = Some (Inr (), st', fs)" and st': "days_state (Suc n) st'"
    using days_state_step [of n st] Suc.prems by fastforce
  have "[n..<n + Suc k] = n # [Suc n..<Suc n + k]" by (simp add: upt_conv_Cons)
  moreover obtain st'' where "test_flush_days X io thread [Suc n..<Suc n + k] st' fs = Some (st'', fs)"
    "days_state (Suc n + k) st''" using Suc.IH [OF st'] Suc.prems by auto
  ultimately show ?case using b by (auto simp: bind_eq_Some_conv day_label_def)
qed simp

lemma keeps_limited_history: "test_keeps_limited_history X io fs now thread"
proof -
  let ?st = "\<lparr>ss_routes = [\<lparr>rt_name = ''a'', rt_kinds = (\<lambda>_. counters_default)\<rparr>], ss_path = None, ss_days = [],
    ss_flushed = [\<lambda>_. no_totals], ss_started_at = now\<rparr>"
  have "days_state 0 ?st"
    unfolding days_state_def
    by (rule conjI, rule exI [of _ counters_default]) (simp_all add: no_totals_def fun_upd_idem)
  then obtain st where st: "stats_memory now [''a''] = Some st" "days_state 0 st"
    by (simp add: stats_memory_def stats_open_def)
  obtain st' where "test_flush_days X io thread [0..<0 + (KEEP_DAYS + 5)] st fs = Some (st', fs)"
    "days_state (0 + (KEEP_DAYS + 5)) st'"
    using test_flush_days_state [OF st(2), of "KEEP_DAYS + 5" X io thread fs] by (auto simp: KEEP_DAYS_def)
  with st(1) show ?thesis by (simp add: test_keeps_limited_history_def days_state_def)
qed

section \<open>Texts\<close>

definition test_prometheus_output :: "string \<Rightarrow> string \<Rightarrow> nat \<Rightarrow> bool" where
  "test_prometheus_output version now thread =
     unwrap_some (stats_memory now [''a.example.com'']) (\<lambda>st.
     unwrap_some (test_bump thread st ''a.example.com'' Media 7) (\<lambda>st.
     (let out = prometheus version st in
      contains_str ''# TYPE proxemby_response_bytes_total counter'' out
      \<and> contains_str (raw_str ''proxemby_response_bytes_total{route=`a.example.com`,kind=`media`} 7'') out
      \<and> contains_str (raw_str ''proxemby_active_streams{route=`a.example.com`,kind=`api`} 0'') out
      \<and> contains_str (raw_str ''proxemby_build_info{version=`'') out)))"

text \<open>A text that holds a part of it holds what the part does.\<close>

lemma contains_parts:
  "contains_str p a \<Longrightarrow> contains_str p (a @ b)" "contains_str p b \<Longrightarrow> contains_str p (a @ b)"
  unfolding contains_str_iff by (metis append.assoc)+

lemma contains_concat: "x \<in> set xs \<Longrightarrow> contains_str p x \<Longrightarrow> contains_str p (concat xs)"
  by (induction xs) (auto intro: contains_parts)

lemma contains_around: "contains_str p m \<Longrightarrow> contains_str p (a @ m @ b)"
  by (intro contains_parts)

lemma prometheus_block:
  assumes m: "(name, ty, help_text, metric) \<in> set METRICS"
    and p: "contains_str p (''# HELP '' @ name @ '' '' @ help_text @ [CHR 0x0A]
         @ ''# TYPE '' @ name @ '' '' @ ty @ [CHR 0x0A]
         @ concat (map (\<lambda>route. concat (map (\<lambda>kind.
               metric_line name (rt_name route) kind (metric (rt_kinds route kind))) KINDS)) (ss_routes st)))"
  shows "contains_str p (prometheus version st)"
  unfolding prometheus_def
  by (rule contains_parts(1), rule contains_concat [OF _ p], unfold set_map, rule image_eqI [OF _ m]) simp

lemma prometheus_type:
  assumes "(name, ty, help_text, metric) \<in> set METRICS"
  shows "contains_str (''# TYPE '' @ name @ '' '' @ ty) (prometheus version st)"
proof (rule prometheus_block [OF assms])
  let ?ls = "concat (map (\<lambda>route. concat (map (\<lambda>kind.
      metric_line name (rt_name route) kind (metric (rt_kinds route kind))) KINDS)) (ss_routes st))"
  show "contains_str (''# TYPE '' @ name @ '' '' @ ty) (''# HELP '' @ name @ '' '' @ help_text @ [CHR 0x0A]
      @ ''# TYPE '' @ name @ '' '' @ ty @ [CHR 0x0A] @ ?ls)"
    using contains_str_append [of "''# TYPE '' @ name @ '' '' @ ty" "''# HELP '' @ name @ '' '' @ help_text @ [CHR 0x0A]"
        "[CHR 0x0A] @ ?ls"] by (simp only: append_assoc)
qed

lemma prometheus_line:
  assumes "(name, ty, help_text, metric) \<in> set METRICS" "r \<in> set (ss_routes st)"
    and p: "contains_str p (metric_line name (rt_name r) k (metric (rt_kinds r k)))"
  shows "contains_str p (prometheus version st)"
proof (rule prometheus_block [OF assms(1)])
  let ?ls = "concat (map (\<lambda>route. concat (map (\<lambda>kind.
      metric_line name (rt_name route) kind (metric (rt_kinds route kind))) KINDS)) (ss_routes st))"
  have "contains_str p (concat (map (\<lambda>kind. metric_line name (rt_name r) kind (metric (rt_kinds r kind))) KINDS))"
    using kinds_all by (intro contains_concat [OF _ p]) auto
  then have "contains_str p ?ls" using assms(2) by (intro contains_concat) auto
  then show "contains_str p (''# HELP '' @ name @ '' '' @ help_text @ [CHR 0x0A]
      @ ''# TYPE '' @ name @ '' '' @ ty @ [CHR 0x0A] @ ?ls)"
    by (intro contains_parts(2))
qed

lemma contains_refl: "contains_str p (p @ b)" "contains_str p p"
  using contains_str_append [of p "[]"] contains_str_append [of p "[]" "[]"] by simp_all

lemma prometheus_output: "test_prometheus_output version now thread"
proof -
  obtain st st' r where st: "stats_memory now [''a.example.com''] = Some st"
    "test_bump thread st ''a.example.com'' Media 7 = Some st'"
    and r: "r \<in> set (ss_routes st')" "rt_name r = ''a.example.com''"
      "t_bytes_out (counters_totals (rt_kinds r Media)) = 7" "counters_active (rt_kinds r Api) = 0"
    by (simp add: stats_memory_def stats_open_def bump_route counters_active_sum totals_add_def no_totals_def)
  let ?media = "raw_str ''proxemby_response_bytes_total{route=`a.example.com`,kind=`media`} 7''"
  let ?api = "raw_str ''proxemby_active_streams{route=`a.example.com`,kind=`api`} 0''"
  have "metric_line ''proxemby_response_bytes_total'' ''a.example.com'' Media 7 = ?media @ [CHR 0x0A]"
    "metric_line ''proxemby_active_streams'' ''a.example.com'' Api 0 = ?api @ [CHR 0x0A]" by code_simp+
  then have lines: "contains_str ?media (metric_line ''proxemby_response_bytes_total'' (rt_name r) Media
        (t_bytes_out (counters_totals (rt_kinds r Media))))"
    "contains_str ?api (metric_line ''proxemby_active_streams'' (rt_name r) Api (counters_active (rt_kinds r Api)))"
    by (simp_all only: r contains_refl)
  have out: "(''proxemby_response_bytes_total'', ''counter'', ''Bytes sent to clients.'',
       (\<lambda>c. t_bytes_out (counters_totals c))) \<in> set METRICS"
    "(''proxemby_active_streams'', ''gauge'', ''Responses currently streaming to clients.'', counters_active)
       \<in> set METRICS" by (simp_all add: METRICS_def)
  have "contains_str ''# TYPE proxemby_response_bytes_total counter'' (prometheus version st')"
    using prometheus_type [OF out(1)] by simp
  moreover have "contains_str ?media (prometheus version st')" by (rule prometheus_line [OF out(1) r(1) lines(1)])
  moreover have "contains_str ?api (prometheus version st')" by (rule prometheus_line [OF out(2) r(1) lines(2)])
  moreover have "contains_str (raw_str ''proxemby_build_info{version=`'') (prometheus version st')"
  proof -
    have "raw_str ''proxemby_build_info{version=`'' = ''proxemby_build_info{version='' @ [CHR 0x22]" by code_simp
    then have b: "contains_str (raw_str ''proxemby_build_info{version=`'')
        (''proxemby_build_info{version='' @ [CHR 0x22] @ version @ [CHR 0x22] @ ''} 1'' @ [CHR 0x0A])"
      by (metis append.assoc contains_refl(1))
    show ?thesis unfolding prometheus_def
      by (rule contains_parts(2) [OF contains_parts(2) [OF contains_parts(2)
          [OF contains_parts(2) [OF contains_parts(2) [OF b]]]]])
  qed
  ultimately show ?thesis using st by (simp add: test_prometheus_output_def)
qed

text \<open>\<^verbatim>\<open>str::lines\<close>: a return before the line feed belongs to the line end, an empty rest is no line.\<close>

definition str_lines :: "string \<Rightarrow> string list" where
  "str_lines s =
     (let parts = split_on (CHR 0x0A) s;
          parts = (if last parts = [] then butlast parts else parts) in
      map (\<lambda>line. if line \<noteq> [] \<and> last line = CHR 0x0D then butlast line else line) parts)"

definition test_renders_table :: "string \<Rightarrow> string \<Rightarrow> nat \<Rightarrow> bool" where
  "test_renders_table version now thread =
     unwrap_some (stats_memory now [''a.example.com'', ''b.example.com'']) (\<lambda>st.
     unwrap_some (test_bump thread st ''a.example.com'' Media 2048) (\<lambda>st.
     unwrap_some (test_bump thread st ''b.example.com'' Api 100) (\<lambda>st.
     (let table = render_table (report_on version ''2026-10-05'' st); lines = str_lines table in
      3 < length lines
      \<and> prefix ''ROUTE / KIND'' (lines ! 0)
      \<and> prefix ''a.example.com'' (lines ! 1) \<and> contains_str ''2.00 KiB'' (lines ! 1)
      \<and> prefix ''  media'' (lines ! 3) \<and> contains_str ''2.00 KiB'' (lines ! 3)
      \<and> list_ex (\<lambda>l. prefix ''TOTAL'' l \<and> contains_str ''2.10 KiB'' l) lines
      \<and> contains_str ''Today is 2026-10-05'' table))))"

definition expected_rows :: "string list" where
  "expected_rows =
     [table_line ''ROUTE / KIND'' ''TODAY'' ''THIS MONTH'' ''SINCE START'' ''ACTIVE'',
      table_line ''a.example.com'' ''2.00 KiB'' ''2.00 KiB'' ''2.00 KiB'' ''0'',
      table_line ''  api'' ''0 B'' ''0 B'' ''0 B'' ''0'',
      table_line ''  media'' ''2.00 KiB'' ''2.00 KiB'' ''2.00 KiB'' ''0'',
      table_line ''  image'' ''0 B'' ''0 B'' ''0 B'' ''0'',
      table_line ''b.example.com'' ''100 B'' ''100 B'' ''100 B'' ''0'',
      table_line ''  api'' ''100 B'' ''100 B'' ''100 B'' ''0'',
      table_line ''  media'' ''0 B'' ''0 B'' ''0 B'' ''0'',
      table_line ''  image'' ''0 B'' ''0 B'' ''0 B'' ''0'',
      table_line ''TOTAL'' ''2.10 KiB'' ''2.10 KiB'' ''2.10 KiB'' ''0'']"

lemma test_byte_counts:
  "format_bytes 0 = ''0 B''" "format_bytes 100 = ''100 B''" "format_bytes 512 = ''512 B''"
  "format_bytes 1536 = ''1.50 KiB''" "format_bytes 2048 = ''2.00 KiB''" "format_bytes 2148 = ''2.10 KiB''"
proof -
  note eval = round_half_even_def hundredths_text_def UNITS_def show_nat.simps pad_def Let_def numeral_replicate
  show "format_bytes 0 = ''0 B''" "format_bytes 100 = ''100 B''" "format_bytes 512 = ''512 B''"
    by (simp_all add: format_bytes_def show_nat.simps)
  show "format_bytes 1536 = ''1.50 KiB''" "format_bytes 2048 = ''2.00 KiB''" "format_bytes 2148 = ''2.10 KiB''"
    by (subst format_bytes_exact [where u = 1]; simp add: scale_unit.simps eval)+
qed

lemma split_on_rows:
  assumes "list_all (\<lambda>row. CHR 0x0A \<notin> set row) rows"
  shows "split_on (CHR 0x0A) (concat (map (\<lambda>row. row @ [CHR 0x0A]) rows) @ rest) = rows @ split_on (CHR 0x0A) rest"
proof -
  have line: "split_on (CHR 0x0A) (row @ CHR 0x0A # s) = row # split_on (CHR 0x0A) s"
    if "CHR 0x0A \<notin> set row" for row s
    using that by (induction row) auto
  from assms show ?thesis by (induction rows) (simp_all add: line)
qed

lemma str_lines_rows:
  assumes "list_all (\<lambda>row. CHR 0x0A \<notin> set row \<and> CHR 0x0D \<notin> set row) rows"
  shows "\<exists>more. str_lines (concat (map (\<lambda>row. row @ [CHR 0x0A]) rows) @ rest) = rows @ more"
proof -
  have "split_on (CHR 0x0A) rest \<noteq> []" by (cases rest) (auto split: list.split)
  moreover have "map (\<lambda>line. if line \<noteq> [] \<and> last line = CHR 0x0D then butlast line else line) rows = rows"
    using assms by (intro map_idI) (auto simp: list_all_iff dest: last_in_set)
  moreover have "list_all (\<lambda>row. CHR 0x0A \<notin> set row) rows" using assms by (simp add: list_all_iff)
  ultimately show ?thesis using split_on_rows [of rows rest] by (simp add: str_lines_def Let_def butlast_append)
qed

lemma expected_rows_hold:
  "list_all (\<lambda>row. CHR 0x0A \<notin> set row \<and> CHR 0x0D \<notin> set row) expected_rows"
  "prefix ''ROUTE / KIND'' (expected_rows ! 0)"
  "prefix ''a.example.com'' (expected_rows ! 1)" "contains_str ''2.00 KiB'' (expected_rows ! 1)"
  "prefix ''  media'' (expected_rows ! 3)" "contains_str ''2.00 KiB'' (expected_rows ! 3)"
  "list_ex (\<lambda>l. prefix ''TOTAL'' l \<and> contains_str ''2.10 KiB'' l) expected_rows"
  by code_simp+

lemma renders_table: "test_renders_table version now thread"
proof -
  have zero: "show_nat 0 = ''0''" by code_simp
  have "unwrap_some (stats_memory now [''a.example.com'', ''b.example.com'']) (\<lambda>st.
      unwrap_some (test_bump thread st ''a.example.com'' Media 2048) (\<lambda>st.
      unwrap_some (test_bump thread st ''b.example.com'' Api 100) (\<lambda>st.
      table_rows (report_on version ''2026-10-05'' st) = expected_rows)))"
    by (simp add: stats_test_simps expected_rows_def table_rows_def route_rows_def table_row_def
        test_byte_counts zero)
  then obtain st st' st'' where st: "stats_memory now [''a.example.com'', ''b.example.com''] = Some st"
    "test_bump thread st ''a.example.com'' Media 2048 = Some st'"
    "test_bump thread st' ''b.example.com'' Api 100 = Some st''"
    and rows: "table_rows (report_on version ''2026-10-05'' st'') = expected_rows"
    by (auto simp: unwrap_some_def split: option.splits)
  let ?r = "report_on version ''2026-10-05'' st''"
  obtain more where lines: "str_lines (render_table ?r) = expected_rows @ more"
    using str_lines_rows [OF expected_rows_hold(1)] unfolding render_table_def rows by blast
  have "re_today ?r = ''2026-10-05''" by (simp add: report_on_def)
  then have "contains_str ''Today is 2026-10-05'' (render_table ?r)"
    using contains_str_append [of "''Today is 2026-10-05''"
        "concat (map (\<lambda>row. row @ [CHR 0x0A]) (table_rows ?r)) @ [CHR 0x0A] @ ''Bytes sent to clients. ''"
        "''; running since '' @ re_started_at ?r @ '' (proxemby '' @ re_version ?r @ '').'' @ [CHR 0x0A]"]
    by (simp add: render_table_def)
  moreover have "length expected_rows = 10" by (simp add: expected_rows_def)
  ultimately show ?thesis using st lines expected_rows_hold
    by (simp add: test_renders_table_def nth_append)
qed

section \<open>Bytes and dates\<close>

definition test_formats_bytes_and_dates :: "localtime \<Rightarrow> nat \<Rightarrow> bool" where
  "test_formats_bytes_and_dates localtime now =
     (format_bytes 512 = ''512 B''
      \<and> format_bytes 1536 = ''1.50 KiB''
      \<and> format_bytes 13346383872 = ''12.43 GiB''
      \<and> (let date = local_date localtime now in length date = 10 \<and> take 1 (drop 4 date) = ''-''))"

lemma formats_bytes_and_dates:
  assumes "localtime (int (now div 1000)) = Some (y - 1900, m - 1, d)" "calendar_date (y, m, d)"
  shows "test_formats_bytes_and_dates localtime now"
  using assms date_text_digits [OF assms(2)]
  by (simp add: test_formats_bytes_and_dates_def test_byte_counts format_bytes_samples local_date_def Let_def)

end
